(* ===== verification/Prelude.thy ===== *)
theory Prelude
  imports Complex_Main "HOL-Library.Signed_Division" "HOL-Library.Multiset"
begin

text \<open>
  Shared vocabulary of the development: the C conversions the geometry code relies on
  (truncating \<open>(int)\<close> casts of doubles, the \<open>/\<close> and \<open>%\<close> of C on \<open>int\<close>, which are
  \<open>sdiv\<close> and \<open>smod\<close> of \<open>HOL-Library.Signed_Division\<close>), the \<open>named_theorems\<close>
  collections the component theories fill, and generic lemmas on integer division,
  products and sums over lists that the component proofs share.

  Doubles are modelled as \<open>real\<close>: the development reasons about the exact values the
  floating-point code approximates.  Where the code rounds a double to an integer the
  model rounds the exact value; the header of \<open>Spec2Isabelle\<close> discusses when the two
  agree.
\<close>

named_theorems geom_simps "evaluation rules of the geometry model"
named_theorems wf_intros "preservation rules of the grid_volume invariant"

section \<open>C conversions\<close>

text \<open>\<open>(int) x\<close> for a double \<open>x\<close>: truncation towards zero.\<close>

definition c_trunc :: "real \<Rightarrow> int" where
  "c_trunc x = (if 0 \<le> x then \<lfloor>x\<rfloor> else \<lceil>x\<rceil>)"

text \<open>
  \<open>my_round\<close> of \<open>meep/vec.hpp\<close>: rounding to the nearest integer, halves away from
  zero.
\<close>

definition my_round :: "real \<Rightarrow> int" where
  "my_round x = c_trunc (if 0 \<le> x then x + 1 / 2 else x - 1 / 2)"

lemma c_trunc_nonneg [simp]: "0 \<le> x \<Longrightarrow> c_trunc x = \<lfloor>x\<rfloor>"
  by (simp add: c_trunc_def)

lemma c_trunc_of_int [simp]: "c_trunc (of_int k) = k"
  by (simp add: c_trunc_def)

text \<open>
  The idiom \<open>(int)(p/(double)q + 0.5)\<close> of the splitter, for \<open>p \<ge> 0\<close> and
  \<open>q > 0\<close>, is integer rounding: it is computed exactly by \<open>div\<close>.
\<close>

lemma c_trunc_round_div:
  fixes p q :: int
  assumes "0 \<le> p" and "0 < q"
  shows "c_trunc (of_int p / of_int q + 1 / 2) = (2 * p + q) div (2 * q)"
proof -
  have eq: "of_int p / of_int q + 1 / 2 = (of_int (2 * p + q) / of_int (2 * q) :: real)"
    using assms(2) by (simp add: field_simps)
  have "0 \<le> of_int p / of_int q + (1 / 2 :: real)"
    using assms by simp
  then have "c_trunc (of_int p / of_int q + 1 / 2) = \<lfloor>of_int (2 * p + q) / of_int (2 * q) :: real\<rfloor>"
    by (simp only: c_trunc_nonneg eq)
  also have "\<dots> = (2 * p + q) div (2 * q)"
    by (rule floor_divide_of_int_eq)
  finally show ?thesis .
qed

lemma my_round_of_int [simp]: "my_round (of_int k) = k"
proof (cases "0 \<le> k")
  case True
  then have "\<lfloor>of_int k + 1 / 2 :: real\<rfloor> = k" by linarith
  with True show ?thesis by (simp add: my_round_def)
next
  case False
  then have "\<lceil>of_int k - 1 / 2 :: real\<rceil> = k"
    by (simp add: ceiling_eq_iff)
  with False show ?thesis by (simp add: my_round_def c_trunc_def)
qed

section \<open>C integer division on non-negative operands\<close>

lemma sdiv_nonneg [simp, geom_simps]:
  fixes a b :: int
  assumes "0 \<le> a" and "0 \<le> b"
  shows "a sdiv b = a div b"
  using assms by (auto simp: signed_divide_int_eq_divide_int sgn_if)

lemma smod_nonneg [simp, geom_simps]:
  fixes a b :: int
  assumes "0 \<le> a" and "0 \<le> b"
  shows "a smod b = a mod b"
  using assms by (auto simp: signed_modulo_int_eq_modulo_int sgn_if)

lemma sdiv_two_even [simp]: "(2 * k) sdiv 2 = (k :: int)"
  by (simp add: signed_divide_int_def sgn_mult abs_mult sgn_mult_abs)

section \<open>Positional decomposition\<close>

text \<open>
  The flattened array index of the field code is a mixed-radix numeral: the digit of
  an axis is \<open>(i div stride) mod (n + 1)\<close>.  Two digits recombine into a remainder
  modulo the product of the radices.
\<close>

lemma digit_recombine:
  fixes i b c :: int
  assumes "0 < b" and "0 < c"
  shows "(i div b) mod c * b + i mod b = i mod (b * c)"
  using assms by (simp add: zmod_zmult2_eq algebra_simps)

lemma mod_small_int: "0 \<le> (i::int) \<Longrightarrow> i < m \<Longrightarrow> i mod m = i"
  by simp

lemma div_small_bound:
  fixes i b c :: int
  assumes "0 \<le> i" and "i < b * c" and "0 < b"
  shows "i div b < c"
proof (rule ccontr)
  assume "\<not> i div b < c"
  then have "b * c \<le> b * (i div b)"
    using assms(3) by simp
  moreover have "b * (i div b) + i mod b = i"
    by simp
  moreover have "0 \<le> i mod b"
    using assms(3) by simp
  ultimately show False
    using assms(2) by linarith
qed

section \<open>Division inequalities and interval sums\<close>

lemma le_zdiv_iff: "0 < (q::int) \<Longrightarrow> x \<le> a div q \<longleftrightarrow> x * q \<le> a"
proof
  assume q: "0 < q" and "x \<le> a div q"
  then have "x * q \<le> a div q * q" by (simp add: mult_right_mono)
  also have "\<dots> \<le> a" using q by (simp add: pos_mod_sign minus_mod_eq_div_mult[symmetric])
  finally show "x * q \<le> a" .
next
  assume q: "0 < q" and xq: "x * q \<le> a"
  show "x \<le> a div q"
  proof (rule ccontr)
    assume "\<not> x \<le> a div q"
    then have "(a div q + 1) * q \<le> x * q" using q by (simp add: mult_right_mono)
    moreover have "a < (a div q + 1) * q"
      using q pos_mod_bound[OF q, of a] by (simp add: algebra_simps minus_mod_eq_mult_div[symmetric])
    ultimately show False using xq by simp
  qed
qed

lemma zdiv_less_iff: "0 < (q::int) \<Longrightarrow> a div q < x \<longleftrightarrow> a < x * q"
  using le_zdiv_iff[of q x a] by (auto simp: not_le[symmetric])

lemma sum_int_shift: "(\<Sum>w\<in>{a..<b::int}. f w) = (\<Sum>w\<in>{0..<b - a}. f (w + a))"
  by (rule sum.reindex_bij_witness[of _ "\<lambda>w. w + a" "\<lambda>w. w - a"]) auto
lemma sum_int_concat:
  assumes "a \<le> m" and "m \<le> (b::int)"
  shows "(\<Sum>w\<in>{a..<b}. f w) = (\<Sum>w\<in>{a..<m}. f w) + (\<Sum>w\<in>{m..<b}. f w)"
proof -
  have "{a..<b} = {a..<m} \<union> {m..<b}" using assms by auto
  then show ?thesis by (simp add: sum.union_disjoint ivl_disj_int)
qed

lemma radix_bound:
  fixes a n r b :: int
  assumes "0 \<le> a" "a \<le> n" "0 \<le> r" "r < b"
  shows "0 \<le> a * b + r \<and> a * b + r < (n + 1) * b"
proof -
  have "a * b \<le> n * b" using assms by (simp add: mult_right_mono)
  then have "a * b + r < n * b + b" using assms by linarith
  moreover have "0 \<le> a * b" using assms by simp
  ultimately show ?thesis using assms by (simp add: algebra_simps)
qed

section \<open>Lists updated in place\<close>

text \<open>The sum of a list after one of its elements is overwritten (the weight of a
  node of a linked list changed in place).\<close>

lemma sum_list_update_group:
  fixes xs :: "'a::ab_group_add list"
  shows "k < length xs \<Longrightarrow> sum_list (xs[k := x]) = sum_list xs - xs ! k + x"
  by (induction xs arbitrary: k) (auto split: nat.splits)

section \<open>Arrays written cell by cell, loops that may fail\<close>

text \<open>An array filled by a loop of writes \<open>a[cl] = v\<close> is a fold of function updates;
  with distinct cells, each written cell holds its value.\<close>

lemma fold_upd_other:
  "k \<notin> fst ` set ws \<Longrightarrow> fold (\<lambda>(cl, v) f. f(cl := Some v)) ws f k = f k"
  by (induction ws arbitrary: f) auto

lemma fold_upd_in:
  "distinct (map fst ws) \<Longrightarrow> (k, v) \<in> set ws \<Longrightarrow> fold (\<lambda>(cl, v) f. f(cl := Some v)) ws f k = Some v"
proof (induction ws arbitrary: f)
  case (Cons w ws)
  obtain k' v' where w: "w = (k', v')" by (cases w)
  show ?case
  proof (cases "(k, v) \<in> set ws")
    case True
    then show ?thesis using Cons w by (simp del: fun_upd_apply)
  next
    case False
    then have "k = k'" "v = v'" "k \<notin> fst ` set ws" using Cons.prems w by force+
    then show ?thesis using w fold_upd_other[of k ws "f(k := Some v)"] by (simp del: fun_upd_apply add: fun_upd_same)
  qed
qed simp

lemma product_append_left: "List.product (xs @ ys) zs = List.product xs zs @ List.product ys zs"
  by (induction xs) simp_all

text \<open>A loop whose body may fail (\<open>None\<close>) and otherwise updates an accumulator:
  one failing iteration fails the loop; when none fails it is the plain fold.\<close>

lemma fold_bind_none:
  "fold (\<lambda>n acc. Option.bind acc (\<lambda>p. map_option (h p) (g n))) xs None = None"
  by (induction xs) simp_all

lemma fold_bind_some_none:
  "\<exists>n\<in>set xs. g n = None \<Longrightarrow> fold (\<lambda>n acc. Option.bind acc (\<lambda>p. map_option (h p) (g n))) xs acc0 = None"
proof (induction xs arbitrary: acc0)
  case (Cons x xs)
  show ?case
  proof (cases "g x = None")
    case True
    then show ?thesis by (cases acc0) (simp_all add: fold_bind_none)
  next
    case False
    then have "\<exists>n\<in>set xs. g n = None" using Cons.prems by auto
    then show ?thesis using Cons.IH by simp
  qed
qed simp

lemma fold_bind_all_some:
  "\<forall>n\<in>set xs. g n = Some (f n) \<Longrightarrow>
   fold (\<lambda>n acc. Option.bind acc (\<lambda>p. map_option (h p) (g n))) xs (Some p0) = Some (fold (\<lambda>n p. h p (f n)) xs p0)"
  by (induction xs arbitrary: p0) simp_all

text \<open>A loop that stores the result of a fallible computation for each key, and one
  whose every step succeeds and adds a set of keys to the map.\<close>

lemma fold_map_upd:
  "\<forall>f\<in>set fs. g f \<noteq> None \<Longrightarrow>
   fold (\<lambda>f acc. Option.bind acc (\<lambda>m. map_option (\<lambda>sn. m(f := Some sn)) (g f))) fs (Some m0)
   = Some (\<lambda>x. if x \<in> set fs then g x else m0 x)"
proof (induction fs arbitrary: m0)
  case (Cons f fs)
  obtain s where s: "g f = Some s" using Cons.prems by (cases "g f") auto
  have ih: "fold (\<lambda>f acc. Option.bind acc (\<lambda>m. map_option (\<lambda>sn. m(f := Some sn)) (g f))) fs (Some (m0(f := Some s)))
            = Some (\<lambda>x. if x \<in> set fs then g x else (m0(f := Some s)) x)"
    by (rule Cons.IH) (use Cons.prems in simp)
  have step: "fold (\<lambda>f acc. Option.bind acc (\<lambda>m. map_option (\<lambda>sn. m(f := Some sn)) (g f))) (f # fs) (Some m0)
        = Some (\<lambda>x. if x \<in> set fs then g x else (m0(f := Some s)) x)"
    using ih s by (simp only: fold_Cons comp_def Option.bind.simps option.map)
  have eq: "(\<lambda>x. if x \<in> set fs then g x else (m0(f := Some s)) x) = (\<lambda>x. if x \<in> set (f # fs) then g x else m0 x)"
    using s by (auto simp: fun_eq_iff)
  show ?case by (subst eq[symmetric]) (rule step)
qed simp

lemma fold_bind_dom:
  assumes "\<forall>x\<in>set xs. \<forall>m. \<exists>m'. f x m = Some m' \<and> dom m' = dom m \<union> D x"
  shows "\<exists>m'. fold (\<lambda>x acc. Option.bind acc (f x)) xs (Some ma) = Some m' \<and> dom m' = dom ma \<union> (\<Union>x\<in>set xs. D x)"
  using assms
proof (induction xs arbitrary: ma)
  case (Cons x xs)
  have "\<forall>m. \<exists>m'. f x m = Some m' \<and> dom m' = dom m \<union> D x" using Cons.prems by simp
  then obtain m1 where m1: "f x ma = Some m1" "dom m1 = dom ma \<union> D x" by blast
  obtain m' where "fold (\<lambda>x acc. Option.bind acc (f x)) xs (Some m1) = Some m'"
      "dom m' = dom m1 \<union> (\<Union>x\<in>set xs. D x)"
    using Cons.IH[of m1] Cons.prems by auto
  then show ?case using m1 by auto
qed simp

text \<open>The cells a loop of writes fills; products and concatenations without repeats;
  a bounded quantifier over the three axes.\<close>

lemma fold_upd_dom: "dom (fold (\<lambda>(cl, v) f. f(cl := Some v)) ws f) = dom f \<union> fst ` set ws"
  by (induction ws arbitrary: f) auto

lemma product_map_right: "List.product xs (map g ys) = map (\<lambda>(x, y). (x, g y)) (List.product xs ys)"
  by (induction xs) (simp_all add: comp_def)

lemma distinct_concat_map_disj:
  "distinct xs \<Longrightarrow> \<forall>x\<in>set xs. distinct (f x)
   \<Longrightarrow> \<forall>x\<in>set xs. \<forall>y\<in>set xs. x \<noteq> y \<longrightarrow> set (f x) \<inter> set (f y) = {}
   \<Longrightarrow> distinct (concat (map f xs))"
  by (induction xs) auto

lemma all_less_3: "(\<forall>i<(3::nat). Q i) \<longleftrightarrow> Q 0 \<and> Q 1 \<and> Q 2"
proof -
  have "i < 3 \<longleftrightarrow> i = 0 \<or> i = 1 \<or> i = 2" for i :: nat by auto
  then show ?thesis by auto
qed

end
