(* ===== verification/Coords.thy ===== *)
theory Coords
  imports Prelude
begin

text \<open>
  The coordinate algebra of \<open>meep/vec.hpp\<close> and of the first part of \<open>src/vec.cpp\<close>:
  the enumerations \<open>ndim\<close>, \<open>direction\<close>, \<open>component\<close> and \<open>derived_component\<close>,
  the set of active directions of a dimensionality (the \<open>LOOP_OVER_DIRECTIONS\<close> macro,
  in its order), the integer lattice points \<open>ivec\<close> in half-grid units and the
  continuous points \<open>vec\<close>, with the per-axis operations the rest of the development
  uses.  An \<open>ivec\<close> or \<open>vec\<close> is a record of its dimensionality and a function from
  directions to coordinates, which is the array \<open>t[5]\<close> indexed by \<open>direction\<close> of
  the C++ class; operations act on the active directions of the dimensionality and
  leave the others at 0.
\<close>

section \<open>Enumerations\<close>

datatype ndim = D1 | D2 | D3 | Dcyl

datatype direction = X | Y | Z | R | P | NO_DIRECTION

datatype boundary_side = High | Low

datatype field_type = E_stuff | H_stuff | D_stuff | B_stuff

datatype component =
    Ex | Ey | Er | Ep | Ez
  | Hx | Hy | Hr | Hp | Hz
  | Dx | Dy | Dr | Dp | Dz
  | Bx | By | Br | Bp | Bz
  | Dielectric | Permeability

datatype derived_component =
    Sx | Sy | Sr | Sp | Sz | EnergyDensity | D_EnergyDensity | H_EnergyDensity

text \<open>
  The \<open>int c\<close> of the code that holds either a stored or a derived component
  (\<open>is_derived(c)\<close> is \<open>c \<ge> Sx = 100\<close>).
\<close>

datatype any_component = Comp component | Derived derived_component

text \<open>The numeric value of a direction in the C enumeration (\<open>X = 0\<close>, ..., \<open>NO_DIRECTION = 5\<close>).\<close>

fun dir_num :: "direction \<Rightarrow> int" where
  "dir_num X = 0"
| "dir_num Y = 1"
| "dir_num Z = 2"
| "dir_num R = 3"
| "dir_num P = 4"
| "dir_num NO_DIRECTION = 5"

text \<open>\<open>d % 3\<close>, the index into \<open>num[3]\<close> of a \<open>grid_volume\<close>: \<open>R\<close> shares slot 0 with \<open>X\<close>.\<close>

fun num_index :: "direction \<Rightarrow> nat" where
  "num_index X = 0"
| "num_index Y = 1"
| "num_index Z = 2"
| "num_index R = 0"
| "num_index P = 1"
| "num_index NO_DIRECTION = 2"

text \<open>
  \<open>LOOP_OVER_DIRECTIONS(dim, d)\<close> runs \<open>d\<close> from \<open>start_at_direction(dim)\<close> below
  \<open>stop_at_direction(dim)\<close>: \<open>Z\<close> in 1D, \<open>X, Y\<close> in 2D, \<open>X, Y, Z\<close> in 3D and
  \<open>Z, R\<close> in cylindrical coordinates.
\<close>

fun loop_dirs :: "ndim \<Rightarrow> direction list" where
  "loop_dirs D1 = [Z]"
| "loop_dirs D2 = [X, Y]"
| "loop_dirs D3 = [X, Y, Z]"
| "loop_dirs Dcyl = [Z, R]"

text \<open>\<open>FOR_DIRECTIONS(d)\<close>: every direction but \<open>NO_DIRECTION\<close>.\<close>

definition all_dirs :: "direction list" where
  "all_dirs = [X, Y, Z, R, P]"

definition has_direction :: "ndim \<Rightarrow> direction \<Rightarrow> bool" where
  "has_direction dm d = (d \<in> set (loop_dirs dm))"

section \<open>Components\<close>

fun component_direction :: "component \<Rightarrow> direction" where
  "component_direction Ex = X" | "component_direction Ey = Y" | "component_direction Er = R"
| "component_direction Ep = P" | "component_direction Ez = Z"
| "component_direction Hx = X" | "component_direction Hy = Y" | "component_direction Hr = R"
| "component_direction Hp = P" | "component_direction Hz = Z"
| "component_direction Dx = X" | "component_direction Dy = Y" | "component_direction Dr = R"
| "component_direction Dp = P" | "component_direction Dz = Z"
| "component_direction Bx = X" | "component_direction By = Y" | "component_direction Br = R"
| "component_direction Bp = P" | "component_direction Bz = Z"
| "component_direction Dielectric = NO_DIRECTION"
| "component_direction Permeability = NO_DIRECTION"

text \<open>The field kind of a stored vector component (\<open>None\<close> for the scalar tags).\<close>

fun component_kind :: "component \<Rightarrow> field_type option" where
  "component_kind c =
     (if c \<in> {Ex, Ey, Er, Ep, Ez} then Some E_stuff
      else if c \<in> {Hx, Hy, Hr, Hp, Hz} then Some H_stuff
      else if c \<in> {Dx, Dy, Dr, Dp, Dz} then Some D_stuff
      else if c \<in> {Bx, By, Br, Bp, Bz} then Some B_stuff
      else None)"

definition is_electric :: "component \<Rightarrow> bool" where
  "is_electric c = (component_kind c = Some E_stuff)"

definition is_magnetic :: "component \<Rightarrow> bool" where
  "is_magnetic c = (component_kind c = Some H_stuff)"

definition is_D :: "component \<Rightarrow> bool" where
  "is_D c = (component_kind c = Some D_stuff)"

definition is_B :: "component \<Rightarrow> bool" where
  "is_B c = (component_kind c = Some B_stuff)"

text \<open>The component of a field kind pointing in a direction (\<open>first_field_component\<close> plus offset).\<close>

fun kind_component :: "field_type \<Rightarrow> direction \<Rightarrow> component" where
  "kind_component E_stuff d = (case d of X \<Rightarrow> Ex | Y \<Rightarrow> Ey | R \<Rightarrow> Er | P \<Rightarrow> Ep | _ \<Rightarrow> Ez)"
| "kind_component H_stuff d = (case d of X \<Rightarrow> Hx | Y \<Rightarrow> Hy | R \<Rightarrow> Hr | P \<Rightarrow> Hp | _ \<Rightarrow> Hz)"
| "kind_component D_stuff d = (case d of X \<Rightarrow> Dx | Y \<Rightarrow> Dy | R \<Rightarrow> Dr | P \<Rightarrow> Dp | _ \<Rightarrow> Dz)"
| "kind_component B_stuff d = (case d of X \<Rightarrow> Bx | Y \<Rightarrow> By | R \<Rightarrow> Br | P \<Rightarrow> Bp | _ \<Rightarrow> Bz)"

text \<open>
  \<open>direction_component(c, d)\<close>: the component of the same field kind as \<open>c\<close> in
  direction \<open>d\<close>.  The scalar tags are their own image; the header aborts for a vector
  component asked for \<open>NO_DIRECTION\<close>, a call no caller makes (the symmetry transform
  maps proper directions to proper directions), and which the model sends to the
  \<open>Z\<close> component.
\<close>

definition direction_component :: "component \<Rightarrow> direction \<Rightarrow> component" where
  "direction_component c d =
     (case component_kind c of None \<Rightarrow> c | Some k \<Rightarrow> kind_component k d)"

fun derived_direction :: "derived_component \<Rightarrow> direction" where
  "derived_direction Sx = X" | "derived_direction Sy = Y" | "derived_direction Sr = R"
| "derived_direction Sp = P" | "derived_direction Sz = Z"
| "derived_direction EnergyDensity = NO_DIRECTION"
| "derived_direction D_EnergyDensity = NO_DIRECTION"
| "derived_direction H_EnergyDensity = NO_DIRECTION"

definition is_poynting :: "derived_component \<Rightarrow> bool" where
  "is_poynting c = (c \<in> {Sx, Sy, Sr, Sp, Sz})"

definition derived_direction_component :: "derived_component \<Rightarrow> direction \<Rightarrow> derived_component" where
  "derived_direction_component c d =
     (if is_poynting c then (case d of X \<Rightarrow> Sx | Y \<Rightarrow> Sy | R \<Rightarrow> Sr | P \<Rightarrow> Sp | _ \<Rightarrow> Sz) else c)"

section \<open>Lattice points and continuous points\<close>

record ivec =
  ivdim :: ndim
  iv :: "direction \<Rightarrow> int"

record vec =
  vdim :: ndim
  vv :: "direction \<Rightarrow> real"

text \<open>A point of dimensionality \<open>dim\<close> built from its active coordinates.\<close>

definition mk_ivec :: "ndim \<Rightarrow> (direction \<Rightarrow> int) \<Rightarrow> ivec" where
  "mk_ivec dm f = \<lparr>ivdim = dm, iv = (\<lambda>d. if has_direction dm d then f d else 0)\<rparr>"

definition mk_vec :: "ndim \<Rightarrow> (direction \<Rightarrow> real) \<Rightarrow> vec" where
  "mk_vec dm f = \<lparr>vdim = dm, vv = (\<lambda>d. if has_direction dm d then f d else 0)\<rparr>"

definition zero_ivec :: "ndim \<Rightarrow> ivec" where
  "zero_ivec dm = mk_ivec dm (\<lambda>_. 0)"

definition one_ivec :: "ndim \<Rightarrow> ivec" where
  "one_ivec dm = mk_ivec dm (\<lambda>_. 1)"

definition zero_vec :: "ndim \<Rightarrow> vec" where
  "zero_vec dm = mk_vec dm (\<lambda>_. 0)"

text \<open>The constructors \<open>ivec(z)\<close>, \<open>ivec(x, y)\<close>, \<open>ivec(x, y, z)\<close>, \<open>iveccyl(r, z)\<close>.\<close>

definition ivec1 :: "int \<Rightarrow> ivec" where
  "ivec1 z = mk_ivec D1 (\<lambda>d. if d = Z then z else 0)"

definition ivec2 :: "int \<Rightarrow> int \<Rightarrow> ivec" where
  "ivec2 x y = mk_ivec D2 (\<lambda>d. if d = X then x else if d = Y then y else 0)"

definition ivec3 :: "int \<Rightarrow> int \<Rightarrow> int \<Rightarrow> ivec" where
  "ivec3 x y z = mk_ivec D3 (\<lambda>d. if d = X then x else if d = Y then y else if d = Z then z else 0)"

definition iveccyl :: "int \<Rightarrow> int \<Rightarrow> ivec" where
  "iveccyl r z = mk_ivec Dcyl (\<lambda>d. if d = R then r else if d = Z then z else 0)"

definition vec2 :: "real \<Rightarrow> real \<Rightarrow> vec" where
  "vec2 x y = mk_vec D2 (\<lambda>d. if d = X then x else if d = Y then y else 0)"

definition vec1 :: "real \<Rightarrow> vec" where
  "vec1 z = mk_vec D1 (\<lambda>d. if d = Z then z else 0)"

definition vec3 :: "real \<Rightarrow> real \<Rightarrow> real \<Rightarrow> vec" where
  "vec3 x y z = mk_vec D3 (\<lambda>d. if d = X then x else if d = Y then y else if d = Z then z else 0)"

definition veccyl :: "real \<Rightarrow> real \<Rightarrow> vec" where
  "veccyl r z = mk_vec Dcyl (\<lambda>d. if d = R then r else if d = Z then z else 0)"

definition ivec_set :: "ivec \<Rightarrow> direction \<Rightarrow> int \<Rightarrow> ivec" where
  "ivec_set p d x = p\<lparr>iv := (iv p)(d := x)\<rparr>"

definition vec_set :: "vec \<Rightarrow> direction \<Rightarrow> real \<Rightarrow> vec" where
  "vec_set p d x = p\<lparr>vv := (vv p)(d := x)\<rparr>"

definition ivec_plus :: "ivec \<Rightarrow> ivec \<Rightarrow> ivec" where
  "ivec_plus p q = mk_ivec (ivdim p) (\<lambda>d. iv p d + iv q d)"

definition ivec_minus :: "ivec \<Rightarrow> ivec \<Rightarrow> ivec" where
  "ivec_minus p q = mk_ivec (ivdim p) (\<lambda>d. iv p d - iv q d)"

definition ivec_scale :: "ivec \<Rightarrow> int \<Rightarrow> ivec" where
  "ivec_scale p s = mk_ivec (ivdim p) (\<lambda>d. iv p d * s)"

definition ivec_neg :: "ivec \<Rightarrow> ivec" where
  "ivec_neg p = mk_ivec (ivdim p) (\<lambda>d. - iv p d)"

text \<open>\<open>ivec * double\<close>: the continuous point of a lattice point.\<close>

definition ivec_to_vec :: "ivec \<Rightarrow> real \<Rightarrow> vec" where
  "ivec_to_vec p s = mk_vec (ivdim p) (\<lambda>d. of_int (iv p d) * s)"

definition vec_plus :: "vec \<Rightarrow> vec \<Rightarrow> vec" where
  "vec_plus p q = mk_vec (vdim p) (\<lambda>d. vv p d + vv q d)"

definition vec_minus :: "vec \<Rightarrow> vec \<Rightarrow> vec" where
  "vec_minus p q = mk_vec (vdim p) (\<lambda>d. vv p d - vv q d)"

definition vec_scale :: "vec \<Rightarrow> real \<Rightarrow> vec" where
  "vec_scale p s = mk_vec (vdim p) (\<lambda>d. vv p d * s)"

text \<open>\<open>ivec::operator==\<close> compares the active coordinates.\<close>

definition ivec_eq :: "ivec \<Rightarrow> ivec \<Rightarrow> bool" where
  "ivec_eq p q = list_all (\<lambda>d. iv p d = iv q d) (loop_dirs (ivdim p))"

text \<open>
  \<open>round_up_to_even\<close> of \<open>vec.hpp\<close>: \<open>t[d] + (t[d] >= 0 ? t[d] : -t[d]) % 2\<close> on
  each active coordinate.
\<close>

definition round_up_to_even :: "ivec \<Rightarrow> ivec" where
  "round_up_to_even p = mk_ivec (ivdim p) (\<lambda>d. iv p d + (\<bar>iv p d\<bar> smod 2))"

subsection \<open>\<open>min\<close> and \<open>max\<close> of points (\<open>vec.cpp\<close>)\<close>

definition vec_min :: "vec \<Rightarrow> vec \<Rightarrow> vec" where
  "vec_min v1 v2 = mk_vec (vdim v1) (\<lambda>d. min (vv v1 d) (vv v2 d))"

definition vec_max :: "vec \<Rightarrow> vec \<Rightarrow> vec" where
  "vec_max v1 v2 = mk_vec (vdim v1) (\<lambda>d. max (vv v1 d) (vv v2 d))"

definition ivec_min :: "ivec \<Rightarrow> ivec \<Rightarrow> ivec" where
  "ivec_min p1 p2 = mk_ivec (ivdim p1) (\<lambda>d. min (iv p1 d) (iv p2 d))"

definition ivec_max :: "ivec \<Rightarrow> ivec \<Rightarrow> ivec" where
  "ivec_max p1 p2 = mk_ivec (ivdim p1) (\<lambda>d. max (iv p1 d) (iv p2 d))"

subsection \<open>The traversal order of nested loops\<close>

text \<open>
  \<open>yucky_dir(dim, n)\<close> (\<open>vec.cpp\<close>): the direction of the \<open>n\<close>-th nested loop over a
  field array, \<open>n = 0, 1, 2\<close>.  In 2D it is the enum value \<open>(n + 2) % 3\<close> (C's
  \<open>%\<close>, \<open>smod\<close>).
\<close>

definition dir_of_num :: "int \<Rightarrow> direction" where
  "dir_of_num k = (if k = 0 then X else if k = 1 then Y else if k = 2 then Z
                   else if k = 3 then R else if k = 4 then P else NO_DIRECTION)"

definition yucky_dir :: "ndim \<Rightarrow> int \<Rightarrow> direction" where
  "yucky_dir dm n =
     (if dm = Dcyl \<and> n \<in> {0, 1, 2} then (if n = 0 then P else if n = 1 then R else Z)
      else if dm = Dcyl then dir_of_num n
      else if dm = D2 then dir_of_num ((n + 2) smod 3)
      else dir_of_num n)"

definition ivec_yucky_val :: "ivec \<Rightarrow> int \<Rightarrow> int" where
  "ivec_yucky_val p n =
     (if has_direction (ivdim p) (yucky_dir (ivdim p) n) then iv p (yucky_dir (ivdim p) n) else 0)"

text \<open>\<open>vec::project_to_boundary(d, boundary_loc)\<close>: the distance along \<open>d\<close> to a wall.\<close>

definition vec_project_to_boundary :: "vec \<Rightarrow> direction \<Rightarrow> real \<Rightarrow> real" where
  "vec_project_to_boundary p d b = \<bar>b - vv p d\<bar>"

section \<open>Names (lines 49-127)\<close>

text \<open>\<open>dimension_name\<close>, \<open>direction_name\<close> and the \<open>component_name\<close> overloads: the
  labels used in output file names and diagnostics.\<close>

definition dimension_name :: "ndim \<Rightarrow> string" where
  "dimension_name dm = (case dm of D1 \<Rightarrow> ''1D'' | D2 \<Rightarrow> ''2D'' | D3 \<Rightarrow> ''3D'' | Dcyl \<Rightarrow> ''Cylindrical'')"

definition direction_name :: "direction \<Rightarrow> string" where
  "direction_name d =
     (case d of X \<Rightarrow> ''x'' | Y \<Rightarrow> ''y'' | Z \<Rightarrow> ''z'' | R \<Rightarrow> ''r'' | P \<Rightarrow> ''phi''
      | NO_DIRECTION \<Rightarrow> ''no_direction'')"

fun component_name :: "component \<Rightarrow> string" where
  "component_name Er = ''er''" | "component_name Ep = ''ep''" | "component_name Ez = ''ez''"
| "component_name Hr = ''hr''" | "component_name Hp = ''hp''" | "component_name Hz = ''hz''"
| "component_name Ex = ''ex''" | "component_name Ey = ''ey''"
| "component_name Hx = ''hx''" | "component_name Hy = ''hy''"
| "component_name Dx = ''dx''" | "component_name Dy = ''dy''" | "component_name Dz = ''dz''"
| "component_name Dr = ''dr''" | "component_name Dp = ''dp''"
| "component_name Bx = ''bx''" | "component_name By = ''by''" | "component_name Bz = ''bz''"
| "component_name Br = ''br''" | "component_name Bp = ''bp''"
| "component_name Dielectric = ''eps''" | "component_name Permeability = ''mu''"

fun derived_name :: "derived_component \<Rightarrow> string" where
  "derived_name Sr = ''sr''" | "derived_name Sp = ''sp''" | "derived_name Sz = ''sz''"
| "derived_name Sx = ''sx''" | "derived_name Sy = ''sy''"
| "derived_name EnergyDensity = ''energy''" | "derived_name D_EnergyDensity = ''denergy''"
| "derived_name H_EnergyDensity = ''henergy''"

text \<open>\<open>component_name(int c)\<close>: dispatch on \<open>is_derived(c)\<close>.\<close>

definition any_component_name :: "any_component \<Rightarrow> string" where
  "any_component_name c = (case c of Comp c' \<Rightarrow> component_name c' | Derived c' \<Rightarrow> derived_name c')"

text \<open>\<open>first_field_component(ft)\<close>: the \<open>x\<close> component of a field kind.\<close>

definition first_field_component :: "field_type \<Rightarrow> component" where
  "first_field_component ft = (case ft of E_stuff \<Rightarrow> Ex | H_stuff \<Rightarrow> Hx | D_stuff \<Rightarrow> Dx | B_stuff \<Rightarrow> Bx)"

text \<open>Every stored and derived component, in the order of the enumerations.\<close>

definition all_any_components :: "any_component list" where
  "all_any_components =
     map Comp [Ex, Ey, Er, Ep, Ez, Hx, Hy, Hr, Hp, Hz, Dx, Dy, Dr, Dp, Dz, Bx, By, Br, Bp, Bz,
               Dielectric, Permeability]
     @ map Derived [Sx, Sy, Sr, Sp, Sz, EnergyDensity, D_EnergyDensity, H_EnergyDensity]"

section \<open>Lemmas\<close>

lemma vv_vec3 [simp]: "vv (vec3 a b c) X = a" "vv (vec3 a b c) Y = b" "vv (vec3 a b c) Z = c"
  by (simp_all add: vec3_def mk_vec_def has_direction_def)

lemma all_any_components_UNIV: "set all_any_components = UNIV"
proof -
  have "c \<in> set all_any_components" for c
  proof (cases c)
    case (Comp c')
    then show ?thesis by (cases c') (simp_all add: all_any_components_def)
  next
    case (Derived c')
    then show ?thesis by (cases c') (simp_all add: all_any_components_def)
  qed
  then show ?thesis by blast
qed

lemma component_direction_kind:
  "component_kind c = Some k \<Longrightarrow> component_direction c \<noteq> NO_DIRECTION"
  by (cases c) auto

lemma direction_component_direction [simp]:
  "d \<noteq> NO_DIRECTION \<Longrightarrow> component_kind c \<noteq> None \<Longrightarrow>
   component_direction (direction_component c d) = d"
  by (cases d; cases c) (auto simp: direction_component_def)

lemma direction_component_kind [simp]:
  "component_kind (direction_component c d) = component_kind c"
  by (cases d; cases c) (auto simp: direction_component_def)

lemma direction_component_self [simp]:
  "direction_component c (component_direction c) = c"
  by (cases c) (auto simp: direction_component_def)

lemmas coord_defs [geom_simps] =
  mk_ivec_def mk_vec_def zero_ivec_def one_ivec_def zero_vec_def ivec1_def ivec2_def ivec3_def
  iveccyl_def vec2_def ivec_set_def vec_set_def ivec_plus_def ivec_minus_def ivec_scale_def
  ivec_neg_def ivec_to_vec_def vec_plus_def vec_minus_def vec_scale_def has_direction_def

lemma has_direction_simps [simp]:
  "has_direction D1 d = (d = Z)"
  "has_direction D2 d = (d = X \<or> d = Y)"
  "has_direction D3 d = (d = X \<or> d = Y \<or> d = Z)"
  "has_direction Dcyl d = (d = Z \<or> d = R)"
  by (auto simp: has_direction_def)

lemma has_direction_not_NO [simp]: "\<not> has_direction dm NO_DIRECTION"
  by (cases dm) auto

lemma has_direction_not_P [simp]: "\<not> has_direction dm P"
  by (cases dm) auto

lemma loop_dirs_distinct [simp]: "distinct (loop_dirs dm)"
  by (cases dm) auto

lemma mk_ivec_iv [simp]: "iv (mk_ivec dm f) d = (if has_direction dm d then f d else 0)"
  by (simp add: mk_ivec_def)

lemma mk_ivec_dim [simp]: "ivdim (mk_ivec dm f) = dm"
  by (simp add: mk_ivec_def)

lemma mk_vec_vv [simp]: "vv (mk_vec dm f) d = (if has_direction dm d then f d else 0)"
  by (simp add: mk_vec_def)

lemma mk_vec_dim [simp]: "vdim (mk_vec dm f) = dm"
  by (simp add: mk_vec_def)

text \<open>On the active directions the array index \<open>d % 3\<close> is injective.\<close>

lemma num_index_inj:
  "has_direction dm d \<Longrightarrow> has_direction dm d' \<Longrightarrow> num_index d = num_index d' \<Longrightarrow> d = d'"
  by (cases dm; cases d; cases d') auto

section \<open>Properties\<close>

text \<open>
  Names are unambiguous.  \<open>component_name\<close> gives different labels to different
  components, stored or derived, and so do \<open>direction_name\<close> and \<open>dimension_name\<close>:
  output files named after them do not collide.
\<close>

theorem names_injective: "inj any_component_name \<and> inj direction_name \<and> inj dimension_name"
proof (intro conjI)
  have "distinct (map any_component_name all_any_components)"
    by (simp add: all_any_components_def any_component_name_def)
  then show "inj any_component_name"
    by (simp add: distinct_map all_any_components_UNIV)
  show "inj direction_name"
  proof (rule injI)
    fix d d' assume "direction_name d = direction_name d'"
    then show "d = d'" by (cases d; cases d') (simp_all add: direction_name_def)
  qed
  show "inj dimension_name"
  proof (rule injI)
    fix d d' assume "dimension_name d = dimension_name d'"
    then show "d = d'" by (cases d; cases d') (simp_all add: dimension_name_def)
  qed
qed

end
