(* ===== verification/GridVolume.thy ===== *)
theory GridVolume
  imports Coords
begin

text \<open>
  The discretised domain \<open>grid_volume\<close> of \<open>src/vec.cpp\<close> and \<open>meep/vec.hpp\<close>: its
  state (dimensionality, resolution \<open>a\<close> and its inverse, the extents \<open>num[3]\<close>, the
  integer origin \<open>io\<close>, the continuous origin, and the cached strides and total size
  that \<open>num_changed()\<close> recomputes), the operations that change it (the constructor,
  \<open>set_origin\<close>, \<open>shift_origin\<close>, \<open>set_num_direction\<close>), and its queries: the Yee
  shift of a component, the corners, \<open>owns\<close>, \<open>contains\<close>, \<open>nowned\<close>, and the
  flattened array index \<open>index\<close> with its inverse \<open>iloc\<close>.

  The invariant \<open>gv_wf\<close> says what every constructed descriptor keeps: the cache agrees
  with \<open>num\<close>, the continuous origin is the image of \<open>io\<close>, extents of active axes are
  non-negative and the unused slots of \<open>num\<close> are zero.  Every state-changing operation
  preserves it, and under it \<open>index\<close> inverts \<open>iloc\<close>.
\<close>

section \<open>State\<close>

text \<open>The C++ field \<open>a\<close> (points per unit length) is \<open>a_res\<close> here.\<close>

record grid_volume =
  gdim :: ndim
  a_res :: real
  inva :: real
  num :: "int list"
  io :: ivec
  origin :: vec
  the_stride :: "direction \<Rightarrow> int"
  the_ntot :: int

definition num_direction :: "grid_volume \<Rightarrow> direction \<Rightarrow> int" where
  "num_direction gv d = num gv ! num_index d"

definition nx :: "grid_volume \<Rightarrow> int" where "nx gv = num gv ! 0"
definition ny :: "grid_volume \<Rightarrow> int" where "ny gv = num gv ! 1"
definition nz :: "grid_volume \<Rightarrow> int" where "nz gv = num gv ! 2"
definition nr :: "grid_volume \<Rightarrow> int" where "nr gv = num gv ! 0"

text \<open>\<open>operator[](ivec)\<close>: the continuous point of a lattice point, \<open>p * (0.5 * inva)\<close>.\<close>

definition lattice_vec :: "grid_volume \<Rightarrow> ivec \<Rightarrow> vec" where
  "lattice_vec gv p = ivec_to_vec p (1 / 2 * inva gv)"

section \<open>The cache: \<open>update_ntot\<close>, \<open>set_strides\<close>, \<open>num_changed\<close>\<close>

definition update_ntot :: "grid_volume \<Rightarrow> grid_volume" where
  "update_ntot gv =
     gv\<lparr>the_ntot := prod_list (map (\<lambda>d. num gv ! num_index d + 1) (loop_dirs (gdim gv)))\<rparr>"

text \<open>
  The \<open>switch\<close> of \<open>set_strides\<close>: the stride of an active direction, as a function
  of the extents \<open>n = num\<close> (\<open>nz() = n[2]\<close>, \<open>ny() = n[1]\<close>).
\<close>

definition stride_table :: "int list \<Rightarrow> direction \<Rightarrow> int" where
  "stride_table n d =
     (case d of Z \<Rightarrow> 1 | R \<Rightarrow> n ! 2 + 1 | X \<Rightarrow> (n ! 2 + 1) * (n ! 1 + 1) | Y \<Rightarrow> n ! 2 + 1
      | P \<Rightarrow> 0 | NO_DIRECTION \<Rightarrow> 0)"

definition set_strides :: "grid_volume \<Rightarrow> grid_volume" where
  "set_strides gv =
     gv\<lparr>the_stride := (\<lambda>d. if has_direction (gdim gv) d then stride_table (num gv) d else 0)\<rparr>"

definition num_changed :: "grid_volume \<Rightarrow> grid_volume" where
  "num_changed gv = set_strides (update_ntot gv)"

section \<open>Operations that change a descriptor\<close>

definition round_vec :: "grid_volume \<Rightarrow> vec \<Rightarrow> ivec" where
  "round_vec gv p = mk_ivec (gdim gv) (\<lambda>d. my_round (vv p d * 2 * a_res gv))"

definition set_origin_i :: "grid_volume \<Rightarrow> ivec \<Rightarrow> grid_volume" where
  "set_origin_i gv o' = gv\<lparr>io := o', origin := lattice_vec gv o'\<rparr>"

definition set_origin_d :: "grid_volume \<Rightarrow> direction \<Rightarrow> int \<Rightarrow> grid_volume" where
  "set_origin_d gv d k =
     (let io' = ivec_set (io gv) d k in gv\<lparr>io := io', origin := lattice_vec gv io'\<rparr>)"

definition set_origin_v :: "grid_volume \<Rightarrow> vec \<Rightarrow> grid_volume" where
  "set_origin_v gv o' = set_origin_i gv (round_vec gv o')"

text \<open>\<open>shift_origin(d, s)\<close> of the header: move \<open>io\<close> by \<open>s\<close> half-steps along \<open>d\<close>.\<close>

definition shift_origin :: "grid_volume \<Rightarrow> direction \<Rightarrow> int \<Rightarrow> grid_volume" where
  "shift_origin gv d s = set_origin_d gv d (iv (io gv) d + s)"

definition set_num_direction :: "grid_volume \<Rightarrow> direction \<Rightarrow> int \<Rightarrow> grid_volume" where
  "set_num_direction gv d k = num_changed (gv\<lparr>num := (num gv)[num_index d := k]\<rparr>)"

text \<open>
  The constructor \<open>grid_volume(td, ta, na, nb, nc)\<close>.  The C++ object starts with
  \<open>io\<close>, \<open>origin\<close> and the cache uninitialised; the model starts them at zero and
  the constructor overwrites all of them.
\<close>

definition make_grid_volume :: "ndim \<Rightarrow> real \<Rightarrow> int \<Rightarrow> int \<Rightarrow> int \<Rightarrow> grid_volume" where
  "make_grid_volume td ta na nb nc =
     set_origin_v
       (num_changed \<lparr>gdim = td, a_res = ta, inva = 1 / ta, num = [na, nb, nc],
                     io = zero_ivec td, origin = zero_vec td,
                     the_stride = (\<lambda>_. 0), the_ntot = 0\<rparr>)
       (zero_vec td)"

text \<open>\<open>pad_self(d)\<close>: one more grid point on each side along \<open>d\<close>; \<open>pad(d)\<close> on a copy.\<close>

definition pad_self :: "grid_volume \<Rightarrow> direction \<Rightarrow> grid_volume" where
  "pad_self gv d =
     shift_origin (num_changed (gv\<lparr>num := (num gv)[num_index d := num gv ! num_index d + 2]\<rparr>)) d (-2)"

definition pad :: "grid_volume \<Rightarrow> direction \<Rightarrow> grid_volume" where
  "pad gv d = pad_self gv d"

section \<open>Queries\<close>

text \<open>\<open>yucky_num(n)\<close>: the extent of the \<open>n\<close>-th nested loop, 1 for an inactive
  direction; \<open>yucky_direction(n)\<close>: its direction.\<close>

definition yucky_num :: "grid_volume \<Rightarrow> int \<Rightarrow> int" where
  "yucky_num gv n =
     (if has_direction (gdim gv) (yucky_dir (gdim gv) n) then num_direction gv (yucky_dir (gdim gv) n) else 1)"

definition yucky_direction :: "grid_volume \<Rightarrow> int \<Rightarrow> direction" where
  "yucky_direction gv n = yucky_dir (gdim gv) n"

text \<open>
  \<open>iyee_shift(c)\<close> of the header: the half-step offset of the sub-lattice of \<open>c\<close>.  An
  electric or displacement component is shifted along its own direction, a magnetic or
  flux-density component along the others, the scalar tags along all.
\<close>

definition iyee_shift :: "grid_volume \<Rightarrow> component \<Rightarrow> ivec" where
  "iyee_shift gv c =
     mk_ivec (gdim gv)
       (\<lambda>d. if c = Dielectric \<or> c = Permeability
                \<or> ((is_electric c \<or> is_D c) \<and> d = component_direction c)
                \<or> ((is_magnetic c \<or> is_B c) \<and> d \<noteq> component_direction c)
             then 1 else 0)"

definition big_corner :: "grid_volume \<Rightarrow> ivec" where
  "big_corner gv =
     (case gdim gv of
        D1 \<Rightarrow> ivec_plus (io gv) (ivec_scale (ivec1 (nz gv)) 2)
      | D2 \<Rightarrow> ivec_plus (io gv) (ivec_scale (ivec2 (nx gv) (ny gv)) 2)
      | D3 \<Rightarrow> ivec_plus (io gv) (ivec_scale (ivec3 (nx gv) (ny gv) (nz gv)) 2)
      | Dcyl \<Rightarrow> ivec_plus (io gv) (ivec_scale (iveccyl (nr gv) (nz gv)) 2))"

definition little_owned_corner0 :: "grid_volume \<Rightarrow> component \<Rightarrow> ivec" where
  "little_owned_corner0 gv c =
     ivec_minus (ivec_plus (io gv) (ivec_scale (one_ivec (gdim gv)) 2)) (iyee_shift gv c)"

definition little_owned_corner :: "grid_volume \<Rightarrow> component \<Rightarrow> ivec" where
  "little_owned_corner gv c =
     (let l = little_owned_corner0 gv c
      in if gdim gv = Dcyl \<and> vv (origin gv) R = 0 \<and> iv l R = 2 then ivec_set l R 0 else l)"

definition nowned :: "grid_volume \<Rightarrow> component \<Rightarrow> int" where
  "nowned gv c =
     (let pt = ivec_minus (big_corner gv) (little_owned_corner gv c)
      in prod_list (map (\<lambda>d. iv pt d sdiv 2 + 1) (loop_dirs (gdim gv))))"

text \<open>\<open>nowned_min()\<close> of the header: the number of owned cells, the product of the extents.\<close>

definition nowned_min :: "grid_volume \<Rightarrow> int" where
  "nowned_min gv = prod_list (map (num_direction gv) (loop_dirs (gdim gv)))"

text \<open>
  \<open>owns(p)\<close>: \<open>p\<close> is a point this descriptor time-steps, strictly above the origin and
  at most \<open>2 n\<close> above it on every active axis; in cylindrical coordinates a descriptor
  whose origin is on the axis also owns the axis points \<open>r = 0\<close>.
\<close>

definition owns :: "grid_volume \<Rightarrow> ivec \<Rightarrow> bool" where
  "owns gv p =
     (let off = ivec_minus p (io gv) in
      case gdim gv of
        Dcyl \<Rightarrow> (vv (origin gv) R = 0 \<and> 0 < iv off Z \<and> iv off Z \<le> nz gv * 2 \<and> iv off R = 0)
                \<or> (0 < iv off R \<and> 0 < iv off Z \<and> iv off R \<le> nr gv * 2 \<and> iv off Z \<le> nz gv * 2)
      | D3 \<Rightarrow> 0 < iv off X \<and> iv off X \<le> nx gv * 2 \<and> 0 < iv off Y \<and> iv off Y \<le> ny gv * 2
              \<and> 0 < iv off Z \<and> iv off Z \<le> nz gv * 2
      | D2 \<Rightarrow> 0 < iv off X \<and> iv off X \<le> nx gv * 2 \<and> 0 < iv off Y \<and> iv off Y \<le> ny gv * 2
      | D1 \<Rightarrow> 0 < iv off Z \<and> iv off Z \<le> nz gv * 2)"

text \<open>\<open>contains(ivec)\<close>: the descriptor stores data about \<open>p\<close> (a half step more lenient than \<open>owns\<close>).\<close>

definition contains_i :: "grid_volume \<Rightarrow> ivec \<Rightarrow> bool" where
  "contains_i gv p =
     (let off = ivec_minus p (io gv)
      in list_all (\<lambda>d. 0 \<le> iv off d \<and> iv off d < (num_direction gv d + 1) * 2)
                  (loop_dirs (gdim gv)))"

text \<open>\<open>index(c, p)\<close>: the flattened array offset of \<open>p\<close> in the array of \<open>c\<close>.\<close>

definition index :: "grid_volume \<Rightarrow> component \<Rightarrow> ivec \<Rightarrow> int" where
  "index gv c p =
     (let off = ivec_minus (ivec_minus p (io gv)) (iyee_shift gv c)
      in sum_list (map (\<lambda>d. iv off d sdiv 2 * the_stride gv d) (loop_dirs (gdim gv))))"

text \<open>
  The \<open>while\<close> loop of \<open>iloc\<close> that lifts a negative quotient by \<open>n + 1\<close> until it
  is non-negative; with \<open>m \<le> 0\<close> it does not end, which \<open>None\<close> records.
\<close>

partial_function (option) wrap_nonneg :: "int \<Rightarrow> int \<Rightarrow> int option" where
  "wrap_nonneg k m = (if k < 0 then wrap_nonneg (k + m) m else Some k)"

declare wrap_nonneg.simps [code]

text \<open>
  The coordinate \<open>iloc\<close> computes along one direction; a zero stride or a zero radix
  is a division by zero in C, \<open>None\<close> here.
\<close>

definition iloc_digit :: "grid_volume \<Rightarrow> int \<Rightarrow> direction \<Rightarrow> int option" where
  "iloc_digit gv ind d =
     (if the_stride gv d = 0 then None
      else case wrap_nonneg (ind sdiv the_stride gv d) (num_direction gv d + 1) of
             None \<Rightarrow> None
           | Some k \<Rightarrow> if num_direction gv d + 1 = 0 then None
                       else Some (2 * (k smod (num_direction gv d + 1))))"

definition iloc :: "grid_volume \<Rightarrow> component \<Rightarrow> int \<Rightarrow> ivec option" where
  "iloc gv c ind =
     (if list_all (\<lambda>d. iloc_digit gv ind d \<noteq> None) (loop_dirs (gdim gv))
      then Some (ivec_plus (ivec_plus (mk_ivec (gdim gv) (\<lambda>d. the (iloc_digit gv ind d)))
                                      (iyee_shift gv c)) (io gv))
      else None)"

text \<open>
  \<open>icenter()\<close>: the lattice point used as symmetry centre, \<open>io\<close> plus the extents
  rounded up to even, so that \<open>icenter - io\<close> is even; \<open>center()\<close> is its
  continuous point.  The cylindrical centre lies on the axis.
\<close>

definition icenter :: "grid_volume \<Rightarrow> ivec" where
  "icenter gv =
     (case gdim gv of
        D1 \<Rightarrow> ivec_plus (io gv) (round_up_to_even (ivec1 (nz gv)))
      | D2 \<Rightarrow> ivec_plus (io gv) (round_up_to_even (ivec2 (nx gv) (ny gv)))
      | D3 \<Rightarrow> ivec_plus (io gv) (round_up_to_even (ivec3 (nx gv) (ny gv) (nz gv)))
      | Dcyl \<Rightarrow> ivec_plus (io gv) (round_up_to_even (iveccyl 0 (nz gv))))"

definition center :: "grid_volume \<Rightarrow> vec" where
  "center gv = lattice_vec gv (icenter gv)"

text \<open>\<open>halve(d)\<close>: the lower half along \<open>d\<close>, up to the symmetry centre.\<close>

definition halve :: "grid_volume \<Rightarrow> direction \<Rightarrow> grid_volume" where
  "halve gv d = set_num_direction gv d ((iv (icenter gv) d - iv (io gv) d) sdiv 2)"

section \<open>The invariant\<close>

text \<open>The slots of \<open>num[3]\<close> no active direction uses.\<close>

fun unused_slots :: "ndim \<Rightarrow> nat list" where
  "unused_slots D1 = [0, 1]"
| "unused_slots D2 = [2]"
| "unused_slots D3 = []"
| "unused_slots Dcyl = [1]"

definition gv_wf :: "grid_volume \<Rightarrow> bool" where
  "gv_wf gv =
     (length (num gv) = 3 \<and> 0 < a_res gv \<and> inva gv = 1 / a_res gv
      \<and> ivdim (io gv) = gdim gv \<and> origin gv = lattice_vec gv (io gv)
      \<and> list_all (\<lambda>d. 0 \<le> num_direction gv d) (loop_dirs (gdim gv))
      \<and> list_all (\<lambda>i. num gv ! i = 0) (unused_slots (gdim gv))
      \<and> the_stride gv = (\<lambda>d. if has_direction (gdim gv) d then stride_table (num gv) d else 0)
      \<and> the_ntot gv = prod_list (map (\<lambda>d. num gv ! num_index d + 1) (loop_dirs (gdim gv))))"

lemmas gv_defs [geom_simps] =
  num_direction_def nx_def ny_def nz_def nr_def lattice_vec_def update_ntot_def
  stride_table_def set_strides_def num_changed_def

text \<open>
  The mutators a descriptor is changed in place with before the parallel workers start
  (\<open>set_origin\<close> in its three forms, \<open>shift_origin\<close>, \<open>set_num_direction\<close>,
  \<open>pad_self\<close>), as one type of operations, and the condition under which the code
  calls each: an active axis, and a non-negative extent.
\<close>

datatype gv_mutation =
    SetOrigin ivec
  | SetOriginDir direction int
  | SetOriginVec vec
  | ShiftOrigin direction int
  | SetNumDirection direction int
  | PadSelf direction

fun apply_mutation :: "grid_volume \<Rightarrow> gv_mutation \<Rightarrow> grid_volume" where
  "apply_mutation gv (SetOrigin p) = set_origin_i gv p"
| "apply_mutation gv (SetOriginDir d k) = set_origin_d gv d k"
| "apply_mutation gv (SetOriginVec v) = set_origin_v gv v"
| "apply_mutation gv (ShiftOrigin d s) = shift_origin gv d s"
| "apply_mutation gv (SetNumDirection d k) = set_num_direction gv d k"
| "apply_mutation gv (PadSelf d) = pad_self gv d"

fun mutation_ok :: "ndim \<Rightarrow> gv_mutation \<Rightarrow> bool" where
  "mutation_ok dm (SetOrigin p) = (ivdim p = dm)"
| "mutation_ok dm (SetOriginDir d k) = True"
| "mutation_ok dm (SetOriginVec v) = True"
| "mutation_ok dm (ShiftOrigin d s) = True"
| "mutation_ok dm (SetNumDirection d k) = (has_direction dm d \<and> 0 \<le> k)"
| "mutation_ok dm (PadSelf d) = has_direction dm d"

section \<open>Lemmas on the invariant and on \<open>iloc\<close>\<close>

lemma wrap_nonneg_id: "0 \<le> k \<Longrightarrow> wrap_nonneg k m = Some k"
  by (subst wrap_nonneg.simps) simp

lemma gv_wf_num:
  assumes "gv_wf gv"
  obtains n0 n1 n2 where "num gv = [n0, n1, n2]"
  using assms by (auto simp: gv_wf_def length_Suc_conv numeral_3_eq_3)

lemma gv_wf_stride:
  "gv_wf gv \<Longrightarrow> has_direction (gdim gv) d \<Longrightarrow> the_stride gv d = stride_table (num gv) d"
  by (simp add: gv_wf_def)

lemma gv_wf_num_nonneg:
  "gv_wf gv \<Longrightarrow> has_direction (gdim gv) d \<Longrightarrow> 0 \<le> num_direction gv d"
  by (auto simp: gv_wf_def list_all_iff has_direction_def)

lemma gv_wf_stride_pos:
  assumes "gv_wf gv" and "has_direction (gdim gv) d"
  shows "0 < stride_table (num gv) d"
proof -
  obtain n0 n1 n2 where n: "num gv = [n0, n1, n2]" using assms(1) by (rule gv_wf_num)
  show ?thesis
    using assms n by (cases "gdim gv"; cases d) (auto simp: gv_wf_def gv_defs)
qed

lemma iloc_digit_wf:
  assumes "gv_wf gv" and "has_direction (gdim gv) d" and "0 \<le> i"
  shows "iloc_digit gv i d = Some (2 * ((i div stride_table (num gv) d) mod (num_direction gv d + 1)))"
proof -
  have s: "0 < stride_table (num gv) d" using assms(1,2) by (rule gv_wf_stride_pos)
  have n: "0 \<le> num_direction gv d" using assms(1,2) by (rule gv_wf_num_nonneg)
  have q: "0 \<le> i div stride_table (num gv) d" using s assms(3) by (simp add: pos_imp_zdiv_nonneg_iff)
  show ?thesis
    using s n q assms by (simp add: iloc_digit_def gv_wf_stride wrap_nonneg_id)
qed

lemma mk_ivec_cong:
  "(\<And>d. has_direction dm d \<Longrightarrow> f d = g d) \<Longrightarrow> mk_ivec dm f = mk_ivec dm g"
  by (auto simp: mk_ivec_def)

lemma iloc_wf:
  assumes "gv_wf gv" and "0 \<le> i"
  shows "iloc gv c i =
    Some (ivec_plus (ivec_plus (mk_ivec (gdim gv)
            (\<lambda>d. 2 * ((i div stride_table (num gv) d) mod (num_direction gv d + 1))))
            (iyee_shift gv c)) (io gv))"
proof -
  have "list_all (\<lambda>d. iloc_digit gv i d \<noteq> None) (loop_dirs (gdim gv))"
    using assms by (simp add: list_all_iff iloc_digit_wf has_direction_def)
  moreover have "mk_ivec (gdim gv) (\<lambda>d. the (iloc_digit gv i d)) =
      mk_ivec (gdim gv) (\<lambda>d. 2 * ((i div stride_table (num gv) d) mod (num_direction gv d + 1)))"
    using assms by (intro mk_ivec_cong) (simp add: iloc_digit_wf)
  ultimately show ?thesis by (simp add: iloc_def)
qed

lemma radix_two:
  fixes i b c :: int
  assumes "0 \<le> i" and "i < b * c" and "0 < b" and "0 < c"
  shows "(i div b) mod c * b + i mod b = i"
  using assms by (simp add: digit_recombine)

text \<open>The digits \<open>iloc\<close> extracts, weighted by the strides, add up to the index again.\<close>

lemma digits_sum:
  assumes "gv_wf gv" and "0 \<le> i" and "i < the_ntot gv"
  shows "sum_list (map (\<lambda>d. (i div stride_table (num gv) d) mod (num_direction gv d + 1)
                             * stride_table (num gv) d) (loop_dirs (gdim gv))) = i"
proof -
  obtain n0 n1 n2 where n: "num gv = [n0, n1, n2]" using assms(1) by (rule gv_wf_num)
  have wf: "0 \<le> num_direction gv d" if "has_direction (gdim gv) d" for d
    using assms(1) that by (rule gv_wf_num_nonneg)
  show ?thesis
  proof (cases "gdim gv")
    case D1
    with assms n show ?thesis by (simp add: gv_wf_def gv_defs)
  next
    case D2
    then have "n2 = 0" "0 \<le> n0" "0 \<le> n1" using assms(1) n wf[of X] wf[of Y]
      by (simp_all add: gv_wf_def gv_defs)
    moreover have "i < (n1 + 1) * (n0 + 1)"
      using assms D2 n by (simp add: gv_wf_def gv_defs algebra_simps)
    ultimately have "(i div (n1 + 1)) mod (n0 + 1) * (n1 + 1) + i mod (n1 + 1) = i"
      using assms(2) by (intro radix_two) simp_all
    with D2 n \<open>n2 = 0\<close> show ?thesis by (simp add: gv_defs algebra_simps)
  next
    case D3
    then have nn: "0 \<le> n0" "0 \<le> n1" "0 \<le> n2" using n wf[of X] wf[of Y] wf[of Z]
      by (simp_all add: gv_defs)
    let ?B = "(n2 + 1) * (n1 + 1)"
    have i: "i < ?B * (n0 + 1)" using assms D3 n by (simp add: gv_wf_def gv_defs algebra_simps)
    have low: "(i div (n2 + 1)) mod (n1 + 1) * (n2 + 1) + i mod (n2 + 1) = i mod ?B"
      using nn by (simp add: digit_recombine)
    have "(i div ?B) mod (n0 + 1) * ?B + i mod ?B = i"
      using nn i assms(2) by (intro radix_two) simp_all
    with low D3 n show ?thesis by (simp add: gv_defs algebra_simps)
  next
    case Dcyl
    then have nn: "0 \<le> n0" "0 \<le> n2" using n wf[of R] wf[of Z]
      by (simp_all add: gv_defs)
    have i: "i < (n2 + 1) * (n0 + 1)" using assms Dcyl n by (simp add: gv_wf_def gv_defs algebra_simps)
    have "(i div (n2 + 1)) mod (n0 + 1) * (n2 + 1) + i mod (n2 + 1) = i"
      using nn i assms(2) by (intro radix_two) simp_all
    with Dcyl n show ?thesis by (simp add: gv_defs algebra_simps)
  qed
qed

lemma index_of_digits:
  assumes "ivdim (io gv) = gdim gv"
  shows "index gv c (ivec_plus (ivec_plus (mk_ivec (gdim gv) (\<lambda>d. 2 * g d)) (iyee_shift gv c)) (io gv))
         = sum_list (map (\<lambda>d. g d * the_stride gv d) (loop_dirs (gdim gv)))"
  unfolding index_def Let_def
  by (intro arg_cong[where f = sum_list] map_cong)
     (auto simp: assms ivec_plus_def ivec_minus_def iyee_shift_def has_direction_def)

lemma sum_strides_wf:
  assumes "gv_wf gv"
  shows "sum_list (map (\<lambda>d. g d * the_stride gv d) (loop_dirs (gdim gv)))
         = sum_list (map (\<lambda>d. g d * stride_table (num gv) d) (loop_dirs (gdim gv)))"
  using assms by (intro arg_cong[where f = sum_list] map_cong) (auto simp: gv_wf_stride has_direction_def)

lemma my_round_zero [simp]: "my_round 0 = 0"
  using my_round_of_int[of 0] by simp

lemma make_grid_volume_wf [wf_intros]:
  assumes "0 < ta"
    and "list_all (\<lambda>d. 0 \<le> [na, nb, nc] ! num_index d) (loop_dirs td)"
    and "list_all (\<lambda>i. [na, nb, nc] ! i = 0) (unused_slots td)"
  shows "gv_wf (make_grid_volume td ta na nb nc)"
  using assms
  by (simp add: gv_wf_def make_grid_volume_def set_origin_v_def set_origin_i_def round_vec_def
                zero_vec_def zero_ivec_def lattice_vec_def update_ntot_def set_strides_def
                num_changed_def num_direction_def fun_eq_iff)


lemma set_origin_i_wf [wf_intros]:
  "gv_wf gv \<Longrightarrow> ivdim p = gdim gv \<Longrightarrow> gv_wf (set_origin_i gv p)"
  by (simp add: gv_wf_def set_origin_i_def gv_defs fun_eq_iff)

lemma set_origin_d_wf [wf_intros]: "gv_wf gv \<Longrightarrow> gv_wf (set_origin_d gv d k)"
  by (simp add: gv_wf_def set_origin_d_def ivec_set_def gv_defs fun_eq_iff Let_def)

lemma set_origin_v_wf [wf_intros]: "gv_wf gv \<Longrightarrow> gv_wf (set_origin_v gv v)"
  by (simp add: set_origin_v_def round_vec_def set_origin_i_wf)

lemma shift_origin_wf [wf_intros]: "gv_wf gv \<Longrightarrow> gv_wf (shift_origin gv d s)"
  by (simp add: shift_origin_def set_origin_d_wf)

lemma used_slot_not_unused:
  "has_direction dm d \<Longrightarrow> num_index d \<notin> set (unused_slots dm)"
  by (cases dm; cases d) auto

text \<open>Writing a new extent into the slot of an active axis keeps the invariant.\<close>

lemma num_update_wf:
  assumes wf: "gv_wf gv" and d: "has_direction (gdim gv) d" and k: "0 \<le> k"
  shows "gv_wf (num_changed (gv\<lparr>num := (num gv)[num_index d := k]\<rparr>))"
proof -
  have len: "length (num gv) = 3" using wf by (simp add: gv_wf_def)
  have idx: "num_index d < 3" by (cases d) auto
  have nonneg: "list_all (\<lambda>d'. 0 \<le> (num gv)[num_index d := k] ! num_index d') (loop_dirs (gdim gv))"
    using wf k len idx by (auto simp: list_all_iff gv_wf_def nth_list_update num_direction_def)
  have "(num gv)[num_index d := k] ! i = 0" if i: "i \<in> set (unused_slots (gdim gv))" for i
  proof -
    have "i \<noteq> num_index d" using i used_slot_not_unused[OF d] by auto
    then have "(num gv)[num_index d := k] ! i = num gv ! i" by simp
    also have "\<dots> = 0" using wf i by (simp add: gv_wf_def list_all_iff)
    finally show ?thesis .
  qed
  then have unused: "list_all (\<lambda>i. (num gv)[num_index d := k] ! i = 0) (unused_slots (gdim gv))"
    by (simp add: list_all_iff)
  show ?thesis
    using wf nonneg unused
    by (simp add: gv_wf_def num_changed_def set_strides_def update_ntot_def lattice_vec_def
                  num_direction_def fun_eq_iff mult.commute)
qed

lemma set_num_direction_wf [wf_intros]:
  "gv_wf gv \<Longrightarrow> has_direction (gdim gv) d \<Longrightarrow> 0 \<le> k \<Longrightarrow> gv_wf (set_num_direction gv d k)"
  by (simp add: set_num_direction_def num_update_wf)

lemma pad_self_wf [wf_intros]:
  assumes "gv_wf gv" and "has_direction (gdim gv) d"
  shows "gv_wf (pad_self gv d)"
proof -
  have "0 \<le> num gv ! num_index d + 2"
    using gv_wf_num_nonneg[OF assms] by (simp add: num_direction_def)
  with assms show ?thesis
    by (simp add: pad_self_def num_update_wf shift_origin_wf)
qed

lemma apply_mutation_gdim [simp]: "gdim (apply_mutation gv m) = gdim gv"
  by (cases m) (simp_all add: set_origin_i_def set_origin_d_def set_origin_v_def shift_origin_def
      set_num_direction_def pad_self_def gv_defs Let_def)

lemma apply_mutation_wf:
  "gv_wf gv \<Longrightarrow> mutation_ok (gdim gv) m \<Longrightarrow> gv_wf (apply_mutation gv m)"
  by (cases m) (simp_all add: wf_intros)

lemma owns_offsets:
  "gv_wf gv \<Longrightarrow> owns gv p \<Longrightarrow> list_all (\<lambda>d. 0 \<le> iv (ivec_minus p (io gv)) d
                       \<and> iv (ivec_minus p (io gv)) d \<le> num_direction gv d * 2) (loop_dirs (gdim gv))"
  using gv_wf_num_nonneg[of gv R]
  by (cases "gdim gv") (auto simp: owns_def Let_def gv_defs)

lemma num_changed_eqI:
  assumes "gdim g = gdim g'" "a_res g = a_res g'" "inva g = inva g'" "num g = num g'"
    "io g = io g'" "origin g = origin g'"
  shows "num_changed g = num_changed g'"
  using assms by (cases g; cases g') (simp add: num_changed_def set_strides_def update_ntot_def fun_eq_iff)

lemma shift_origin_frame [simp]:
  "gdim (shift_origin gv d s) = gdim gv" "a_res (shift_origin gv d s) = a_res gv"
  "inva (shift_origin gv d s) = inva gv" "num (shift_origin gv d s) = num gv"
  "the_stride (shift_origin gv d s) = the_stride gv" "the_ntot (shift_origin gv d s) = the_ntot gv"
  by (simp_all add: shift_origin_def set_origin_d_def Let_def)

lemma set_origin_i_frame [simp]:
  "gdim (set_origin_i gv p) = gdim gv" "a_res (set_origin_i gv p) = a_res gv"
  "inva (set_origin_i gv p) = inva gv" "num (set_origin_i gv p) = num gv"
  "the_stride (set_origin_i gv p) = the_stride gv" "the_ntot (set_origin_i gv p) = the_ntot gv"
  by (simp_all add: set_origin_i_def)

lemma num_changed_frame [simp]:
  "gdim (num_changed gv) = gdim gv" "a_res (num_changed gv) = a_res gv"
  "inva (num_changed gv) = inva gv" "num (num_changed gv) = num gv"
  "io (num_changed gv) = io gv" "origin (num_changed gv) = origin gv"
  by (simp_all add: num_changed_def set_strides_def update_ntot_def)

lemma iyee_shift_range: "0 \<le> iv (iyee_shift gv c) d \<and> iv (iyee_shift gv c) d \<le> 1"
  by (simp add: iyee_shift_def)

lemma owned_digit:
  fixes x n s :: int
  assumes "0 \<le> x" and "x \<le> n * 2" and "0 \<le> s" and "s \<le> 1"
  shows "0 \<le> (x - s) sdiv 2 \<and> (x - s) sdiv 2 \<le> n"
proof (cases "x - s < 0")
  case True
  then have "x - s = -1" using assms by simp
  then show ?thesis using assms by (simp add: signed_divide_int_def)
next
  case False
  then have "(x - s) div 2 < n + 1" using assms zdiv_less_iff[of 2 "x - s" "n + 1"] by simp
  then show ?thesis using False assms by simp
qed


lemma digits_bound:
  assumes wf: "gv_wf gv"
    and q: "\<And>d. d \<in> set (loop_dirs (gdim gv)) \<Longrightarrow> 0 \<le> q d \<and> q d \<le> num_direction gv d"
  shows "0 \<le> sum_list (map (\<lambda>d. q d * stride_table (num gv) d) (loop_dirs (gdim gv)))
         \<and> sum_list (map (\<lambda>d. q d * stride_table (num gv) d) (loop_dirs (gdim gv))) < the_ntot gv"
proof -
  obtain n0 n1 n2 where n: "num gv = [n0, n1, n2]" using wf by (rule gv_wf_num)
  have nt: "the_ntot gv = prod_list (map (\<lambda>d. num gv ! num_index d + 1) (loop_dirs (gdim gv)))"
    using wf by (simp add: gv_wf_def)
  show ?thesis
  proof (cases "gdim gv")
    case D1
    then show ?thesis using q[of Z] n nt by (simp add: gv_defs)
  next
    case D2
    have "0 \<le> q Y * 1 + 0 \<and> q Y * 1 + 0 < (n1 + 1) * 1" using q[of Y] D2 n by (intro radix_bound) (simp_all add: gv_defs)
    then have "0 \<le> q X * (n1 + 1) + q Y \<and> q X * (n1 + 1) + q Y < (n0 + 1) * (n1 + 1)"
      using q[of X] D2 n by (intro radix_bound) (simp_all add: gv_defs)
    moreover have "n2 = 0" using wf D2 n by (simp add: gv_wf_def)
    ultimately show ?thesis using D2 n nt by (simp add: gv_defs algebra_simps)
  next
    case D3
    have "0 \<le> q Y * (n2 + 1) + q Z \<and> q Y * (n2 + 1) + q Z < (n1 + 1) * (n2 + 1)"
      using q[of Y] q[of Z] D3 n by (intro radix_bound) (simp_all add: gv_defs)
    then have "0 \<le> q X * ((n1 + 1) * (n2 + 1)) + (q Y * (n2 + 1) + q Z)
               \<and> q X * ((n1 + 1) * (n2 + 1)) + (q Y * (n2 + 1) + q Z) < (n0 + 1) * ((n1 + 1) * (n2 + 1))"
      using q[of X] D3 n by (intro radix_bound) (simp_all add: gv_defs)
    then show ?thesis using D3 n nt by (simp add: gv_defs algebra_simps)
  next
    case Dcyl
    have "0 \<le> q R * (n2 + 1) + q Z \<and> q R * (n2 + 1) + q Z < (n0 + 1) * (n2 + 1)"
      using q[of R] q[of Z] Dcyl n by (intro radix_bound) (simp_all add: gv_defs)
    then show ?thesis using Dcyl n nt by (simp add: gv_defs algebra_simps)
  qed
qed

section \<open>Properties\<close>

text \<open>
  C1 (round trip of the array layout).  For a well-formed descriptor, every array
  offset \<open>i\<close> with \<open>0 \<le> i < ntot()\<close> is mapped by \<open>iloc(c, i)\<close> to a lattice point
  (the \<open>while\<close> loop ends and no division by zero happens), and \<open>index(c, \<cdot>)\<close> maps
  that point back to \<open>i\<close>, for every component \<open>c\<close>.
\<close>

theorem index_iloc:
  assumes "gv_wf gv" and "0 \<le> i" and "i < the_ntot gv"
  shows "map_option (index gv c) (iloc gv c i) = Some i"
proof -
  have dim: "ivdim (io gv) = gdim gv" using assms(1) by (simp add: gv_wf_def)
  show ?thesis
    using assms
    by (simp add: iloc_wf index_of_digits[OF dim] sum_strides_wf digits_sum)
qed

theorem index_iloc_witness:
  "gv_wf (make_grid_volume D3 10 2 3 4) \<and> 0 \<le> (17::int)
   \<and> 17 < the_ntot (make_grid_volume D3 10 2 3 4)
   \<and> map_option (index (make_grid_volume D3 10 2 3 4) Ex) (iloc (make_grid_volume D3 10 2 3 4) Ex 17)
       = Some 17"
proof -
  have wf: "gv_wf (make_grid_volume D3 10 2 3 4)"
    by (rule make_grid_volume_wf) simp_all
  have nt: "the_ntot (make_grid_volume D3 10 2 3 4) = 60"
    by (simp add: make_grid_volume_def set_origin_v_def set_origin_i_def gv_defs)
  show ?thesis
    using index_iloc[OF wf, of 17 Ex] wf nt by simp
qed

text \<open>
  C2 (invariant of the descriptor).  Any sequence of the in-place mutators
  (\<open>set_origin\<close>, \<open>shift_origin\<close>, \<open>set_num_direction\<close> with a non-negative extent on
  an active axis, \<open>pad_self\<close> on an active axis) keeps a well-formed descriptor
  well-formed: the cached strides and \<open>ntot\<close> stay those of \<open>num\<close>, the continuous
  origin stays the image of \<open>io\<close>, and the unused extent slots stay zero.
\<close>

theorem mutations_preserve_wf:
  assumes "gv_wf gv" and "list_all (mutation_ok (gdim gv)) ms"
  shows "gv_wf (fold (\<lambda>m g. apply_mutation g m) ms gv)"
  using assms
proof (induction ms arbitrary: gv)
  case Nil
  then show ?case by simp
next
  case (Cons m ms)
  then have "gv_wf (apply_mutation gv m)" by (simp add: apply_mutation_wf)
  with Cons show ?case by simp
qed

theorem mutations_preserve_wf_witness:
  "gv_wf (make_grid_volume D2 10 4 5 0)
   \<and> list_all (mutation_ok D2) [PadSelf X, ShiftOrigin Y 2, SetNumDirection X 3]
   \<and> gv_wf (fold (\<lambda>m g. apply_mutation g m) [PadSelf X, ShiftOrigin Y 2, SetNumDirection X 3]
                   (make_grid_volume D2 10 4 5 0))"
proof -
  have wf: "gv_wf (make_grid_volume D2 10 4 5 0)"
    by (rule make_grid_volume_wf) simp_all
  have dm: "gdim (make_grid_volume D2 10 4 5 0) = D2"
    by (simp add: make_grid_volume_def set_origin_v_def set_origin_i_def gv_defs)
  have ok: "list_all (mutation_ok D2) [PadSelf X, ShiftOrigin Y 2, SetNumDirection X 3]"
    by simp
  show ?thesis
    using mutations_preserve_wf[OF wf, of "[PadSelf X, ShiftOrigin Y 2, SetNumDirection X 3]"] wf ok dm
    by simp
qed

text \<open>
  C3 (\<open>owns\<close> is stricter than \<open>contains\<close>).  A lattice point a descriptor owns is
  one it contains: ownership \<open>(0, 2n]\<close> per axis lies inside the stored range
  \<open>[0, 2n + 2)\<close>, the cylindrical axis points included.
\<close>

theorem owns_contains:
  assumes "gv_wf gv" and "owns gv p"
  shows "contains_i gv p"
proof -
  have "list_all (\<lambda>d. 0 \<le> iv (ivec_minus p (io gv)) d
                       \<and> iv (ivec_minus p (io gv)) d \<le> num_direction gv d * 2) (loop_dirs (gdim gv))"
    using assms by (rule owns_offsets)
  then show ?thesis
    by (auto simp: contains_i_def list_all_iff)
qed

theorem owns_contains_witness:
  "gv_wf (make_grid_volume D1 10 0 0 4) \<and> owns (make_grid_volume D1 10 0 0 4) (ivec1 8)
   \<and> contains_i (make_grid_volume D1 10 0 0 4) (ivec1 8)"
proof -
  have wf: "gv_wf (make_grid_volume D1 10 0 0 4)"
    by (rule make_grid_volume_wf) simp_all
  have o: "owns (make_grid_volume D1 10 0 0 4) (ivec1 8)"
    by (simp add: owns_def make_grid_volume_def set_origin_v_def set_origin_i_def round_vec_def
                  ivec1_def ivec_minus_def zero_vec_def gv_defs)
  show ?thesis using wf o owns_contains[OF wf o] by simp
qed

text \<open>
  C11 (owned points index into the arrays).  For a well-formed descriptor, the array
  offset \<open>index(c, p)\<close> of any point \<open>p\<close> it owns lies in \<open>[0, ntot())\<close>, for every
  component \<open>c\<close>; the cylinder axis points included, where the offset \<open>-1\<close> is
  truncated to 0 by C's division.  So the range test on indices in
  \<open>interpolate\<close> never fires on points that passed the \<open>owns\<close> filter.
\<close>

theorem owned_index_in_range:
  assumes wf: "gv_wf gv" and o: "owns gv p"
  shows "0 \<le> index gv c p \<and> index gv c p < the_ntot gv"
proof -
  let ?q = "\<lambda>d. iv (ivec_minus (ivec_minus p (io gv)) (iyee_shift gv c)) d sdiv 2"
  have q: "0 \<le> ?q d \<and> ?q d \<le> num_direction gv d" if "d \<in> set (loop_dirs (gdim gv))" for d
  proof -
    have x: "0 \<le> iv (ivec_minus p (io gv)) d \<and> iv (ivec_minus p (io gv)) d \<le> num_direction gv d * 2"
      using owns_offsets[OF wf o] that by (simp add: list_all_iff)
    have n: "0 \<le> num_direction gv d" using gv_wf_num_nonneg[OF wf, of d] that by (simp add: has_direction_def)
    show ?thesis
      using owned_digit[of "iv (ivec_minus p (io gv)) d" "num_direction gv d" "iv (iyee_shift gv c) d"]
        x n iyee_shift_range[of gv c d]
      by (auto simp: ivec_minus_def)
  qed
  have "index gv c p = sum_list (map (\<lambda>d. ?q d * stride_table (num gv) d) (loop_dirs (gdim gv)))"
    unfolding index_def Let_def by (rule sum_strides_wf[OF wf])
  then show ?thesis using digits_bound[OF wf q] by simp
qed

theorem owned_index_in_range_witness:
  "gv_wf (make_grid_volume D2 10 4 5 0) \<and> owns (make_grid_volume D2 10 4 5 0) (ivec2 3 4) \<and> 0 \<le> index (make_grid_volume D2 10 4 5 0) Ez (ivec2 3 4) \<and> index (make_grid_volume D2 10 4 5 0) Ez (ivec2 3 4) < the_ntot (make_grid_volume D2 10 4 5 0)"
proof -
  have wf: "gv_wf (make_grid_volume D2 10 4 5 0)" by (rule make_grid_volume_wf) simp_all
  have o: "owns (make_grid_volume D2 10 4 5 0) (ivec2 3 4)"
    by (simp add: owns_def make_grid_volume_def set_origin_v_def set_origin_i_def round_vec_def
                  ivec2_def ivec_minus_def zero_vec_def gv_defs)
  show ?thesis using wf o owned_index_in_range[OF wf o, of Ez] by simp
qed

text \<open>The nested loops over \<open>yucky_num(0..2)\<close> visit as many points as the active
  extents multiply to: the inactive loop has extent 1.\<close>

lemma yucky_num_prod:
  "yucky_num gv 0 * yucky_num gv 1 * yucky_num gv 2 = prod_list (map (num_direction gv) (loop_dirs (gdim gv)))"
  by (cases "gdim gv") (simp_all add: yucky_num_def yucky_dir_def dir_of_num_def)

end
