(* ===== verification/Split.thy ===== *)
theory Split
  imports GridVolume
begin

text \<open>
  The domain splitter of \<open>src/vec.cpp\<close>: \<open>split_at_fraction\<close> cuts a
  \<open>grid_volume\<close> in two along its longest axis, and \<open>split(n, which)\<close> bisects it
  recursively into \<open>n\<close> parts and returns part \<open>which\<close>.  The \<open>abort()\<close>s of the code
  are the values of \<open>split_error\<close>.  \<open>split\<close> is a \<open>partial_function (option)\<close>:
  on a degenerate request the C++ recursion need not end, and the model's \<open>None\<close> says
  so; the theorems prove that it ends for every request the code is meant for.
\<close>

datatype split_error =
    CannotSplit int int   \<comment> \<open>\<open>Cannot split %d grid points into %d parts\<close>\<close>
  | CrazySplit           \<comment> \<open>\<open>Crazy weird splitting error\<close>: no axis longer than 1\<close>
  | BadSplitFraction     \<comment> \<open>\<open>Aaack bad bug in split_at_fraction\<close>\<close>

section \<open>\<open>split_at_fraction\<close>\<close>

text \<open>
  The loop of \<open>split_at_fraction\<close> that picks the first axis of maximal extent above 1:
  \<open>(bestd, bestlen)\<close>, with \<open>bestd = -1\<close> when there is none.
\<close>

definition best_axis :: "int list \<Rightarrow> int \<times> int" where
  "best_axis n =
     fold (\<lambda>i (bd, bl). if n ! i > bl then (int i, n ! i) else (bd, bl)) [0, 1, 2] (-1, 1)"

definition split_at_fraction :: "grid_volume \<Rightarrow> bool \<Rightarrow> int \<Rightarrow> split_error + grid_volume" where
  "split_at_fraction gv want_high numer =
     (let bestd = fst (best_axis (num gv)) in
      if bestd = -1 then Inl CrazySplit
      else
        let retval = (make_grid_volume (gdim gv) (a_res gv) 1 1 1)\<lparr>num := num gv\<rparr> in
        if numer \<ge> num gv ! nat bestd then Inl BadSplitFraction
        else
          let d = dir_of_num bestd;
              d = (if gdim gv = Dcyl \<and> d = X then R else d);
              retval = set_origin_i retval (io gv);
              retval = (if want_high then shift_origin retval d (numer * 2) else retval);
              retval = retval\<lparr>num := (num retval)[nat bestd :=
                         (if want_high then num retval ! nat bestd - numer else numer)]\<rparr>
          in Inr (num_changed retval))"

text \<open>The direction \<open>split_at_fraction\<close> cuts along for the slot \<open>k\<close> of \<open>num\<close>.\<close>

definition split_dir :: "ndim \<Rightarrow> int \<Rightarrow> direction" where
  "split_dir dm k = (if dm = Dcyl \<and> dir_of_num k = X then R else dir_of_num k)"

section \<open>\<open>split\<close>\<close>

text \<open>The longest extent \<open>biglen\<close> of \<open>split\<close> (a loop from 0 over the three slots).\<close>

definition biglen :: "int list \<Rightarrow> int" where
  "biglen n = fold (\<lambda>i bl. if n ! i > bl then n ! i else bl) [0, 1, 2] 0"

text \<open>
  \<open>split_point = (int)(biglen*(n/2)/(double)n + 0.5)\<close> and
  \<open>num_low = (int)(split_point*n/(double)biglen + 0.5)\<close>.
\<close>

definition split_point :: "int \<Rightarrow> int \<Rightarrow> int" where
  "split_point bl n = c_trunc (of_int (bl * (n sdiv 2)) / of_int n + 1 / 2)"

definition num_low :: "int \<Rightarrow> int \<Rightarrow> int \<Rightarrow> int" where
  "num_low bl n sp = c_trunc (of_int (sp * n) / of_int bl + 1 / 2)"

partial_function (option) split ::
  "grid_volume \<Rightarrow> int \<Rightarrow> int \<Rightarrow> (split_error + grid_volume) option" where
  "split gv n which =
     (if n > nowned_min gv then Some (Inl (CannotSplit (nowned_min gv) n))
      else if n = 1 then Some (Inr gv)
      else
        let bl = biglen (num gv);
            sp = split_point bl n;
            nl = num_low bl n sp
        in if which < nl then
             (case split_at_fraction gv False sp of
                Inl e \<Rightarrow> Some (Inl e)
              | Inr g \<Rightarrow> split g nl which)
           else
             (case split_at_fraction gv True sp of
                Inl e \<Rightarrow> Some (Inl e)
              | Inr g \<Rightarrow> split g (n - nl) (which - nl)))"

declare split.simps [code]

text \<open>
  Product of the extents of the active axes other than slot \<open>k\<close>: the factor by
  which the owned count scales when slot \<open>k\<close> changes.
\<close>

definition other_extents :: "ndim \<Rightarrow> int list \<Rightarrow> nat \<Rightarrow> int" where
  "other_extents dm n k =
     prod_list (map (\<lambda>d. if num_index d = k then 1 else n ! num_index d) (loop_dirs dm))"

text \<open>
  The number of owned points of part \<open>which\<close> of \<open>split(n, which)\<close>, zero where
  the call aborts or does not return.
\<close>

definition split_owned :: "grid_volume \<Rightarrow> int \<Rightarrow> int \<Rightarrow> int" where
  "split_owned gv n which = (case split gv n which of Some (Inr p) \<Rightarrow> nowned_min p | _ \<Rightarrow> 0)"

text \<open>
  Ownership along one axis: the offset from \<open>io\<close> lies in \<open>(0, 2 n]\<close>, or, on the
  axis of a cylinder whose origin is at \<open>r = 0\<close>, it is 0.  \<open>owns\<close> is the
  conjunction over the active directions.
\<close>

definition owns_axis :: "grid_volume \<Rightarrow> ivec \<Rightarrow> direction \<Rightarrow> bool" where
  "owns_axis gv p d =
     (let off = iv (ivec_minus p (io gv)) d
      in (0 < off \<and> off \<le> num_direction gv d * 2) \<or> (gdim gv = Dcyl \<and> d = R \<and> vv (origin gv) R = 0 \<and> off = 0))"

section \<open>Lemmas on the splitter\<close>

lemma best_axis_eval:
  "best_axis [n0, n1, n2] =
     (let (bd, bl) = (if n0 > 1 then (0, n0) else (-1, 1));
          (bd, bl) = (if n1 > bl then (1, n1) else (bd, bl))
      in if n2 > bl then (2, n2) else (bd, bl))"
  by (simp add: best_axis_def split_def Let_def)

lemma biglen_eval: "biglen [n0, n1, n2] = max (max (max 0 n0) n1) n2"
  by (simp add: biglen_def max_def)

text \<open>When some extent exceeds 1, \<open>best_axis\<close> names a slot holding the largest extent.\<close>

lemma best_axis_some:
  assumes "1 < biglen [n0, n1, n2]"
  shows "\<exists>k<3. best_axis [n0, n1, n2] = (int k, [n0, n1, n2] ! k)
                \<and> [n0, n1, n2] ! k = biglen [n0, n1, n2]"
  using assms
  by (auto simp: best_axis_eval biglen_eval Let_def max_def split: if_splits
           intro: exI[of _ 0] exI[of _ 1] exI[of _ 2])

lemma best_axis_none:
  "biglen [n0, n1, n2] \<le> 1 \<Longrightarrow> fst (best_axis [n0, n1, n2]) = -1"
  by (auto simp: best_axis_eval biglen_eval Let_def max_def split: if_splits)

lemma split_at_fraction_low:
  assumes wf: "gv_wf gv" and ba: "best_axis (num gv) = (int k, bl)" and lt: "numer < bl"
    and bl: "num gv ! k = bl"
  shows "split_at_fraction gv False numer = Inr (num_changed (gv\<lparr>num := (num gv)[k := numer]\<rparr>))"
proof -
  let ?r = "(make_grid_volume (gdim gv) (a_res gv) 1 1 1)\<lparr>num := num gv\<rparr>"
  have "split_at_fraction gv False numer =
          Inr (num_changed ((set_origin_i ?r (io gv))\<lparr>num := (num gv)[k := numer]\<rparr>))"
    using ba lt bl by (simp add: split_at_fraction_def Let_def set_origin_i_def)
  also have "num_changed ((set_origin_i ?r (io gv))\<lparr>num := (num gv)[k := numer]\<rparr>)
           = num_changed (gv\<lparr>num := (num gv)[k := numer]\<rparr>)"
    using wf by (intro num_changed_eqI)
      (simp_all add: set_origin_i_def make_grid_volume_def set_origin_v_def gv_wf_def lattice_vec_def
                     num_changed_def set_strides_def update_ntot_def mult.commute)
  finally show ?thesis .
qed

lemma split_at_fraction_high:
  assumes wf: "gv_wf gv" and ba: "best_axis (num gv) = (int k, bl)" and lt: "numer < bl"
    and bl: "num gv ! k = bl"
  shows "split_at_fraction gv True numer =
    Inr (num_changed ((shift_origin gv (split_dir (gdim gv) (int k)) (numer * 2))
                        \<lparr>num := (num gv)[k := bl - numer]\<rparr>))"
proof -
  let ?r = "(make_grid_volume (gdim gv) (a_res gv) 1 1 1)\<lparr>num := num gv\<rparr>"
  have "split_at_fraction gv True numer =
          Inr (num_changed ((shift_origin (set_origin_i ?r (io gv)) (split_dir (gdim gv) (int k)) (numer * 2))
                              \<lparr>num := (num gv)[k := bl - numer]\<rparr>))"
    using ba lt bl by (simp add: split_at_fraction_def Let_def split_dir_def)
  also have "\<dots> = Inr (num_changed ((shift_origin gv (split_dir (gdim gv) (int k)) (numer * 2))
                        \<lparr>num := (num gv)[k := bl - numer]\<rparr>))"
    using wf by (intro arg_cong[where f = Inr] num_changed_eqI)
      (simp_all add: set_origin_i_def make_grid_volume_def set_origin_v_def gv_wf_def lattice_vec_def
                     num_changed_def set_strides_def update_ntot_def shift_origin_def set_origin_d_def Let_def mult.commute)
  finally show ?thesis .
qed

lemma split_point_int:
  assumes "0 < n" and "0 \<le> bl"
  shows "split_point bl n = (2 * (bl * (n div 2)) + n) div (2 * n)"
proof -
  have eq: "n sdiv 2 = n div 2" using assms by simp
  have "c_trunc (of_int (bl * (n div 2)) / of_int n + 1 / 2) = (2 * (bl * (n div 2)) + n) div (2 * n)"
    by (rule c_trunc_round_div) (use assms in simp_all)
  then show ?thesis by (simp only: split_point_def eq)
qed

lemma num_low_int:
  assumes "0 < bl" and "0 \<le> sp" and "0 < n"
  shows "num_low bl n sp = (2 * (sp * n) + bl) div (2 * bl)"
proof -
  have "c_trunc (of_int (sp * n) / of_int bl + 1 / 2) = (2 * (sp * n) + bl) div (2 * bl)"
    by (rule c_trunc_round_div) (use assms in simp_all)
  then show ?thesis by (simp only: num_low_def)
qed

lemma split_point_bounds:
  fixes bl n :: int
  assumes bl: "2 \<le> bl" and n: "2 \<le> n"
  shows "1 \<le> split_point bl n \<and> split_point bl n < bl"
proof -
  let ?h = "n div 2"
  have h: "1 \<le> ?h" "2 * ?h \<le> n" "n \<le> 2 * ?h + 1" using n by linarith+
  have sp: "split_point bl n = (2 * (bl * ?h) + n) div (2 * n)"
    using n bl by (simp add: split_point_int)
  have "2 * ?h \<le> bl * ?h" using bl h(1) by (simp add: mult_right_mono)
  then have lo: "1 * (2 * n) \<le> 2 * (bl * ?h) + n" using h by linarith
  have "bl * (2 * ?h) \<le> bl * n" using bl h(2) by (simp add: mult_left_mono)
  moreover have "n < bl * n" using bl n by simp
  ultimately have hi: "2 * (bl * ?h) + n < bl * (2 * n)" by (simp add: algebra_simps)
  show ?thesis
    using lo hi n by (simp add: sp le_zdiv_iff zdiv_less_iff)
qed

lemma num_low_bounds:
  fixes bl n P :: int
  assumes bl: "2 \<le> bl" and n: "2 \<le> n" and nP: "n \<le> bl * P"
  defines "sp \<equiv> split_point bl n"
  defines "nl \<equiv> num_low bl n sp"
  shows "1 \<le> nl \<and> nl < n \<and> nl \<le> sp * P \<and> n - nl \<le> (bl - sp) * P"
proof -
  let ?h = "n div 2"
  have h: "1 \<le> ?h" "2 * ?h \<le> n" "n \<le> 2 * ?h + 1" using n by linarith+
  have spb: "1 \<le> sp" "sp < bl" using split_point_bounds[OF bl n] by (simp_all add: sp_def)
  have spd: "sp = (2 * (bl * ?h) + n) div (2 * n)"
    using n bl by (simp add: sp_def split_point_int)
  have sp_lo: "sp * (2 * n) \<le> 2 * (bl * ?h) + n"
    using n by (simp add: spd[symmetric] le_zdiv_iff[symmetric])
  have sp_hi: "2 * (bl * ?h) + n < (sp + 1) * (2 * n)"
    using n by (simp add: spd[symmetric] zdiv_less_iff[symmetric])
  have nld: "nl = (2 * (sp * n) + bl) div (2 * bl)"
    using n bl spb by (simp add: nl_def num_low_int)
  have bl2: "0 < 2 * bl" using bl by simp
  \<comment> \<open>at least one part on the low side\<close>
  have "2 * (2 * ?h - 1) \<le> bl * (2 * ?h - 1)" using bl h(1) by (intro mult_right_mono) simp_all
  then have "bl - 1 < sp * (2 * n)" using sp_hi h by (simp add: algebra_simps)
  then have "1 * (2 * bl) \<le> 2 * (sp * n) + bl" by (simp add: algebra_simps)
  then have c1: "1 \<le> nl" using bl2 by (simp add: nld le_zdiv_iff)
  \<comment> \<open>at least one part on the high side\<close>
  have "2 * (sp * n) + bl < n * (2 * bl)"
  proof (cases "bl < 2 * n")
    case True
    have "sp * n \<le> (bl - 1) * n" using spb n by (intro mult_right_mono) simp_all
    with True show ?thesis by (simp add: algebra_simps)
  next
    case False
    have a: "bl * (2 * ?h) \<le> bl * n" using bl h(2) by (intro mult_left_mono) simp_all
    have b: "2 * bl \<le> n * bl" using n bl by (intro mult_right_mono) simp_all
    have eqs: "sp * (2 * n) = 2 * (sp * n)" "bl * (2 * ?h) = 2 * (bl * ?h)"
      "n * (2 * bl) = 2 * (n * bl)" "bl * n = n * bl" by (simp_all add: ac_simps)
    show ?thesis using sp_lo a b False n eqs by linarith
  qed
  then have c2: "nl < n" using bl2 by (simp add: nld zdiv_less_iff)
  \<comment> \<open>the low part has enough owned points\<close>
  have "sp * n \<le> sp * (bl * P)" using spb nP by (intro mult_left_mono) simp_all
  then have "2 * (sp * n) + bl < (sp * P + 1) * (2 * bl)" using bl by (simp add: algebra_simps)
  then have c3: "nl \<le> sp * P" using bl2 by (simp add: nld zdiv_less_iff[symmetric] not_less[symmetric])
  \<comment> \<open>the high part has enough owned points\<close>
  have "(bl - sp) * n \<le> (bl - sp) * (bl * P)" using spb nP by (intro mult_left_mono) simp_all
  then have "(n - (bl - sp) * P) * (2 * bl) \<le> 2 * (sp * n) + bl" using bl by (simp add: algebra_simps)
  then have "n - (bl - sp) * P \<le> nl" using bl2 by (simp add: nld le_zdiv_iff)
  then have c4: "n - nl \<le> (bl - sp) * P" by simp
  from c1 c2 c3 c4 show ?thesis by simp
qed

lemma slot_cases: "(k::nat) < 3 \<Longrightarrow> k = 0 \<or> k = 1 \<or> k = 2"
  by auto

lemma nowned_min_slot:
  assumes "length n = 3" and "k < 3" and "k \<notin> set (unused_slots dm)"
  shows "prod_list (map (\<lambda>d. n[k := v] ! num_index d) (loop_dirs dm)) = v * other_extents dm n k"
proof -
  obtain n0 n1 n2 where n: "n = [n0, n1, n2]"
    using assms(1) by (auto simp: length_Suc_conv numeral_3_eq_3)
  show ?thesis
    using slot_cases[OF assms(2)] assms(3) n
    by (cases dm) (auto simp: other_extents_def)
qed

lemma used_slot_dir:
  "k < 3 \<Longrightarrow> k \<notin> set (unused_slots dm) \<Longrightarrow> \<exists>d. has_direction dm d \<and> num_index d = k"
  using slot_cases[of k]
  by (cases dm) (auto intro: exI[of _ X] exI[of _ Y] exI[of _ Z] exI[of _ R])

lemma nowned_min_num:
  "nowned_min gv = prod_list (map (\<lambda>d. num gv ! num_index d) (loop_dirs (gdim gv)))"
  unfolding nowned_min_def
  by (rule arg_cong[where f = prod_list], rule map_cong) (simp_all add: num_direction_def)

lemma nowned_min_num_changed [simp]: "nowned_min (num_changed gv) = nowned_min gv"
  by (simp add: nowned_min_num num_changed_def set_strides_def update_ntot_def)

lemma other_extents_nonneg:
  assumes "gv_wf gv"
  shows "0 \<le> other_extents (gdim gv) (num gv) k"
  unfolding other_extents_def using gv_wf_num_nonneg[OF assms]
  by (intro prod_list_nonneg) (auto simp: num_direction_def has_direction_def)

lemma biglen_small_nowned:
  assumes "gv_wf gv" and "biglen (num gv) \<le> 1"
  shows "nowned_min gv \<le> 1"
proof -
  obtain n0 n1 n2 where n: "num gv = [n0, n1, n2]" using assms(1) by (rule gv_wf_num)
  have nn: "0 \<le> num_direction gv d" if "has_direction (gdim gv) d" for d
    using assms(1) that by (rule gv_wf_num_nonneg)
  have le: "n0 \<le> 1" "n1 \<le> 1" "n2 \<le> 1" using assms(2) n by (simp_all add: biglen_eval)
  show ?thesis
  proof (cases "gdim gv")
    case D1 then show ?thesis using le n by (simp add: nowned_min_num)
  next
    case D2
    then have "0 \<le> n0" "0 \<le> n1" using nn[of X] nn[of Y] n by (simp_all add: num_direction_def)
    with D2 le n show ?thesis by (simp add: nowned_min_num mult_le_one)
  next
    case D3
    then have "0 \<le> n0" "0 \<le> n1" "0 \<le> n2" using nn[of X] nn[of Y] nn[of Z] n
      by (simp_all add: num_direction_def)
    with D3 le n show ?thesis by (simp add: nowned_min_num mult_le_one)
  next
    case Dcyl
    then have "0 \<le> n0" "0 \<le> n2" using nn[of R] nn[of Z] n by (simp_all add: num_direction_def)
    with Dcyl le n show ?thesis by (simp add: nowned_min_num mult_le_one)
  qed
qed

lemma nowned_min_update:
  assumes "length (num gv) = 3" and "k < 3" and "k \<notin> set (unused_slots (gdim gv))"
    and "gdim g = gdim gv"
  shows "nowned_min (num_changed (g\<lparr>num := (num gv)[k := v]\<rparr>)) = v * other_extents (gdim gv) (num gv) k"
  using nowned_min_slot[OF assms(1-3)] assms(4) by (simp add: nowned_min_num)

text \<open>One step of \<open>split\<close>: both halves exist, are well-formed, can take their share of the parts, and own together what the whole owned.\<close>

lemma split_step:
  assumes wf: "gv_wf gv" and n: "2 \<le> n" and le: "n \<le> nowned_min gv"
  defines "bl \<equiv> biglen (num gv)"
  defines "sp \<equiv> split_point bl n"
  defines "nl \<equiv> num_low bl n sp"
  obtains lo hi where
    "split_at_fraction gv False sp = Inr lo" and "split_at_fraction gv True sp = Inr hi"
    and "gv_wf lo" and "gv_wf hi" and "1 \<le> nl" and "nl < n"
    and "nl \<le> nowned_min lo" and "n - nl \<le> nowned_min hi"
    and "nowned_min lo + nowned_min hi = nowned_min gv"
proof -
  obtain n0 n1 n2 where nn: "num gv = [n0, n1, n2]" using wf by (rule gv_wf_num)
  have bl2: "2 \<le> bl"
  proof (rule ccontr)
    assume "\<not> 2 \<le> bl"
    then have "biglen (num gv) \<le> 1" unfolding bl_def by simp
    with wf have "nowned_min gv \<le> 1" by (rule biglen_small_nowned)
    with n le show False by simp
  qed
  obtain k where k: "k < 3" and ba: "best_axis (num gv) = (int k, num gv ! k)"
    and kbl: "num gv ! k = bl"
    using best_axis_some[of n0 n1 n2] bl2 nn by (auto simp: bl_def)
  have used: "k \<notin> set (unused_slots (gdim gv))"
  proof
    assume "k \<in> set (unused_slots (gdim gv))"
    then have "num gv ! k = 0" using wf by (simp add: gv_wf_def list_all_iff)
    with kbl bl2 show False by simp
  qed
  obtain d where d: "has_direction (gdim gv) d" "num_index d = k"
    using used_slot_dir[OF k used] by blast
  have len: "length (num gv) = 3" using nn by simp
  let ?P = "other_extents (gdim gv) (num gv) k"
  have tot: "nowned_min gv = bl * ?P"
  proof -
    have eq: "(num gv)[k := bl] = num gv" using kbl by auto
    have "nowned_min (num_changed (gv\<lparr>num := (num gv)[k := bl]\<rparr>)) = bl * ?P"
      using nowned_min_update[OF len k used] by simp
    then show ?thesis by (simp only: eq nowned_min_num_changed) simp
  qed
  have bounds: "1 \<le> nl \<and> nl < n \<and> nl \<le> sp * ?P \<and> n - nl \<le> (bl - sp) * ?P"
    using num_low_bounds[OF bl2 n, of ?P] le tot by (simp add: sp_def nl_def)
  have spb: "1 \<le> sp" "sp < bl" using split_point_bounds[OF bl2 n] by (simp_all add: sp_def)
  let ?lo = "num_changed (gv\<lparr>num := (num gv)[k := sp]\<rparr>)"
  let ?sh = "shift_origin gv (split_dir (gdim gv) (int k)) (sp * 2)"
  let ?hi = "num_changed (?sh\<lparr>num := (num gv)[k := bl - sp]\<rparr>)"
  have lo: "split_at_fraction gv False sp = Inr ?lo"
    using split_at_fraction_low[OF wf ba] spb kbl by simp
  have hi: "split_at_fraction gv True sp = Inr ?hi"
    using split_at_fraction_high[OF wf ba] spb kbl by simp
  have wflo: "gv_wf ?lo" using num_update_wf[OF wf d(1)] spb d(2) by simp
  have wfsh: "gv_wf ?sh" using wf by (rule shift_origin_wf)
  have wfhi: "gv_wf ?hi" using num_update_wf[OF wfsh, of d "bl - sp"] spb d by simp
  have nlo: "nowned_min ?lo = sp * ?P" using nowned_min_update[OF len k used] by simp
  have nhi: "nowned_min ?hi = (bl - sp) * ?P" using nowned_min_update[OF len k used] by simp
  have sum: "nowned_min ?lo + nowned_min ?hi = nowned_min gv"
    using nlo nhi tot by (simp add: algebra_simps)
  show ?thesis
    using that[OF lo hi wflo wfhi] bounds nlo nhi sum by simp
qed

lemma split_one: "1 \<le> nowned_min gv \<Longrightarrow> split gv 1 which = Some (Inr gv)"
  by (subst split.simps) simp

lemma split_unfold:
  assumes "2 \<le> n" and "n \<le> nowned_min gv"
    and "split_at_fraction gv False (split_point (biglen (num gv)) n) = Inr lo"
    and "split_at_fraction gv True (split_point (biglen (num gv)) n) = Inr hi"
  defines "nl \<equiv> num_low (biglen (num gv)) n (split_point (biglen (num gv)) n)"
  shows "split gv n which = (if which < nl then split lo nl which else split hi (n - nl) (which - nl))"
  using assms by (subst split.simps) (simp add: Let_def)

lemma owns_list_all: "owns gv p \<longleftrightarrow> list_all (owns_axis gv p) (loop_dirs (gdim gv))"
  by (cases "gdim gv") (auto simp: owns_def owns_axis_def Let_def nx_def ny_def nz_def nr_def num_direction_def)

lemma list_all_split:
  assumes "dd \<in> set ds"
    and "\<And>d. d \<in> set ds \<Longrightarrow> d \<noteq> dd \<Longrightarrow> Q1 d = Q d \<and> Q2 d = Q d"
    and "Q dd \<longleftrightarrow> Q1 dd \<or> Q2 dd" and "\<not> (Q1 dd \<and> Q2 dd)"
  shows "(list_all Q ds \<longleftrightarrow> list_all Q1 ds \<or> list_all Q2 ds) \<and> \<not> (list_all Q1 ds \<and> list_all Q2 ds)"
  using assms unfolding list_all_iff by metis

lemma split_dir_used:
  assumes "k < 3" and "k \<notin> set (unused_slots dm)"
  shows "split_dir dm (int k) \<in> set (loop_dirs dm) \<and> num_index (split_dir dm (int k)) = k"
  using assms by (cases dm; cases k rule: slot_cases[elim_format]) (auto simp: split_dir_def dir_of_num_def)


lemma split_at_fraction_axis:
  assumes wf: "gv_wf gv" and r: "split_at_fraction gv w sp = Inr r"
  obtains k bl where "k < 3" and "k \<notin> set (unused_slots (gdim gv))"
    and "best_axis (num gv) = (int k, bl)" and "num gv ! k = bl" and "sp < bl"
proof -
  obtain n0 n1 n2 where nn: "num gv = [n0, n1, n2]" using wf by (rule gv_wf_num)
  have big: "1 < biglen (num gv)"
  proof (rule ccontr)
    assume "\<not> 1 < biglen (num gv)"
    then have "fst (best_axis (num gv)) = -1" using best_axis_none[of n0 n1 n2] nn by simp
    with r show False by (simp add: split_at_fraction_def)
  qed
  obtain k where k: "k < 3" and ba: "best_axis (num gv) = (int k, num gv ! k)"
    and kbl: "num gv ! k = biglen (num gv)"
    using best_axis_some[of n0 n1 n2] big nn by auto
  have sp: "sp < num gv ! k"
    using r ba by (auto simp: split_at_fraction_def Let_def split: if_splits)
  have used: "k \<notin> set (unused_slots (gdim gv))"
  proof
    assume "k \<in> set (unused_slots (gdim gv))"
    then have "num gv ! k = 0" using wf by (simp add: gv_wf_def list_all_iff)
    with kbl big show False by simp
  qed
  show ?thesis using that k used ba sp by blast
qed

lemma owns_axis_lo:
  assumes "k < 3" and "has_direction (gdim gv) d"
  shows "owns_axis (num_changed (gv\<lparr>num := (num gv)[k := v]\<rparr>)) p d
         = (let off = iv (ivec_minus p (io gv)) d
            in (0 < off \<and> off \<le> (num gv)[k := v] ! num_index d * 2)
               \<or> (gdim gv = Dcyl \<and> d = R \<and> vv (origin gv) R = 0 \<and> off = 0))"
  by (simp add: owns_axis_def num_direction_def)


lemma origin_R_wf:
  "gv_wf gv \<Longrightarrow> gdim gv = Dcyl \<Longrightarrow> vv (origin gv) R = of_int (iv (io gv) R) * (inva gv / 2)"
  by (simp add: gv_wf_def lattice_vec_def ivec_to_vec_def)

lemma io_shift_origin [simp]:
  "iv (io (shift_origin gv dd s)) d = iv (io gv) d + (if d = dd then s else 0)"
  "ivdim (io (shift_origin gv dd s)) = ivdim (io gv)"
  by (simp_all add: shift_origin_def set_origin_d_def ivec_set_def Let_def)

lemma origin_shift_R:
  assumes "gv_wf gv" and "gdim gv = Dcyl"
  shows "vv (origin (shift_origin gv dd s)) R = vv (origin gv) R + (if dd = R then of_int s * (inva gv / 2) else 0)"
proof -
  have "ivdim (io gv) = Dcyl" using assms by (simp add: gv_wf_def)
  then show ?thesis
    using origin_R_wf[OF assms]
    by (simp add: shift_origin_def set_origin_d_def Let_def lattice_vec_def ivec_to_vec_def ivec_set_def
                  algebra_simps)
qed

lemma owns_axis_hi:
  assumes wf: "gv_wf gv" and "has_direction (gdim gv) d"
  shows "owns_axis (num_changed ((shift_origin gv dd s)\<lparr>num := (num gv)[k := v]\<rparr>)) p d
         = (let off = iv (ivec_minus p (io gv)) d - (if d = dd \<and> has_direction (ivdim p) d then s else 0)
            in (0 < off \<and> off \<le> (num gv)[k := v] ! num_index d * 2)
               \<or> (gdim gv = Dcyl \<and> d = R
                  \<and> vv (origin gv) R + (if dd = R then of_int s * (inva gv / 2) else 0) = 0 \<and> off = 0))"
  using assms origin_shift_R[OF wf]
  by (auto simp: owns_axis_def num_direction_def Let_def ivec_minus_def)

section \<open>Properties\<close>

text \<open>
  C4 (termination and success of \<open>split\<close>).  On a well-formed descriptor, a request
  for \<open>n\<close> parts with \<open>1 \<le> n \<le> nowned_min()\<close> returns for every \<open>which\<close>: the
  recursion ends, no \<open>abort()\<close> is reached, and the part is a well-formed descriptor.
\<close>

theorem split_returns:
  assumes "gv_wf gv" and "1 \<le> n" and "n \<le> nowned_min gv"
  shows "\<exists>p. split gv n which = Some (Inr p) \<and> gv_wf p"
  using assms
proof (induction "nat n" arbitrary: gv n which rule: less_induct)
  case less
  show ?case
  proof (cases "n = 1")
    case True
    with less.prems show ?thesis by (simp add: split_one)
  next
    case False
    then have n2: "2 \<le> n" using less.prems by simp
    obtain lo hi where lo: "split_at_fraction gv False (split_point (biglen (num gv)) n) = Inr lo"
      and hi: "split_at_fraction gv True (split_point (biglen (num gv)) n) = Inr hi"
      and wf: "gv_wf lo" "gv_wf hi"
      and b: "1 \<le> num_low (biglen (num gv)) n (split_point (biglen (num gv)) n)"
             "num_low (biglen (num gv)) n (split_point (biglen (num gv)) n) < n"
             "num_low (biglen (num gv)) n (split_point (biglen (num gv)) n) \<le> nowned_min lo"
             "n - num_low (biglen (num gv)) n (split_point (biglen (num gv)) n) \<le> nowned_min hi"
      using split_step[OF less.prems(1) n2 less.prems(3)] by blast
    show ?thesis
      using less.hyps[OF _ wf(1)] less.hyps[OF _ wf(2)] b
      by (simp add: split_unfold[OF n2 less.prems(3) lo hi])
  qed
qed

theorem split_returns_witness:
  "gv_wf (make_grid_volume D2 10 4 5 0) \<and> 1 \<le> (3::int) \<and> 3 \<le> nowned_min (make_grid_volume D2 10 4 5 0)
   \<and> (\<exists>p. split (make_grid_volume D2 10 4 5 0) 3 1 = Some (Inr p) \<and> gv_wf p)"
proof -
  have wf: "gv_wf (make_grid_volume D2 10 4 5 0)"
    by (rule make_grid_volume_wf) simp_all
  have nm: "nowned_min (make_grid_volume D2 10 4 5 0) = 20"
    by (simp add: nowned_min_num make_grid_volume_def set_origin_v_def set_origin_i_def gv_defs)
  show ?thesis
    using split_returns[OF wf, of 3 1] wf nm by simp
qed

text \<open>
  C5 (conservation of \<open>split\<close>).  The parts \<open>split(n, 0)\<close>, ..., \<open>split(n, n-1)\<close>
  together own exactly the points the descriptor owns: the owned counts add up to
  \<open>nowned_min()\<close> of the whole.
\<close>

theorem split_conserves:
  assumes "gv_wf gv" and "1 \<le> n" and "n \<le> nowned_min gv"
  shows "(\<Sum>w\<in>{0..<n}. split_owned gv n w) = nowned_min gv"
  using assms
proof (induction "nat n" arbitrary: gv n rule: less_induct)
  case less
  show ?case
  proof (cases "n = 1")
    case True
    with less.prems show ?thesis by (simp add: split_owned_def split_one)
  next
    case False
    then have n2: "2 \<le> n" using less.prems by simp
    define nl where "nl = num_low (biglen (num gv)) n (split_point (biglen (num gv)) n)"
    obtain lo hi where lo: "split_at_fraction gv False (split_point (biglen (num gv)) n) = Inr lo"
      and hi: "split_at_fraction gv True (split_point (biglen (num gv)) n) = Inr hi"
      and wf: "gv_wf lo" "gv_wf hi"
      and b: "1 \<le> nl" "nl < n" "nl \<le> nowned_min lo" "n - nl \<le> nowned_min hi"
      and tot: "nowned_min lo + nowned_min hi = nowned_min gv"
      using split_step[OF less.prems(1) n2 less.prems(3)] unfolding nl_def by blast
    have unf: "split gv n w = (if w < nl then split lo nl w else split hi (n - nl) (w - nl))" for w
      using split_unfold[OF n2 less.prems(3) lo hi] by (simp add: nl_def)
    have "(\<Sum>w\<in>{0..<n}. split_owned gv n w)
          = (\<Sum>w\<in>{0..<nl}. split_owned gv n w) + (\<Sum>w\<in>{nl..<n}. split_owned gv n w)"
      using b by (intro sum_int_concat) simp_all
    also have "(\<Sum>w\<in>{0..<nl}. split_owned gv n w) = (\<Sum>w\<in>{0..<nl}. split_owned lo nl w)"
      by (intro sum.cong) (simp_all add: split_owned_def unf)
    also have "\<dots> = nowned_min lo"
      using less.hyps[OF _ wf(1)] b by simp
    also have "(\<Sum>w\<in>{nl..<n}. split_owned gv n w) = (\<Sum>w\<in>{0..<n - nl}. split_owned gv n (w + nl))"
      by (rule sum_int_shift)
    also have "\<dots> = (\<Sum>w\<in>{0..<n - nl}. split_owned hi (n - nl) w)"
      by (intro sum.cong) (simp_all add: split_owned_def unf)
    also have "\<dots> = nowned_min hi"
      using less.hyps[OF _ wf(2)] b by simp
    finally show ?thesis using tot by simp
  qed
qed


theorem split_conserves_witness:
  "gv_wf (make_grid_volume D2 10 4 5 0) \<and> 1 \<le> (3::int) \<and> 3 \<le> nowned_min (make_grid_volume D2 10 4 5 0)
   \<and> (\<Sum>w\<in>{0..<3}. split_owned (make_grid_volume D2 10 4 5 0) 3 w) = 20"
proof -
  have wf: "gv_wf (make_grid_volume D2 10 4 5 0)"
    by (rule make_grid_volume_wf) simp_all
  have nm: "nowned_min (make_grid_volume D2 10 4 5 0) = 20"
    by (simp add: nowned_min_num make_grid_volume_def set_origin_v_def set_origin_i_def gv_defs)
  show ?thesis
    using split_conserves[OF wf, of 3] wf nm by simp
qed

text \<open>
  C10 (the halves of a cut partition ownership).  When \<open>split_at_fraction\<close> cuts a
  well-formed descriptor at \<open>0 < numer\<close> (both calls return), every lattice point the
  descriptor owns is owned by exactly one half, and a point owned by a half is owned by
  the descriptor: abutting descriptors share their boundary plane but not its
  ownership.  A cylinder is assumed not to reach below \<open>r = 0\<close>.
\<close>

theorem split_at_fraction_owns_partition:
  assumes wf: "gv_wf gv" and sp: "0 < sp" and cyl: "gdim gv = Dcyl \<longrightarrow> 0 \<le> iv (io gv) R"
    and lo: "split_at_fraction gv False sp = Inr lo" and hi: "split_at_fraction gv True sp = Inr hi"
  shows "(owns gv p \<longleftrightarrow> owns lo p \<or> owns hi p) \<and> \<not> (owns lo p \<and> owns hi p)"
proof -
  obtain k bl where k: "k < 3" "k \<notin> set (unused_slots (gdim gv))"
    and ba: "best_axis (num gv) = (int k, bl)" and kbl: "num gv ! k = bl" and lt: "sp < bl"
    using wf lo by (rule split_at_fraction_axis)
  define dd where "dd = split_dir (gdim gv) (int k)"
  have dd: "dd \<in> set (loop_dirs (gdim gv))" "num_index dd = k"
    using split_dir_used[OF k] by (simp_all add: dd_def)
  have lo_eq: "lo = num_changed (gv\<lparr>num := (num gv)[k := sp]\<rparr>)"
    using split_at_fraction_low[OF wf ba lt kbl] lo by simp
  have hi_eq: "hi = num_changed ((shift_origin gv dd (sp * 2))\<lparr>num := (num gv)[k := bl - sp]\<rparr>)"
    using split_at_fraction_high[OF wf ba lt kbl] hi by (simp add: dd_def)
  have len: "length (num gv) = 3" using wf by (simp add: gv_wf_def)
  have inva: "0 < inva gv" using wf by (simp add: gv_wf_def)
  have other: "owns_axis lo p d = owns_axis gv p d \<and> owns_axis hi p d = owns_axis gv p d"
    if "d \<in> set (loop_dirs (gdim gv))" "d \<noteq> dd" for d
  proof -
    have hd: "has_direction (gdim gv) d" using that by (simp add: has_direction_def)
    have "num_index d \<noteq> k"
      using num_index_inj[OF hd, of dd] dd that by (auto simp: has_direction_def)
    then have nth: "(num gv)[k := sp] ! num_index d = num gv ! num_index d"
                   "(num gv)[k := bl - sp] ! num_index d = num gv ! num_index d" by simp_all
    have l: "owns_axis lo p d = owns_axis gv p d"
      unfolding lo_eq owns_axis_lo[OF k(1) hd] nth by (simp add: owns_axis_def num_direction_def)
    have h: "owns_axis hi p d = owns_axis gv p d"
      unfolding hi_eq owns_axis_hi[OF wf hd, where dd = dd and s = "sp * 2" and k = k and v = "bl - sp" and p = p] nth
      using that(2) by (auto simp: owns_axis_def num_direction_def Let_def)
    show ?thesis using l h by simp
  qed
  have hdd: "has_direction (gdim gv) dd" using dd by (simp add: has_direction_def)
  have cut: "(owns_axis gv p dd \<longleftrightarrow> owns_axis lo p dd \<or> owns_axis hi p dd)
             \<and> \<not> (owns_axis lo p dd \<and> owns_axis hi p dd)"
  proof -
    have pos: "gdim gv = Dcyl \<Longrightarrow> 0 < vv (origin gv) R + of_int (sp * 2) * (inva gv / 2)"
    proof -
      assume c: "gdim gv = Dcyl"
      have "0 \<le> of_int (iv (io gv) R) * (inva gv / 2)" using cyl c inva by simp
      then have "0 \<le> vv (origin gv) R" using origin_R_wf[OF wf c] by simp
      moreover have "0 < of_int (sp * 2) * (inva gv / 2)" using sp inva by simp
      ultimately show ?thesis by linarith
    qed
    define off where "off = iv (ivec_minus p (io gv)) dd"
    define C where "C = (gdim gv = Dcyl \<and> dd = R \<and> vv (origin gv) R = 0 \<and> off = 0)"
    have n: "(num gv)[k := sp] ! num_index dd = sp" "(num gv)[k := bl - sp] ! num_index dd = bl - sp"
            "num gv ! num_index dd = bl"
      using len k(1) dd(2) kbl by simp_all
    have g: "owns_axis gv p dd = ((0 < off \<and> off \<le> bl * 2) \<or> C)"
      using n(3) by (simp add: owns_axis_def num_direction_def off_def Let_def C_def)
    have l: "owns_axis lo p dd = ((0 < off \<and> off \<le> sp * 2) \<or> C)"
      unfolding lo_eq owns_axis_lo[OF k(1) hdd] n by (simp add: off_def Let_def C_def)
    have h: "owns_axis hi p dd = (let off2 = off - (if has_direction (ivdim p) dd then sp * 2 else 0)
                                  in 0 < off2 \<and> off2 \<le> (bl - sp) * 2)"
      unfolding hi_eq owns_axis_hi[OF wf hdd, where dd = dd and s = "sp * 2" and k = k and v = "bl - sp" and p = p] n
      using pos by (auto simp: off_def Let_def Let_def)
    have z: "\<not> has_direction (ivdim p) dd \<Longrightarrow> off = 0"
      by (simp add: off_def Let_def ivec_minus_def)
    show ?thesis
      unfolding g l h using sp lt z by (cases "has_direction (ivdim p) dd") (auto simp: C_def Let_def)
  qed
  have dims: "gdim lo = gdim gv" "gdim hi = gdim gv" unfolding lo_eq hi_eq by simp_all
  have "(list_all (owns_axis gv p) (loop_dirs (gdim gv))
          \<longleftrightarrow> list_all (owns_axis lo p) (loop_dirs (gdim gv)) \<or> list_all (owns_axis hi p) (loop_dirs (gdim gv)))
        \<and> \<not> (list_all (owns_axis lo p) (loop_dirs (gdim gv)) \<and> list_all (owns_axis hi p) (loop_dirs (gdim gv)))"
    by (rule list_all_split[OF dd(1)]) (simp_all add: other cut)
  then show ?thesis unfolding owns_list_all dims .
qed


theorem split_at_fraction_owns_partition_witness:
  "gv_wf (make_grid_volume D2 10 4 5 0) \<and> 0 < (2::int) \<and> gdim (make_grid_volume D2 10 4 5 0) = D2
   \<and> split_at_fraction (make_grid_volume D2 10 4 5 0) False 2 = Inr (projr (split_at_fraction (make_grid_volume D2 10 4 5 0) False 2))
   \<and> split_at_fraction (make_grid_volume D2 10 4 5 0) True 2 = Inr (projr (split_at_fraction (make_grid_volume D2 10 4 5 0) True 2))
   \<and> (owns (make_grid_volume D2 10 4 5 0) (ivec2 3 4) \<longleftrightarrow> owns (projr (split_at_fraction (make_grid_volume D2 10 4 5 0) False 2)) (ivec2 3 4)
                                \<or> owns (projr (split_at_fraction (make_grid_volume D2 10 4 5 0) True 2)) (ivec2 3 4))
   \<and> \<not> (owns (projr (split_at_fraction (make_grid_volume D2 10 4 5 0) False 2)) (ivec2 3 4)
         \<and> owns (projr (split_at_fraction (make_grid_volume D2 10 4 5 0) True 2)) (ivec2 3 4))"
proof -
  have wf: "gv_wf (make_grid_volume D2 10 4 5 0)" by (rule make_grid_volume_wf) simp_all
  have nm: "num (make_grid_volume D2 10 4 5 0) = [4, 5, 0]" and dm: "gdim (make_grid_volume D2 10 4 5 0) = D2"
    by (simp_all add: make_grid_volume_def set_origin_v_def set_origin_i_def gv_defs)
  have ba: "best_axis (num (make_grid_volume D2 10 4 5 0)) = (int 1, 5)" using nm by (simp add: best_axis_def)
  obtain L H where L: "split_at_fraction (make_grid_volume D2 10 4 5 0) False 2 = Inr L" and H: "split_at_fraction (make_grid_volume D2 10 4 5 0) True 2 = Inr H"
    using split_at_fraction_low[OF wf ba, of 2] split_at_fraction_high[OF wf ba, of 2] nm by simp
  show ?thesis
    using split_at_fraction_owns_partition[OF wf _ _ L H, of "ivec2 3 4"] wf dm L H by simp
qed

end
