(* ===== verification/Intersect.thy ===== *)
theory Intersect
  imports GridVolume
begin

text \<open>
  \<open>grid_volume::intersect_with(vol_in, intersection, others, num_others)\<close>
  (\<open>src/vec.cpp\<close>, lines 752-821): the lattice box common to two descriptors and
  the slabs of \<open>*this\<close> outside \<open>vol_in\<close>, shaved off one direction at a time,
  with the run-time check that the points of the pieces add up to those of
  \<open>*this\<close>.  The two optional out-pointers are the flags \<open>want_int\<close> and
  \<open>want_others\<close>; \<open>others\<close> is the returned list and \<open>num_others\<close> its length.
  The aborts and the dereference of a null \<open>intersection\<close> are \<open>Inl\<close> errors.
\<close>

section \<open>The operation\<close>

text \<open>\<open>little_corner()\<close> of \<open>meep/vec.hpp\<close>: the lattice origin \<open>io\<close>.\<close>

definition little_corner :: "grid_volume \<Rightarrow> ivec" where
  "little_corner gv = io gv"

datatype isect_error =
    OddLittle        \<comment> \<open>\<open>intersect_with: little corners differ by odd integer?\<close>\<close>
  | OddBig           \<comment> \<open>\<open>intersect_with: big corners differ by odd integer?\<close>\<close>
  | PointsMismatch int int  \<comment> \<open>\<open>intersect_with: initial_points != final_points\<close>\<close>
  | NullIntersection \<comment> \<open>\<open>intersection->num_direction(d)\<close> with \<open>intersection == NULL\<close>\<close>

text \<open>The first loop: the overlap \<open>[minval, maxval]\<close> along every direction, its
  half-length stored in \<open>temp_num[d % 3]\<close> and its start in \<open>new_io\<close>; \<open>None\<close> is
  the early \<open>return false\<close> of an empty overlap.\<close>

fun isect_extent_loop :: "grid_volume \<Rightarrow> grid_volume \<Rightarrow> direction list \<Rightarrow> int list \<Rightarrow> ivec
                          \<Rightarrow> (int list \<times> ivec) option" where
  "isect_extent_loop gv vin [] tn nio = Some (tn, nio)"
| "isect_extent_loop gv vin (d # ds) tn nio =
     (let minval = max (iv (little_corner gv) d) (iv (little_corner vin) d);
          maxval = min (iv (big_corner gv) d) (iv (big_corner vin) d)
      in if minval \<ge> maxval then None
         else isect_extent_loop gv vin ds (tn[num_index d := (maxval - minval) sdiv 2]) (ivec_set nio d minval))"

text \<open>The second loop, along \<open>d\<close>: the slab of \<open>vol_containing\<close> below \<open>vol_in\<close> is
  cut off and returned (lines 770-782), then the slab above it (lines 783-796).\<close>

definition shave_low :: "grid_volume \<Rightarrow> direction \<Rightarrow> grid_volume
                         \<Rightarrow> isect_error + (grid_volume \<times> grid_volume list)" where
  "shave_low vin d vc =
     (if iv (little_corner vc) d < iv (little_corner vin) d then
        (let thick = (iv (little_corner vin) d - iv (little_corner vc) d) sdiv 2;
             other = set_num_direction vc d thick;
             vc' = set_num_direction (shift_origin vc d (thick * 2)) d (num_direction vc d - thick)
         in if iv (little_corner vc') d < iv (little_corner vin) d then Inl OddLittle
            else Inr (vc', [other]))
      else Inr (vc, []))"

definition shave_high :: "grid_volume \<Rightarrow> direction \<Rightarrow> grid_volume
                          \<Rightarrow> isect_error + (grid_volume \<times> grid_volume list)" where
  "shave_high vin d vc =
     (if iv (big_corner vc) d > iv (big_corner vin) d then
        (let thick = (iv (big_corner vc) d - iv (big_corner vin) d) sdiv 2;
             other = shift_origin (set_num_direction vc d thick) d ((num_direction vc d - thick) * 2);
             vc' = set_num_direction vc d (num_direction vc d - thick)
         in if iv (big_corner vc') d < iv (big_corner vin) d then Inl OddBig
            else Inr (vc', [other]))
      else Inr (vc, []))"

fun shave_loop :: "grid_volume \<Rightarrow> direction list \<Rightarrow> grid_volume \<Rightarrow> grid_volume list
                   \<Rightarrow> isect_error + (grid_volume \<times> grid_volume list)" where
  "shave_loop vin [] vc os = Inr (vc, os)"
| "shave_loop vin (d # ds) vc os =
     (case shave_low vin d vc of
        Inl e \<Rightarrow> Inl e
      | Inr (vc1, o1) \<Rightarrow>
          (case shave_high vin d vc1 of
             Inl e \<Rightarrow> Inl e
           | Inr (vc2, o2) \<Rightarrow> shave_loop vin ds vc2 (os @ o1 @ o2)))"

text \<open>The product of \<open>num_direction(d)\<close> over the directions of \<open>dm\<close>.\<close>

definition points :: "ndim \<Rightarrow> grid_volume \<Rightarrow> int" where
  "points dm gv = prod_list (map (num_direction gv) (loop_dirs dm))"

definition intersect_with :: "grid_volume \<Rightarrow> grid_volume \<Rightarrow> bool \<Rightarrow> bool
                              \<Rightarrow> isect_error + (bool \<times> grid_volume option \<times> grid_volume list)" where
  "intersect_with gv vin want_int want_others =
     (case isect_extent_loop gv vin (loop_dirs (gdim gv)) [0, 0, 0] (zero_ivec (gdim gv)) of
        None \<Rightarrow> Inr (False, None, [])
      | Some (tn, nio) \<Rightarrow>
          (let isect = (if want_int
                        then Some (set_origin_i (make_grid_volume (gdim gv) (a_res gv) (tn ! 0) (tn ! 1) (tn ! 2)) nio)
                        else None)
           in if \<not> want_others then Inr (True, isect, [])
              else
                (case shave_loop vin (loop_dirs (gdim gv)) gv [] of
                   Inl e \<Rightarrow> Inl e
                 | Inr (vc, os) \<Rightarrow>
                     (case isect of
                        None \<Rightarrow> Inl NullIntersection
                      | Some i \<Rightarrow>
                          (let initial = points (gdim gv) gv;
                               final = points (gdim gv) i + sum_list (map (points (gdim gv)) os)
                           in if initial \<noteq> final then Inl (PointsMismatch initial final)
                              else Inr (True, isect, os))))))"

section \<open>Lemmas\<close>

text \<open>How \<open>set_num_direction\<close> and \<open>shift_origin\<close> move the corners, and the
  product of the extents as a linear function of one of them.\<close>

lemma big_corner_dir:
  assumes "ivdim (io gv) = gdim gv" and "has_direction (gdim gv) d"
  shows "iv (big_corner gv) d = iv (io gv) d + num_direction gv d * 2"
  using assms
  by (cases "gdim gv"; cases d)
     (simp_all add: big_corner_def ivec_plus_def ivec_scale_def ivec1_def ivec2_def ivec3_def iveccyl_def
                    nx_def ny_def nz_def nr_def num_direction_def)

lemma set_num_direction_frame [simp]:
  "gdim (set_num_direction g d k) = gdim g" "io (set_num_direction g d k) = io g"
  "a_res (set_num_direction g d k) = a_res g" "length (num (set_num_direction g d k)) = length (num g)"
  by (simp_all add: set_num_direction_def)

lemma num_direction_set [simp]:
  "num_index d < length (num g) \<Longrightarrow>
   num_direction (set_num_direction g d k) = (\<lambda>d'. if num_index d' = num_index d then k else num_direction g d')"
  by (simp add: set_num_direction_def num_direction_def nth_list_update fun_eq_iff)

lemma num_direction_num_changed [simp]: "num_direction (num_changed g) = num_direction g"
  by (simp add: num_direction_def fun_eq_iff)

lemma shift_origin_io [simp]:
  "io (shift_origin g d s) = ivec_set (io g) d (iv (io g) d + s)"
  by (simp add: shift_origin_def set_origin_d_def Let_def)

lemma num_direction_shift [simp]: "num_direction (shift_origin g d s) = num_direction g"
  by (simp add: num_direction_def fun_eq_iff)

lemma ivec_set_simps [simp]: "iv (ivec_set p d x) d' = (if d' = d then x else iv p d')" "ivdim (ivec_set p d x) = ivdim p"
  by (simp_all add: ivec_set_def)

lemma num_index_lt [simp]: "num_index d < 3"
  by (cases d) simp_all

lemma prod_update_index:
  fixes k :: int and f :: "direction \<Rightarrow> int"
  assumes "distinct (map num_index ds)" and "d \<in> set ds"
  shows "prod_list (map (\<lambda>d'. if num_index d' = num_index d then k else f d') ds)
         = k * prod_list (map f (remove1 d ds))"
  using assms
proof (induction ds)
  case (Cons d0 ds)
  show ?case
  proof (cases "d0 = d")
    case True
    then have "\<forall>d'\<in>set ds. num_index d' \<noteq> num_index d" using Cons.prems(1) by (fastforce simp: image_iff)
    then have "prod_list (map (\<lambda>d'. if num_index d' = num_index d then k else f d') ds) = prod_list (map f ds)"
      by (intro arg_cong[where f = prod_list] map_cong) auto
    then show ?thesis using True by simp
  next
    case False
    then have "num_index d0 \<noteq> num_index d" using Cons.prems by auto
    then show ?thesis using Cons False by (simp add: mult_ac)
  qed
qed simp

lemma loop_dirs_index_distinct [simp]: "distinct (map num_index (loop_dirs dm))"
  by (cases dm) simp_all

lemma points_set_num:
  assumes "has_direction dm d" and "length (num g) = 3"
  shows "points dm (set_num_direction g d k) = k * prod_list (map (num_direction g) (remove1 d (loop_dirs dm)))"
  using prod_update_index[of "loop_dirs dm" d k "num_direction g"] assms
  by (simp add: points_def has_direction_def)

lemma points_split:
  assumes "has_direction dm d" and "length (num g) = 3"
  shows "points dm g = num_direction g d * prod_list (map (num_direction g) (remove1 d (loop_dirs dm)))"
proof -
  have "set_num_direction g d (num_direction g d) = num_changed g"
    by (simp add: set_num_direction_def num_direction_def)
  then show ?thesis using points_set_num[OF assms, of "num_direction g d"]
    by (simp add: points_def num_direction_def)
qed


lemma half_even:
  fixes x :: int
  assumes "even x" and "0 \<le> x"
  shows "x sdiv 2 * 2 = x"
  using assms by simp

lemma shave_low_ok:
  assumes dim: "ivdim (io vc) = gdim vc" and len: "length (num vc) = 3" and hd: "has_direction (gdim vc) d"
    and ev: "even (iv (io vin) d - iv (io vc) d)"
  shows "\<exists>vc' o1. shave_low vin d vc = Inr (vc', o1) \<and> gdim vc' = gdim vc \<and> ivdim (io vc') = gdim vc
           \<and> length (num vc') = 3
           \<and> iv (io vc') d = max (iv (io vc) d) (iv (io vin) d) \<and> iv (big_corner vc') d = iv (big_corner vc) d
           \<and> (\<forall>d'. num_index d' \<noteq> num_index d \<longrightarrow> num_direction vc' d' = num_direction vc d')
           \<and> (\<forall>d'. d' \<noteq> d \<longrightarrow> iv (io vc') d' = iv (io vc) d')
           \<and> points (gdim vc) vc' + sum_list (map (points (gdim vc)) o1) = points (gdim vc) vc"
proof (cases "iv (io vc) d < iv (io vin) d")
  case False
  then show ?thesis using dim len by (simp add: shave_low_def little_corner_def)
next
  case True
  define t where "t = (iv (io vin) d - iv (io vc) d) sdiv 2"
  have t2: "t * 2 = iv (io vin) d - iv (io vc) d" using half_even[OF ev] True by (simp add: t_def)
  define vc' where "vc' = set_num_direction (shift_origin vc d (t * 2)) d (num_direction vc d - t)"
  have eq: "shave_low vin d vc = Inr (vc', [set_num_direction vc d t])"
    using True t2 by (simp add: shave_low_def little_corner_def Let_def t_def[symmetric] vc'_def)
  have io': "iv (io vc') d' = (if d' = d then iv (io vin) d else iv (io vc) d')" for d'
    using t2 by (simp add: vc'_def)
  have nd': "num_direction vc' = (\<lambda>d'. if num_index d' = num_index d then num_direction vc d - t else num_direction vc d')"
    using len by (simp add: vc'_def fun_eq_iff num_direction_def)
  have dim': "gdim vc' = gdim vc" "ivdim (io vc') = gdim vc" "length (num vc') = 3"
    using dim len by (simp_all add: vc'_def)
  have big: "iv (big_corner vc') d = iv (big_corner vc) d"
    using big_corner_dir[of vc' d] big_corner_dir[OF dim hd] dim' hd io' nd' t2 by simp
  let ?rest = "prod_list (map (num_direction vc) (remove1 d (loop_dirs (gdim vc))))"
  have pts: "points (gdim vc) vc' = (num_direction vc d - t) * ?rest"
    using points_set_num[of "gdim vc" d "shift_origin vc d (t * 2)" "num_direction vc d - t"] hd len
    by (simp add: vc'_def)
  have pts1: "points (gdim vc) (set_num_direction vc d t) = t * ?rest"
    using points_set_num[OF hd len] by simp
  have "points (gdim vc) vc' + sum_list (map (points (gdim vc)) [set_num_direction vc d t]) = points (gdim vc) vc"
    using pts pts1 points_split[OF hd len] by (simp add: algebra_simps)
  then show ?thesis using eq dim' big io' nd' True
    by (intro exI[of _ vc'] exI[of _ "[set_num_direction vc d t]"]) auto
qed


lemma points_shift [simp]: "points dm (shift_origin g d s) = points dm g"
  by (simp add: points_def)

lemma shave_high_ok:
  assumes dim: "ivdim (io vc) = gdim vc" and len: "length (num vc) = 3" and hd: "has_direction (gdim vc) d"
    and ev: "even (iv (big_corner vc) d - iv (big_corner vin) d)"
  shows "\<exists>vc' o2. shave_high vin d vc = Inr (vc', o2) \<and> gdim vc' = gdim vc \<and> ivdim (io vc') = gdim vc
           \<and> length (num vc') = 3
           \<and> io vc' = io vc \<and> iv (big_corner vc') d = min (iv (big_corner vc) d) (iv (big_corner vin) d)
           \<and> (\<forall>d'. num_index d' \<noteq> num_index d \<longrightarrow> num_direction vc' d' = num_direction vc d')
           \<and> points (gdim vc) vc' + sum_list (map (points (gdim vc)) o2) = points (gdim vc) vc"
proof (cases "iv (big_corner vc) d > iv (big_corner vin) d")
  case False
  then show ?thesis using dim len by (simp add: shave_high_def)
next
  case True
  define t where "t = (iv (big_corner vc) d - iv (big_corner vin) d) sdiv 2"
  have t2: "t * 2 = iv (big_corner vc) d - iv (big_corner vin) d" using half_even[OF ev] True by (simp add: t_def)
  define vc' where "vc' = set_num_direction vc d (num_direction vc d - t)"
  define other where "other = shift_origin (set_num_direction vc d t) d ((num_direction vc d - t) * 2)"
  have nd': "num_direction vc' = (\<lambda>d'. if num_index d' = num_index d then num_direction vc d - t else num_direction vc d')"
    using len by (simp add: vc'_def)
  have dim': "gdim vc' = gdim vc" "ivdim (io vc') = gdim vc" "length (num vc') = 3" "io vc' = io vc"
    using dim len by (simp_all add: vc'_def)
  have big: "iv (big_corner vc') d = iv (big_corner vin) d"
    using big_corner_dir[of vc' d] big_corner_dir[OF dim hd] dim' hd nd' t2 by simp
  have eq: "shave_high vin d vc = Inr (vc', [other])"
    using True big by (simp add: shave_high_def Let_def t_def[symmetric] vc'_def[symmetric] other_def)
  let ?rest = "prod_list (map (num_direction vc) (remove1 d (loop_dirs (gdim vc))))"
  have "points (gdim vc) vc' + sum_list (map (points (gdim vc)) [other]) = points (gdim vc) vc"
    using points_set_num[OF hd len, of "num_direction vc d - t"] points_set_num[OF hd len, of t]
          points_split[OF hd len]
    by (simp add: vc'_def other_def algebra_simps)
  then show ?thesis using eq dim' big nd' True
    by (intro exI[of _ vc'] exI[of _ "[other]"]) auto
qed


lemma big_corner_same:
  assumes "ivdim (io g) = gdim g" "ivdim (io g') = gdim g'" "gdim g' = gdim g" "has_direction (gdim g) d"
    and "iv (io g') d = iv (io g) d" and "num_direction g' d = num_direction g d"
  shows "iv (big_corner g') d = iv (big_corner g) d"
  using assms big_corner_dir[of g d] big_corner_dir[of g' d] by simp

lemma shave_loop_ok:
  assumes "distinct (map num_index ds)" and "\<forall>d\<in>set ds. has_direction dm d"
    and "gdim vc = dm" and "ivdim (io vc) = dm" and "length (num vc) = 3"
    and "gdim vin = dm" and "ivdim (io vin) = dm"
    and "\<forall>d\<in>set ds. even (iv (io vin) d - iv (io vc) d)"
  shows "\<exists>vc' os'. shave_loop vin ds vc os = Inr (vc', os') \<and> gdim vc' = dm \<and> ivdim (io vc') = dm
           \<and> length (num vc') = 3
           \<and> points dm vc' + sum_list (map (points dm) os') = points dm vc + sum_list (map (points dm) os)
           \<and> (\<forall>d\<in>set ds. iv (io vc') d = max (iv (io vc) d) (iv (io vin) d)
                         \<and> iv (big_corner vc') d = min (iv (big_corner vc) d) (iv (big_corner vin) d))
           \<and> (\<forall>d. has_direction dm d \<and> d \<notin> set ds \<longrightarrow>
                  iv (io vc') d = iv (io vc) d \<and> num_direction vc' d = num_direction vc d)"
  using assms
proof (induction ds arbitrary: vc os)
  case Nil
  then show ?case by simp
next
  case (Cons d ds)
  have hd: "has_direction (gdim vc) d" using Cons.prems(2,3) by simp
  obtain vc1 o1 where l: "shave_low vin d vc = Inr (vc1, o1)" "gdim vc1 = gdim vc" "ivdim (io vc1) = gdim vc"
    "length (num vc1) = 3" "iv (io vc1) d = max (iv (io vc) d) (iv (io vin) d)"
    "iv (big_corner vc1) d = iv (big_corner vc) d"
    "\<forall>d'. num_index d' \<noteq> num_index d \<longrightarrow> num_direction vc1 d' = num_direction vc d'"
    "\<forall>d'. d' \<noteq> d \<longrightarrow> iv (io vc1) d' = iv (io vc) d'"
    "points (gdim vc) vc1 + sum_list (map (points (gdim vc)) o1) = points (gdim vc) vc"
    using shave_low_ok[of vc d vin] Cons.prems hd by auto
  have ev2: "even (iv (big_corner vc1) d - iv (big_corner vin) d)"
    using l(5,6) Cons.prems hd big_corner_dir[of vc d] big_corner_dir[of vin d] by (auto simp: max_def)
  obtain vc2 o2 where h: "shave_high vin d vc1 = Inr (vc2, o2)" "gdim vc2 = gdim vc" "ivdim (io vc2) = gdim vc"
    "length (num vc2) = 3" "io vc2 = io vc1"
    "iv (big_corner vc2) d = min (iv (big_corner vc1) d) (iv (big_corner vin) d)"
    "\<forall>d'. num_index d' \<noteq> num_index d \<longrightarrow> num_direction vc2 d' = num_direction vc1 d'"
    "points (gdim vc) vc2 + sum_list (map (points (gdim vc)) o2) = points (gdim vc) vc1"
    using shave_high_ok[of vc1 d vin] l(2-4) hd ev2 by auto
  have nd: "d' \<in> set ds \<Longrightarrow> num_index d' \<noteq> num_index d" for d' using Cons.prems(1) by (auto simp: image_iff)
  have same: "iv (io vc2) d' = iv (io vc) d' \<and> num_direction vc2 d' = num_direction vc d'"
    if "num_index d' \<noteq> num_index d" for d' using that l(7,8) h(5,7) by auto
  obtain vc' os' where r: "shave_loop vin ds vc2 (os @ o1 @ o2) = Inr (vc', os')" "gdim vc' = dm"
    "ivdim (io vc') = dm" "length (num vc') = 3"
    "points dm vc' + sum_list (map (points dm) os') = points dm vc2 + sum_list (map (points dm) (os @ o1 @ o2))"
    "\<forall>d\<in>set ds. iv (io vc') d = max (iv (io vc2) d) (iv (io vin) d)
                \<and> iv (big_corner vc') d = min (iv (big_corner vc2) d) (iv (big_corner vin) d)"
    "\<forall>d'. has_direction dm d' \<and> d' \<notin> set ds \<longrightarrow> iv (io vc') d' = iv (io vc2) d' \<and> num_direction vc' d' = num_direction vc2 d'"
    using Cons.IH[of vc2 "os @ o1 @ o2"] Cons.prems h(2-4) same nd by auto
  have big2: "iv (big_corner vc2) d' = iv (big_corner vc) d'" if "d' \<in> set ds" for d'
    using big_corner_same[of vc vc2 d'] same[OF nd[OF that]] Cons.prems h(2,3) that by auto
  have dnot: "d \<notin> set ds" using Cons.prems(1) by auto
  have bigd: "iv (big_corner vc') d = iv (big_corner vc2) d"
    using big_corner_same[of vc2 vc' d] r(2,3,7) h(2,3) hd dnot Cons.prems(3) by auto
  show ?case
  proof (intro exI conjI)
    show "shave_loop vin (d # ds) vc os = Inr (vc', os')" using l(1) h(1) r(1) by simp
    show "points dm vc' + sum_list (map (points dm) os') = points dm vc + sum_list (map (points dm) os)"
      using r(5) h(8) l(9) Cons.prems(3) by simp
    show "\<forall>d'\<in>set (d # ds). iv (io vc') d' = max (iv (io vc) d') (iv (io vin) d')
            \<and> iv (big_corner vc') d' = min (iv (big_corner vc) d') (iv (big_corner vin) d')"
      using r(6,7) bigd big2 same nd h(5,6) l(5,6) dnot hd Cons.prems(3) by auto
    show "\<forall>d'. has_direction dm d' \<and> d' \<notin> set (d # ds) \<longrightarrow>
            iv (io vc') d' = iv (io vc) d' \<and> num_direction vc' d' = num_direction vc d'"
      using r(7) same Cons.prems(3) num_index_inj hd by fastforce
  qed (use r in auto)
qed


lemma isect_extent_ok:
  assumes "distinct (map num_index ds)" and "length tn = 3"
    and "\<forall>d\<in>set ds. max (iv (io gv) d) (iv (io vin) d) < min (iv (big_corner gv) d) (iv (big_corner vin) d)"
  shows "\<exists>tn' nio'. isect_extent_loop gv vin ds tn nio = Some (tn', nio') \<and> length tn' = 3
           \<and> ivdim nio' = ivdim nio
           \<and> (\<forall>d\<in>set ds. tn' ! num_index d = (min (iv (big_corner gv) d) (iv (big_corner vin) d)
                                                - max (iv (io gv) d) (iv (io vin) d)) sdiv 2
                         \<and> iv nio' d = max (iv (io gv) d) (iv (io vin) d))
           \<and> (\<forall>i. i \<notin> num_index ` set ds \<longrightarrow> tn' ! i = tn ! i)
           \<and> (\<forall>d. d \<notin> set ds \<longrightarrow> iv nio' d = iv nio d)"
  using assms
proof (induction ds arbitrary: tn nio)
  case (Cons d ds)
  let ?mn = "max (iv (io gv) d) (iv (io vin) d)" and ?mx = "min (iv (big_corner gv) d) (iv (big_corner vin) d)"
  obtain tn' nio' where r: "isect_extent_loop gv vin ds (tn[num_index d := (?mx - ?mn) sdiv 2]) (ivec_set nio d ?mn)
                             = Some (tn', nio')" "length tn' = 3" "ivdim nio' = ivdim nio"
    "\<forall>d'\<in>set ds. tn' ! num_index d' = (min (iv (big_corner gv) d') (iv (big_corner vin) d')
                                         - max (iv (io gv) d') (iv (io vin) d')) sdiv 2
                  \<and> iv nio' d' = max (iv (io gv) d') (iv (io vin) d')"
    "\<forall>i. i \<notin> num_index ` set ds \<longrightarrow> tn' ! i = tn[num_index d := (?mx - ?mn) sdiv 2] ! i"
    "\<forall>d'. d' \<notin> set ds \<longrightarrow> iv nio' d' = iv (ivec_set nio d ?mn) d'"
    using Cons.IH[of "tn[num_index d := (?mx - ?mn) sdiv 2]" "ivec_set nio d ?mn"] Cons.prems by auto
  have nin: "num_index d \<notin> num_index ` set ds" and dn: "d \<notin> set ds" using Cons.prems(1) by auto
  show ?case
  proof (intro exI conjI)
    show "isect_extent_loop gv vin (d # ds) tn nio = Some (tn', nio')"
    proof -
      have "\<not> ?mx \<le> ?mn" using Cons.prems(3) by auto
      then show ?thesis using r(1) by (simp add: little_corner_def Let_def)
    qed
    show "\<forall>d'\<in>set (d # ds). tn' ! num_index d' = (min (iv (big_corner gv) d') (iv (big_corner vin) d')
                                         - max (iv (io gv) d') (iv (io vin) d')) sdiv 2
                  \<and> iv nio' d' = max (iv (io gv) d') (iv (io vin) d')"
      using r(4,5,6) nin dn Cons.prems(2) by simp
    show "\<forall>i. i \<notin> num_index ` set (d # ds) \<longrightarrow> tn' ! i = tn ! i" using r(5) by simp
    show "\<forall>d'. d' \<notin> set (d # ds) \<longrightarrow> iv nio' d' = iv nio d'" using r(6) by simp
  qed (use r in auto)
qed simp


lemma make_grid_volume_frame [simp]:
  "gdim (make_grid_volume td ta na nb nc) = td" "num (make_grid_volume td ta na nb nc) = [na, nb, nc]"
  "a_res (make_grid_volume td ta na nb nc) = ta"
  by (simp_all add: make_grid_volume_def set_origin_v_def)

lemma even_corner_span:
  assumes "ivdim (io a) = gdim a" "ivdim (io b) = gdim b" "gdim b = gdim a" "has_direction (gdim a) d"
    and "even (iv (io b) d - iv (io a) d)"
  shows "even (min (iv (big_corner a) d) (iv (big_corner b) d) - max (iv (io a) d) (iv (io b) d))"
  using assms big_corner_dir[of a d] big_corner_dir[of b d] by (auto simp: min_def max_def)

section \<open>Properties\<close>

text \<open>C39: for two well-formed descriptors of the same dimensionality whose lattice
  origins differ by even numbers along every direction and which overlap,
  \<open>intersect_with\<close> returns \<open>true\<close> without aborting; the intersection is the box
  from the larger little corner to the smaller big corner, and the points of the
  intersection and of the shaved slabs add up to those of \<open>*this\<close>.\<close>

theorem intersect_with_conserves:
  assumes wf: "gv_wf gv" "gv_wf vin" and dm: "gdim vin = gdim gv"
    and ev: "list_all (\<lambda>d. even (iv (io vin) d - iv (io gv) d)) (loop_dirs (gdim gv))"
    and ov: "list_all (\<lambda>d. max (iv (io gv) d) (iv (io vin) d) < min (iv (big_corner gv) d) (iv (big_corner vin) d))
               (loop_dirs (gdim gv))"
  shows "\<exists>i os. intersect_with gv vin True True = Inr (True, Some i, os)
           \<and> points (gdim gv) i + sum_list (map (points (gdim gv)) os) = points (gdim gv) gv
           \<and> list_all (\<lambda>d. iv (io i) d = max (iv (io gv) d) (iv (io vin) d)
                          \<and> iv (big_corner i) d = min (iv (big_corner gv) d) (iv (big_corner vin) d))
               (loop_dirs (gdim gv))"
proof -
  let ?dm = "gdim gv"
  have io: "ivdim (io gv) = ?dm" "ivdim (io vin) = ?dm" "length (num gv) = 3"
    using wf dm by (simp_all add: gv_wf_def)
  obtain tn nio where e: "isect_extent_loop gv vin (loop_dirs ?dm) [0, 0, 0] (zero_ivec ?dm) = Some (tn, nio)"
    "length tn = 3" "ivdim nio = ?dm"
    "\<forall>d\<in>set (loop_dirs ?dm). tn ! num_index d = (min (iv (big_corner gv) d) (iv (big_corner vin) d)
                                 - max (iv (io gv) d) (iv (io vin) d)) sdiv 2
              \<and> iv nio d = max (iv (io gv) d) (iv (io vin) d)"
    using isect_extent_ok[of "loop_dirs ?dm" "[0, 0, 0]" gv vin "zero_ivec ?dm"] ov
    by (auto simp: list_all_iff zero_ivec_def)
  define i where "i = set_origin_i (make_grid_volume ?dm (a_res gv) (tn ! 0) (tn ! 1) (tn ! 2)) nio"
  have tn3: "[tn ! 0, tn ! 1, tn ! 2] = tn" using e(2)
    by (auto simp: numeral_3_eq_3 length_Suc_conv)
  have i: "gdim i = ?dm" "io i = nio" "num i = tn" using tn3 by (simp_all add: i_def set_origin_i_def)
  obtain vc os where s: "shave_loop vin (loop_dirs ?dm) gv [] = Inr (vc, os)" "gdim vc = ?dm" "ivdim (io vc) = ?dm"
    "points ?dm vc + sum_list (map (points ?dm) os) = points ?dm gv"
    "\<forall>d\<in>set (loop_dirs ?dm). iv (io vc) d = max (iv (io gv) d) (iv (io vin) d)
                          \<and> iv (big_corner vc) d = min (iv (big_corner gv) d) (iv (big_corner vin) d)"
    using shave_loop_ok[of "loop_dirs ?dm" ?dm gv vin "[]"] io dm ev
    by (auto simp: list_all_iff has_direction_def)
  have span: "d \<in> set (loop_dirs ?dm) \<Longrightarrow>
      even (min (iv (big_corner gv) d) (iv (big_corner vin) d) - max (iv (io gv) d) (iv (io vin) d))" for d
    using even_corner_span[of gv vin d] io dm ev by (auto simp: list_all_iff has_direction_def)
  have pos: "d \<in> set (loop_dirs ?dm) \<Longrightarrow>
      0 \<le> min (iv (big_corner gv) d) (iv (big_corner vin) d) - max (iv (io gv) d) (iv (io vin) d)" for d
    using ov by (auto simp: list_all_iff)
  have nd: "num_direction i d = num_direction vc d" if "d \<in> set (loop_dirs ?dm)" for d
  proof -
    have hd: "has_direction ?dm d" using that by (simp add: has_direction_def)
    have b: "iv (big_corner vc) d = iv (io vc) d + num_direction vc d * 2" using big_corner_dir[of vc d] s(2,3) hd by simp
    have c: "iv (io vc) d = max (iv (io gv) d) (iv (io vin) d)"
      "iv (big_corner vc) d = min (iv (big_corner gv) d) (iv (big_corner vin) d)" using s(5) that by auto
    have t: "tn ! num_index d = (min (iv (big_corner gv) d) (iv (big_corner vin) d)
                                 - max (iv (io gv) d) (iv (io vin) d)) sdiv 2" using e(4) that by auto
    show ?thesis using b c t span[OF that] pos[OF that] i(3) by (simp add: num_direction_def)
  qed
  have pts: "points ?dm i = points ?dm vc"
    unfolding points_def using nd by (intro arg_cong[where f = prod_list] map_cong) auto
  have corners: "list_all (\<lambda>d. iv (io i) d = max (iv (io gv) d) (iv (io vin) d)
                          \<and> iv (big_corner i) d = min (iv (big_corner gv) d) (iv (big_corner vin) d)) (loop_dirs ?dm)"
    unfolding list_all_iff
  proof
    fix d assume d: "d \<in> set (loop_dirs ?dm)"
    have hd: "has_direction ?dm d" using d by (simp add: has_direction_def)
    have "iv (big_corner i) d = iv (io i) d + num_direction i d * 2" using big_corner_dir[of i d] i e(3) hd by simp
    moreover have "iv (big_corner vc) d = iv (io vc) d + num_direction vc d * 2" using big_corner_dir[of vc d] s(2,3) hd by simp
    moreover have "iv (io i) d = iv (io vc) d" using e(4) s(5) d i(2) by auto
    ultimately show "iv (io i) d = max (iv (io gv) d) (iv (io vin) d)
                     \<and> iv (big_corner i) d = min (iv (big_corner gv) d) (iv (big_corner vin) d)"
      using s(5) d nd[OF d] by auto
  qed
  have "intersect_with gv vin True True = Inr (True, Some i, os)"
    using s(4) pts by (simp add: intersect_with_def e(1) s(1) i_def Let_def)
  then show ?thesis using s(4) pts corners by auto
qed

theorem intersect_with_conserves_witness:
  "gv_wf (make_grid_volume D2 10 4 4 0)
   \<and> gv_wf (shift_origin (shift_origin (make_grid_volume D2 10 2 6 0) X 2) Y 2)
   \<and> gdim (shift_origin (shift_origin (make_grid_volume D2 10 2 6 0) X 2) Y 2) = gdim (make_grid_volume D2 10 4 4 0)
   \<and> list_all (\<lambda>d. even (iv (io (shift_origin (shift_origin (make_grid_volume D2 10 2 6 0) X 2) Y 2)) d
                         - iv (io (make_grid_volume D2 10 4 4 0)) d)) (loop_dirs (gdim (make_grid_volume D2 10 4 4 0)))
   \<and> list_all (\<lambda>d. max (iv (io (make_grid_volume D2 10 4 4 0)) d)
                        (iv (io (shift_origin (shift_origin (make_grid_volume D2 10 2 6 0) X 2) Y 2)) d)
                   < min (iv (big_corner (make_grid_volume D2 10 4 4 0)) d)
                        (iv (big_corner (shift_origin (shift_origin (make_grid_volume D2 10 2 6 0) X 2) Y 2)) d))
       (loop_dirs (gdim (make_grid_volume D2 10 4 4 0)))
   \<and> (\<exists>i os. intersect_with (make_grid_volume D2 10 4 4 0)
                (shift_origin (shift_origin (make_grid_volume D2 10 2 6 0) X 2) Y 2) True True = Inr (True, Some i, os)
         \<and> points D2 i + sum_list (map (points D2) os) = points D2 (make_grid_volume D2 10 4 4 0))"
proof -
  let ?g = "make_grid_volume D2 10 4 4 0" and ?v = "shift_origin (shift_origin (make_grid_volume D2 10 2 6 0) X 2) Y 2"
  have w: "gv_wf ?g" "gv_wf ?v" by (intro wf_intros; simp)+
  have d: "gdim ?v = gdim ?g" by simp
  have e: "list_all (\<lambda>d. even (iv (io ?v) d - iv (io ?g) d)) (loop_dirs (gdim ?g))"
    by (simp add: make_grid_volume_def set_origin_v_def set_origin_i_def round_vec_def zero_vec_def)
  have o: "list_all (\<lambda>d. max (iv (io ?g) d) (iv (io ?v) d) < min (iv (big_corner ?g) d) (iv (big_corner ?v) d))
             (loop_dirs (gdim ?g))"
    by (simp add: make_grid_volume_def set_origin_v_def set_origin_i_def round_vec_def zero_vec_def big_corner_def
                  ivec_plus_def ivec_scale_def ivec2_def nx_def ny_def num_changed_def set_strides_def update_ntot_def)
  show ?thesis using intersect_with_conserves[OF w d e o] w d e o by auto
qed

end
