(* ===== verification/EffortSplit.thy ===== *)
theory EffortSplit
  imports Split Intersect
begin

text \<open>
  \<open>grid_volume::split_by_effort(n, which, Ngv, v, effort)\<close> (\<open>src/vec.cpp\<close>, lines
  943-996): the load-balancing variant of \<open>split\<close>.  The arrays \<open>v[0..Ngv)\<close> and
  \<open>effort[0..Ngv)\<close> are one list of (region, effort) pairs, empty when \<open>Ngv == 0\<close>.
  Doubles are reals; a division by the integer \<open>n/2 = 0\<close>, which the code reaches
  only for \<open>n \<le> 1\<close> after the early returns, is real division (value 0).  The
  recursion is a \<open>partial_function (option)\<close> like that of \<open>split\<close>.
\<close>

section \<open>The operation\<close>

text \<open>The loop that picks the split direction: the first direction of
  \<open>LOOP_OVER_DIRECTIONS\<close> with the largest extent, and that extent.\<close>

definition effort_axis :: "grid_volume \<Rightarrow> int \<times> direction" where
  "effort_axis gv =
     fold (\<lambda>d (bl, sd). if num_direction gv d > bl then (num_direction gv d, d) else (bl, sd))
          (loop_dirs (gdim gv)) (0, NO_DIRECTION)"

text \<open>The effort of one side: its \<open>ntot()\<close> without a table, otherwise the sum of
  \<open>effort[j] * vol.ntot()\<close> over the regions it intersects.\<close>

definition side_effort :: "grid_volume \<Rightarrow> (grid_volume \<times> real) list \<Rightarrow> real" where
  "side_effort g tbl =
     (if tbl = [] then of_int (the_ntot g)
      else sum_list (map (\<lambda>(vj, ej). case intersect_with g vj True False of
                                         Inr (True, Some vol, _) \<Rightarrow> ej * of_int (the_ntot vol)
                                       | _ \<Rightarrow> 0) tbl))"

text \<open>The two halves for the candidate \<open>split_point\<close> along \<open>splitdir\<close>.\<close>

definition effort_halves :: "grid_volume \<Rightarrow> direction \<Rightarrow> int \<Rightarrow> grid_volume \<times> grid_volume" where
  "effort_halves gv sd sp =
     (set_num_direction gv sd sp,
      shift_origin (set_num_direction gv sd (num_direction gv sd - sp)) sd (sp * 2))"

text \<open>One candidate of the search: the worse of the two loads per part, kept when
  strictly better than the best so far, with the left effort fraction.\<close>

definition effort_step :: "grid_volume \<Rightarrow> int \<Rightarrow> (grid_volume \<times> real) list \<Rightarrow> direction
                           \<Rightarrow> real \<times> int \<times> real \<Rightarrow> int \<Rightarrow> real \<times> int \<times> real" where
  "effort_step gv n tbl sd st sp =
     (let (vl, vr) = effort_halves gv sd sp;
          le = side_effort vl tbl; re = side_effort vr tbl;
          m = max (le / of_int (n sdiv 2)) (re / of_int (n - n sdiv 2))
      in case st of (best, bsp, lf) \<Rightarrow> if m < best then (m, sp, le / (le + re)) else (best, bsp, lf))"

definition effort_search :: "grid_volume \<Rightarrow> int \<Rightarrow> (grid_volume \<times> real) list \<Rightarrow> direction \<Rightarrow> int
                             \<Rightarrow> real \<times> int \<times> real" where
  "effort_search gv n tbl sd bl = fold (\<lambda>sp st. effort_step gv n tbl sd st sp) [1..bl - 1] (10 ^ 20, 0, 0)"

partial_function (option) split_by_effort ::
  "grid_volume \<Rightarrow> int \<Rightarrow> int \<Rightarrow> (grid_volume \<times> real) list \<Rightarrow> (split_error + grid_volume) option" where
  "split_by_effort gv n which tbl =
     (let gpo = nowned_min gv in
      if n > gpo then Some (Inl (CannotSplit (nowned_min gv) n))
      else if n = 1 then Some (Inr gv)
      else
        let (bl, sd) = effort_axis gv;
            (best, sp, lf) = effort_search gv n tbl sd bl;
            nl = c_trunc (lf * of_int n + 1 / 2)
        in if nl > sp * (gpo sdiv bl) \<or> n - nl > gpo - sp * (gpo sdiv bl) then split gv n which
           else if which < nl then
             (case split_at_fraction gv False sp of
                Inl e \<Rightarrow> Some (Inl e)
              | Inr g \<Rightarrow> split_by_effort g nl which tbl)
           else
             (case split_at_fraction gv True sp of
                Inl e \<Rightarrow> Some (Inl e)
              | Inr g \<Rightarrow> split_by_effort g (n - nl) (which - nl) tbl))"

declare split_by_effort.simps [code]

section \<open>Properties\<close>

text \<open>The direction of the search and the direction of the cut: in cylindrical
  coordinates with \<open>nr() = nz()\<close>, \<open>split_by_effort\<close> weighs cuts along \<open>Z\<close> (the first
  of \<open>LOOP_OVER_DIRECTIONS\<close>), while \<open>split_at_fraction\<close> cuts the first slot of
  \<open>num\<close> of maximal extent, the radial one.\<close>

lemma effort_axis_cylinder_mismatch:
  "effort_axis (make_grid_volume Dcyl 10 6 0 6) = (6, Z) \<and> best_axis (num (make_grid_volume Dcyl 10 6 0 6)) = (0, 6)
   \<and> split_dir Dcyl 0 = R"
  by code_simp

text \<open>Without an effort table, \<open>split_by_effort(n, which)\<close> does not return the
  partition of \<open>split(n, which)\<close>, contrary to the specification: for a 1D grid of
  10 cells cut in 3 parts, part 1 has 3 cells starting at half-step 6 under
  \<open>split_by_effort\<close> (parts 3, 3, 4) and 4 cells under \<open>split\<close> (parts 3, 4, 3).  The
  effort of a side is its \<open>ntot()\<close>, which counts one more point per axis than it
  owns, and the part counts follow the effort fraction.\<close>

theorem effort_split_differs:
  "map_option (map_sum id (\<lambda>g. (nz g, iv (io g) Z))) (split_by_effort (make_grid_volume D1 10 0 0 10) 3 1 [])
     = Some (Inr (3, 6))
   \<and> map_option (map_sum id (\<lambda>g. (nz g, iv (io g) Z))) (split (make_grid_volume D1 10 0 0 10) 3 1)
     = Some (Inr (4, 6))"
  by code_simp

end
