(* ===== verification/Symmetry.thy ===== *)
theory Symmetry
  imports GridVolume
begin

text \<open>
  The point-group symmetry engine of \<open>src/vec.cpp\<close> (lines 1064-1226).  A C++
  \<open>symmetry\<close> is a linked chain of generators: each link holds its order \<open>g\<close>, a
  one-step map \<open>S[d]\<close> from directions to signed directions, a phase \<open>ph\<close>, the
  fixed point (continuous and integer) and the owning pointer \<open>next\<close>.  The model
  represents the chain as the list of its links, head first; the empty list is the
  null pointer, so a call through a null \<open>next\<close> is a call on \<open>[]\<close>, whose value is
  \<open>None\<close>.  Copying and assignment deep-copy the chain (\<open>sym_copy\<close>,
  \<open>sym_assign\<close>).  \<open>transform(d, n)\<close> recurses both into the chain and into the
  same link; it is a \<open>partial_function (option)\<close>, whose \<open>None\<close> stands for a null dereference,
  a division by a zero order, or a recursion that does not end.
\<close>

section \<open>Signed directions (\<open>meep/vec.hpp\<close>)\<close>

record signed_direction =
  sd_d :: direction
  sd_flipped :: bool
  sd_phase :: complex

text \<open>\<open>signed_direction(d)\<close>: not flipped, phase 1.\<close>

definition sd_of :: "direction \<Rightarrow> signed_direction" where
  "sd_of d = \<lparr>sd_d = d, sd_flipped = False, sd_phase = 1\<rparr>"

definition flip :: "signed_direction \<Rightarrow> signed_direction" where
  "flip s = s\<lparr>sd_flipped := \<not> sd_flipped s\<rparr>"

text \<open>\<open>signed_direction::operator*(complex)\<close>.\<close>

definition sd_mult :: "signed_direction \<Rightarrow> complex \<Rightarrow> signed_direction" where
  "sd_mult s p = s\<lparr>sd_phase := sd_phase s * p\<rparr>"

section \<open>Generators and their chains\<close>

record sym_link =
  sym_g :: int
  sym_S :: "direction \<Rightarrow> signed_direction"
  sym_ph :: complex
  sym_point :: vec
  sym_ipoint :: ivec

type_synonym symmetry = "sym_link list"

text \<open>
  The default constructor \<open>symmetry()\<close> (= \<open>identity()\<close>): order 1, every direction
  mapped to itself, phase 1, no tail.  It leaves the fixed points uninitialised; the
  model leaves them unspecified.
\<close>

definition identity_link :: sym_link where
  "identity_link = \<lparr>sym_g = 1, sym_S = sd_of, sym_ph = 1,
                    sym_point = undefined, sym_ipoint = undefined\<rparr>"

definition identity :: symmetry where
  "identity = [identity_link]"

text \<open>\<open>mirror(axis, gv)\<close>: order 2, \<open>axis\<close> flipped, about the centre of \<open>gv\<close>.\<close>

definition mirror :: "direction \<Rightarrow> grid_volume \<Rightarrow> symmetry" where
  "mirror axis gv =
     [\<lparr>sym_g = 2, sym_S = (sd_of)(axis := flip (sd_of axis)), sym_ph = 1,
       sym_point = center gv, sym_ipoint = icenter gv\<rparr>]"

text \<open>\<open>rotate2(axis, gv)\<close>: order 2, the two other axes flipped; aborts on a
  non-Cartesian axis.\<close>

definition rotate2 :: "direction \<Rightarrow> grid_volume \<Rightarrow> symmetry option" where
  "rotate2 axis gv =
     (if dir_num axis > 2 then None
      else let a1 = dir_of_num ((dir_num axis + 1) mod 3);
               a2 = dir_of_num ((dir_num axis + 2) mod 3)
           in Some [\<lparr>sym_g = 2,
                      sym_S = (sd_of)(a1 := flip (sd_of a1), a2 := flip (sd_of a2)),
                      sym_ph = 1, sym_point = center gv, sym_ipoint = icenter gv\<rparr>])"

text \<open>\<open>rotate4(axis, gv)\<close>: order 4, \<open>a1 \<mapsto> a2\<close> flipped and \<open>a2 \<mapsto> a1\<close>, where
  \<open>a1, a2\<close> follow \<open>axis\<close> cyclically; aborts on a non-Cartesian axis.\<close>

definition rotate4 :: "direction \<Rightarrow> grid_volume \<Rightarrow> symmetry option" where
  "rotate4 axis gv =
     (if dir_num axis > 2 then None
      else let a1 = dir_of_num ((dir_num axis + 1) mod 3);
               a2 = dir_of_num ((dir_num axis + 2) mod 3)
           in Some [\<lparr>sym_g = 4,
                      sym_S = (sd_of)(a1 := flip (sd_of a2), a2 := sd_of a1),
                      sym_ph = 1, sym_point = center gv, sym_ipoint = icenter gv\<rparr>])"

text \<open>\<open>r_to_minus_r_symmetry(m)\<close>: \<open>R\<close> and \<open>P\<close> flipped, phase \<open>(-1)^m\<close> for an
  integer \<open>m\<close> (tested by \<open>m == int(m)\<close> and \<open>int(m) & 1\<close>), \<open>e^{i m \<pi>}\<close>
  otherwise.\<close>

definition r_to_minus_r_symmetry :: "real \<Rightarrow> symmetry" where
  "r_to_minus_r_symmetry m =
     [\<lparr>sym_g = 2,
        sym_S = (sd_of)(R := flip (sd_of R), P := flip (sd_of P)),
        sym_ph = (if m = of_int (c_trunc m) then (if odd (c_trunc m) then -1 else 1)
                  else cis (m * pi)),
        sym_point = zero_vec Dcyl, sym_ipoint = zero_ivec Dcyl\<rparr>]"

text \<open>\<open>multiplicity()\<close>: the order of the head times the multiplicity of the tail.\<close>

fun multiplicity :: "symmetry \<Rightarrow> int" where
  "multiplicity [] = 1"
| "multiplicity (s # rest) = (if rest = [] then sym_g s else sym_g s * multiplicity rest)"

text \<open>\<open>operator+\<close>: a symmetry of multiplicity 1 is dropped, otherwise a deep copy
  of \<open>b\<close> is hung at the end of a copy of \<open>a\<close>.\<close>

definition sym_plus :: "symmetry \<Rightarrow> symmetry \<Rightarrow> symmetry" where
  "sym_plus a b = (if multiplicity a = 1 then b else if multiplicity b = 1 then a else a @ b)"

text \<open>\<open>operator*(complex)\<close>: scales the phase of the head link.\<close>

definition sym_times :: "symmetry \<Rightarrow> complex \<Rightarrow> symmetry" where
  "sym_times ss p = (case ss of [] \<Rightarrow> [] | s # rest \<Rightarrow> s\<lparr>sym_ph := sym_ph s * p\<rparr> # rest)"

text \<open>
  The copy constructor \<open>symmetry(const symmetry &)\<close> and \<open>operator=\<close> (lines
  1127-1152) copy \<open>g\<close>, \<open>ph\<close>, the fixed points and, for every direction, only
  \<open>S[d].d\<close> and \<open>S[d].flipped\<close>: the phase of \<open>S[d]\<close> stays that of the target,
  a default \<open>signed_direction\<close> (phase 1) in a new object.  The tail is copied
  with \<open>new symmetry(*s.next)\<close>.  \<open>S\<close> has no slot for \<open>NO_DIRECTION\<close>; the model
  keeps the source's value there.
\<close>

definition copy_S :: "(direction \<Rightarrow> signed_direction) \<Rightarrow> (direction \<Rightarrow> signed_direction)
                      \<Rightarrow> direction \<Rightarrow> signed_direction" where
  "copy_S old src d =
     (if d \<in> set all_dirs then (old d)\<lparr>sd_d := sd_d (src d), sd_flipped := sd_flipped (src d)\<rparr> else src d)"

fun sym_copy :: "symmetry \<Rightarrow> symmetry" where
  "sym_copy [] = []"
| "sym_copy (s # rest) = s\<lparr>sym_S := copy_S sd_of (sym_S s)\<rparr> # sym_copy rest"

text \<open>\<open>t = s\<close> for a target whose head link is \<open>t\<close>; the old tail of \<open>t\<close> is
  overwritten without being deleted.\<close>

fun sym_assign :: "sym_link \<Rightarrow> symmetry \<Rightarrow> symmetry" where
  "sym_assign t [] = []"
| "sym_assign t (s # rest) = s\<lparr>sym_S := copy_S (sym_S t) (sym_S s)\<rparr> # sym_copy rest"

section \<open>\<open>transform(direction, n)\<close>\<close>

text \<open>
  The split of \<open>n\<close> into the power \<open>nme\<close> of the head link and the power \<open>nrest\<close>
  handed to the tail, with C's truncating \<open>/\<close> and \<open>%\<close>.
\<close>

definition split_power :: "int \<Rightarrow> int \<Rightarrow> int \<times> int" where
  "split_power g n =
     (if n < 0 then ((g - (- n) smod g) smod g, - ((- n) sdiv g))
      else (n smod g, n sdiv g))"

text \<open>
  \<open>symmetry::transform(direction d, int n)\<close>, lines 1199-1226.  The store
  \<open>sd = S[d]\<close> for \<open>nme == 1\<close> is dead (it is overwritten on the next line) and is not
  modelled.  A zero order (a division by zero in C) is \<open>None\<close>.
\<close>

partial_function (option) sym_transform ::
  "symmetry \<Rightarrow> direction \<Rightarrow> int \<Rightarrow> signed_direction option" where
  "sym_transform ss d n =
     (case ss of
        [] \<Rightarrow> None
      | s # rest \<Rightarrow>
          if n = 0 \<or> d = NO_DIRECTION then Some (sd_of d)
          else if sym_g s = 0 then None
          else
            (let nme = fst (split_power (sym_g s) n); nrest = snd (split_power (sym_g s) n)
             in if nme = 0 then
                  (if nrest = 0 then Some (sd_of d) else sym_transform rest d nrest)
                else
                  Option.bind (sym_transform ss (sd_d (sym_S s d)) (nme - 1)) (\<lambda>t.
                    let sd = (if sd_flipped (sym_S s d) then flip t else t)
                    in if rest \<noteq> [] \<and> nrest \<noteq> 0 then
                         Option.bind (sym_transform rest (sd_d sd) nrest) (\<lambda>u.
                           Some (sd_mult (if sd_flipped sd then flip u else u) (sym_ph s)))
                       else Some (sd_mult sd (sym_ph s)))))"

declare sym_transform.simps [code]

section \<open>Specification: the chain as composed generator powers\<close>

text \<open>
  What \<open>transform(d, n)\<close> is meant to compute: write \<open>n\<close> in the mixed radix of
  the link orders, \<open>n = n\<^sub>1 + g\<^sub>1 (n\<^sub>2 + g\<^sub>2 (\<dots>))\<close>, and apply the one-step map of
  the head \<open>n\<^sub>1\<close> times, then that of the next link \<open>n\<^sub>2\<close> times, and so on.  One
  step \<open>gen_step\<close> follows \<open>S\<close>, composes the flips and multiplies in the phase of
  the link.  \<open>sd_adjust t u\<close> composes the flip and phase of \<open>t\<close> onto \<open>u\<close>.
\<close>

definition gen_step :: "sym_link \<Rightarrow> signed_direction \<Rightarrow> signed_direction" where
  "gen_step s t =
     \<lparr>sd_d = sd_d (sym_S s (sd_d t)),
      sd_flipped = (sd_flipped t \<noteq> sd_flipped (sym_S s (sd_d t))),
      sd_phase = sd_phase t * sym_ph s\<rparr>"

fun sym_act :: "symmetry \<Rightarrow> int \<Rightarrow> signed_direction \<Rightarrow> signed_direction" where
  "sym_act [] n t = t"
| "sym_act (s # rest) n t = sym_act rest (n div sym_g s) ((gen_step s ^^ nat (n mod sym_g s)) t)"

definition link_wf :: "sym_link \<Rightarrow> bool" where
  "link_wf s = (1 \<le> sym_g s \<and> list_all (\<lambda>d. sd_d (sym_S s d) \<noteq> NO_DIRECTION) all_dirs)"

definition sym_wf :: "symmetry \<Rightarrow> bool" where
  "sym_wf ss = (ss \<noteq> [] \<and> list_all link_wf ss)"

definition orders_le2 :: "symmetry \<Rightarrow> bool" where
  "orders_le2 ss = list_all (\<lambda>s. sym_g s \<le> 2) (butlast ss)"

definition sd_adjust :: "signed_direction \<Rightarrow> signed_direction \<Rightarrow> signed_direction" where
  "sd_adjust t u = u\<lparr>sd_flipped := (sd_flipped u \<noteq> sd_flipped t), sd_phase := sd_phase u * sd_phase t\<rparr>"

section \<open>Symmetries built by the program\<close>

text \<open>The symmetries a client can build: the constructors \<open>identity\<close>, \<open>mirror\<close>,
  \<open>rotate2\<close>, \<open>rotate4\<close> (when they do not abort) and \<open>r_to_minus_r_symmetry\<close>,
  closed under \<open>operator+\<close> and \<open>operator*\<close>.\<close>

inductive constructible :: "symmetry \<Rightarrow> bool" where
  constructible_identity: "constructible identity"
| constructible_mirror: "constructible (mirror a gv)"
| constructible_rotate2: "rotate2 a gv = Some s \<Longrightarrow> constructible s"
| constructible_rotate4: "rotate4 a gv = Some s \<Longrightarrow> constructible s"
| constructible_r_to_minus_r: "constructible (r_to_minus_r_symmetry m)"
| constructible_plus: "constructible a \<Longrightarrow> constructible b \<Longrightarrow> constructible (sym_plus a b)"
| constructible_times: "constructible a \<Longrightarrow> constructible (sym_times a p)"

definition phases_one :: "symmetry \<Rightarrow> bool" where
  "phases_one ss = list_all (\<lambda>s. list_all (\<lambda>d. sd_phase (sym_S s d) = 1) all_dirs) ss"

section \<open>Lemmas on \<open>transform\<close>\<close>

lemma sd_adjust_dir [simp]: "sd_d (sd_adjust t u) = sd_d u"
  by (simp add: sd_adjust_def)

lemma sd_adjust_assoc: "sd_adjust (sd_adjust t u) v = sd_adjust t (sd_adjust u v)"
  by (rule signed_direction.equality) (auto simp: sd_adjust_def mult.assoc)

lemma sd_adjust_sd_of [simp]: "sd_adjust t (sd_of d) = t\<lparr>sd_d := d\<rparr>"
  by (simp add: sd_adjust_def sd_of_def)

lemma gen_step_adjust: "gen_step s (sd_adjust t u) = sd_adjust t (gen_step s u)"
  by (rule signed_direction.equality) (auto simp: gen_step_def sd_adjust_def ac_simps)

lemma gen_pow_adjust: "(gen_step s ^^ m) t = sd_adjust t ((gen_step s ^^ m) (sd_of (sd_d t)))"
proof (induction m)
  case 0
  then show ?case by simp
next
  case (Suc m)
  then show ?case by (simp add: gen_step_adjust)
qed


lemma sym_act_adjust: "sym_act ss n t = sd_adjust t (sym_act ss n (sd_of (sd_d t)))"
proof (induction ss arbitrary: n t)
  case Nil
  then show ?case by simp
next
  case (Cons s rest)
  let ?G = "gen_step s ^^ nat (n mod sym_g s)"
  let ?n = "n div sym_g s"
  have "sym_act (s # rest) n t = sym_act rest ?n (sd_adjust t (?G (sd_of (sd_d t))))"
    by (simp del: funpow.simps add: gen_pow_adjust[where t = t])
  also have "\<dots> = sd_adjust t (sd_adjust (?G (sd_of (sd_d t))) (sym_act rest ?n (sd_of (sd_d (?G (sd_of (sd_d t)))))))"
    by (subst Cons.IH) (simp add: sd_adjust_assoc)
  also have "\<dots> = sd_adjust t (sym_act (s # rest) n (sd_of (sd_d t)))"
    by (simp del: funpow.simps only: sym_act.simps Cons.IH[of ?n "?G (sd_of (sd_d t))", symmetric])
  finally show ?case .
qed

lemma sym_act_zero [simp]: "sym_act ss 0 t = t"
  by (induction ss arbitrary: t) simp_all

lemma link_wf_dir: "link_wf s \<Longrightarrow> d \<noteq> NO_DIRECTION \<Longrightarrow> sd_d (sym_S s d) \<noteq> NO_DIRECTION"
  by (cases d) (simp_all add: link_wf_def all_dirs_def)

lemma gen_pow_dir:
  "link_wf s \<Longrightarrow> sd_d t \<noteq> NO_DIRECTION \<Longrightarrow> sd_d ((gen_step s ^^ m) t) \<noteq> NO_DIRECTION"
  by (induction m) (simp_all add: gen_step_def link_wf_dir)

lemma gen_step_sd_of_dir [simp]: "sd_d (gen_step s (sd_of d)) = sd_d (sym_S s d)"
  by (simp add: gen_step_def sd_of_def)

lemma gen_step_sd_of_adjust:
  "sd_adjust (gen_step s (sd_of d)) u = sd_mult (if sd_flipped (sym_S s d) then flip u else u) (sym_ph s)"
  by (rule signed_direction.equality) (auto simp: gen_step_def sd_of_def sd_mult_def flip_def sd_adjust_def)

text \<open>Within one period of the head link, \<open>transform\<close> is the power of the head's one-step map.\<close>

lemma transform_link_pow:
  assumes "link_wf s" and "d \<noteq> NO_DIRECTION" and "0 \<le> k" and "k < sym_g s"
  shows "sym_transform (s # rest) d k = Some ((gen_step s ^^ nat k) (sd_of d))"
  using assms
proof (induction "nat k" arbitrary: k d)
  case 0
  then show ?case by (subst sym_transform.simps) simp
next
  case (Suc m)
  have k: "k = int m + 1" "0 < k" using Suc.hyps(2) by simp_all
  have sp: "split_power (sym_g s) k = (k, 0)"
    using Suc.prems k by (simp add: split_power_def)
  have rec: "sym_transform (s # rest) (sd_d (sym_S s d)) (k - 1)
               = Some ((gen_step s ^^ m) (sd_of (sd_d (sym_S s d))))"
    using Suc.hyps(1)[of "k - 1" "sd_d (sym_S s d)"] Suc.prems k link_wf_dir by simp
  have "(gen_step s ^^ nat k) (sd_of d) = (gen_step s ^^ m) (gen_step s (sd_of d))"
    by (simp only: Suc.hyps(2)[symmetric] funpow_Suc_right o_apply)
  also have "\<dots> = sd_mult (if sd_flipped (sym_S s d) then flip ((gen_step s ^^ m) (sd_of (sd_d (sym_S s d))))
                           else (gen_step s ^^ m) (sd_of (sd_d (sym_S s d)))) (sym_ph s)"
    by (subst gen_pow_adjust) (simp only: gen_step_sd_of_dir gen_step_sd_of_adjust)
  finally show ?case
    using Suc.prems k sp rec link_wf_def by (subst sym_transform.simps) (simp add: Let_def)
qed


lemma sym_wf_cons:
  "sym_wf (s # rest) \<longleftrightarrow> link_wf s \<and> (rest = [] \<or> sym_wf rest)"
  by (auto simp: sym_wf_def)

lemma orders_le2_cons:
  "orders_le2 (s # rest) \<longleftrightarrow> (rest = [] \<or> sym_g s \<le> 2 \<and> orders_le2 rest)"
  by (cases rest) (simp_all add: orders_le2_def)

lemma multiplicity_pos: "sym_wf ss \<Longrightarrow> 0 < multiplicity ss"
proof (induction ss)
  case (Cons s rest)
  then show ?case by (cases rest) (auto simp: sym_wf_cons link_wf_def)
qed (simp add: sym_wf_def)

lemma sym_act_single [simp]:
  "0 \<le> n \<Longrightarrow> n < sym_g s \<Longrightarrow> sym_act (s # rest) n t = (gen_step s ^^ nat n) t"
  by simp

lemma gen_pow_unfold:
  assumes "0 < k"
  shows "(gen_step s ^^ k) (sd_of d)
         = sd_mult (if sd_flipped (sym_S s d) then flip ((gen_step s ^^ (k - 1)) (sd_of (sd_d (sym_S s d))))
                    else (gen_step s ^^ (k - 1)) (sd_of (sd_d (sym_S s d)))) (sym_ph s)"
proof -
  have "(gen_step s ^^ k) (sd_of d) = (gen_step s ^^ (k - 1)) (gen_step s (sd_of d))"
    using assms by (cases k) (simp_all add: funpow_Suc_right del: funpow.simps)
  then show ?thesis
    by (subst (asm) gen_pow_adjust) (simp only: gen_step_sd_of_dir gen_step_sd_of_adjust)
qed

lemma sd_mult_flip_phase_one:
  "sd_phase t = 1 \<Longrightarrow> sd_mult (if sd_flipped t then flip u else u) p = sd_adjust (sd_mult t p) u"
  by (rule signed_direction.equality) (auto simp: sd_mult_def flip_def sd_adjust_def)

lemma transform_chain:
  assumes "sym_wf ss" and "d \<noteq> NO_DIRECTION" and "0 \<le> n" and "n < multiplicity ss"
  shows "\<exists>t. sym_transform ss d n = Some t
            \<and> sd_d t = sd_d (sym_act ss n (sd_of d))
            \<and> sd_flipped t = sd_flipped (sym_act ss n (sd_of d))
            \<and> (orders_le2 ss \<longrightarrow> t = sym_act ss n (sd_of d))"
  using assms
proof (induction ss arbitrary: d n)
  case Nil
  then show ?case by (simp add: sym_wf_def)
next
  case (Cons s rest)
  have s: "link_wf s" and g: "1 \<le> sym_g s" using Cons.prems(1) by (simp_all add: sym_wf_cons link_wf_def)
  show ?case
  proof (cases "rest = [] \<or> n < sym_g s")
    case True
    then have "n < sym_g s" using Cons.prems(4) by auto
    then show ?thesis
      using transform_link_pow[OF s Cons.prems(2,3)] Cons.prems(3) by simp
  next
    case False
    then have rest: "sym_wf rest" "rest \<noteq> []" using Cons.prems(1) by (auto simp: sym_wf_cons)
    define nme where "nme = n mod sym_g s"
    define nrest where "nrest = n div sym_g s"
    have n: "n = nme + sym_g s * nrest" "0 < n" "0 \<le> nme" "nme < sym_g s" "1 \<le> nrest"
      using False g Cons.prems(3) by (simp_all add: nme_def nrest_def le_zdiv_iff)
    have nrest: "nrest < multiplicity rest"
      using Cons.prems(3,4) rest g unfolding nrest_def by (simp add: zdiv_less_iff mult.commute)
    have sp: "split_power (sym_g s) n = (nme, nrest)"
      using n by (simp add: split_power_def nme_def nrest_def)
    have ord: "orders_le2 (s # rest) \<Longrightarrow> orders_le2 rest \<and> sym_g s \<le> 2"
      using rest by (simp add: orders_le2_cons)
    show ?thesis
    proof (cases "nme = 0")
      case True
      have code: "sym_transform (s # rest) d n = sym_transform rest d nrest"
        using True sp n(2,5) g Cons.prems(2) by (subst sym_transform.simps) (simp add: Let_def)
      have act: "sym_act (s # rest) n (sd_of d) = sym_act rest nrest (sd_of d)"
        using True by (simp add: nme_def[symmetric] nrest_def[symmetric])
      show ?thesis
        using Cons.IH[OF rest(1) Cons.prems(2), of nrest] n(5) nrest ord
        unfolding code act by auto
    next
      case False
      define d' where "d' = sd_d (sym_S s d)"
      define sd where "sd = (if sd_flipped (sym_S s d) then flip ((gen_step s ^^ nat (nme - 1)) (sd_of d'))
                             else (gen_step s ^^ nat (nme - 1)) (sd_of d'))"
      have inner: "sym_transform (s # rest) d' (nme - 1) = Some ((gen_step s ^^ nat (nme - 1)) (sd_of d'))"
        using transform_link_pow[OF s, of d' "nme - 1"] link_wf_dir[OF s Cons.prems(2)] n False
        by (simp add: d'_def)
      have Gn: "(gen_step s ^^ nat nme) (sd_of d) = sd_mult sd (sym_ph s)"
        using gen_pow_unfold[of "nat nme" s d] n(3) False by (simp add: sd_def d'_def nat_diff_distrib)
      have dsd: "sd_d sd \<noteq> NO_DIRECTION"
        using gen_pow_dir[OF s, of "sd_of d" "nat nme"] Cons.prems(2) Gn by (simp add: sd_mult_def sd_of_def)
      obtain u where u: "sym_transform rest (sd_d sd) nrest = Some u"
        "sd_d u = sd_d (sym_act rest nrest (sd_of (sd_d sd)))"
        "sd_flipped u = sd_flipped (sym_act rest nrest (sd_of (sd_d sd)))"
        "orders_le2 rest \<Longrightarrow> u = sym_act rest nrest (sd_of (sd_d sd))"
        using Cons.IH[OF rest(1) dsd, of nrest] n(5) nrest by auto
      have code: "sym_transform (s # rest) d n = Some (sd_mult (if sd_flipped sd then flip u else u) (sym_ph s))"
        using False sp n(2,5) g Cons.prems(2) rest(2) inner u(1)
        by (subst sym_transform.simps)
           (simp add: Let_def inner[unfolded d'_def] sd_def[unfolded d'_def, symmetric] del: funpow.simps)
      have act: "sym_act (s # rest) n (sd_of d)
                 = sd_adjust (sd_mult sd (sym_ph s)) (sym_act rest nrest (sd_of (sd_d sd)))"
        by (simp add: nme_def[symmetric] nrest_def[symmetric] Gn del: funpow.simps)
           (subst sym_act_adjust, simp add: sd_mult_def)
      have ph: "orders_le2 (s # rest) \<Longrightarrow> sd_phase sd = 1"
        using ord n(3,4) False by (simp add: sd_def flip_def sd_of_def)
      show ?thesis
        unfolding code act
        using u(2,3) u(4) ord ph sd_mult_flip_phase_one[of sd]
        by (auto simp: sd_mult_def flip_def sd_adjust_def)
    qed
  qed
qed


subsection \<open>Copies of built symmetries\<close>

lemma copy_S_phases_one:
  "list_all (\<lambda>d. sd_phase (old d) = 1 \<and> sd_phase (src d) = 1) all_dirs \<Longrightarrow> copy_S old src = src"
  by (auto simp: fun_eq_iff copy_S_def list_all_iff all_dirs_def)

lemma sym_copy_phases_one: "phases_one ss \<Longrightarrow> sym_copy ss = ss"
  by (induction ss) (simp_all add: phases_one_def copy_S_phases_one list_all_iff all_dirs_def sd_of_def)

lemma phases_one_append [simp]: "phases_one (a @ b) = (phases_one a \<and> phases_one b)"
  by (simp add: phases_one_def)

lemma constructible_phases_one: "constructible ss \<Longrightarrow> phases_one ss"
proof (induction rule: constructible.induct)
  case (constructible_rotate2 a gv s)
  then show ?case by (auto simp: rotate2_def Let_def phases_one_def all_dirs_def sd_of_def flip_def split: if_splits)
next
  case (constructible_rotate4 a gv s)
  then show ?case by (auto simp: rotate4_def Let_def phases_one_def all_dirs_def sd_of_def flip_def split: if_splits)
next
  case (constructible_plus a b)
  then show ?case by (simp add: sym_plus_def)
next
  case (constructible_times a p)
  then show ?case by (auto simp: sym_times_def phases_one_def split: list.split)
qed (simp_all add: identity_def identity_link_def mirror_def r_to_minus_r_symmetry_def phases_one_def all_dirs_def
                   sd_of_def flip_def)

section \<open>Properties\<close>

text \<open>
  C6 (\<open>transform\<close> on a chain, directions and flips).  For a well-formed chain (every
  order at least 1, every \<open>S[d]\<close> a real direction), every real direction \<open>d\<close> and
  every \<open>0 \<le> n < multiplicity()\<close> (the range \<open>reduce\<close>, \<open>is_primitive\<close> and
  \<open>operator==\<close> use), \<open>transform(d, n)\<close> returns, and its direction and flip are those
  of the composed generator powers \<open>sym_act\<close>.
\<close>

theorem transform_in_range:
  assumes "sym_wf ss" and "d \<noteq> NO_DIRECTION" and "0 \<le> n" and "n < multiplicity ss"
  shows "\<exists>t. sym_transform ss d n = Some t
            \<and> sd_d t = sd_d (sym_act ss n (sd_of d)) \<and> sd_flipped t = sd_flipped (sym_act ss n (sd_of d))"
  using transform_chain[OF assms] by blast

theorem transform_in_range_witness:
  "sym_wf (sym_plus (sym_times (the (rotate4 Z (make_grid_volume D3 10 4 4 4))) \<i>) (mirror X (make_grid_volume D3 10 4 4 4)))
   \<and> X \<noteq> NO_DIRECTION \<and> 0 \<le> (6::int) \<and> 6 < multiplicity (sym_plus (sym_times (the (rotate4 Z (make_grid_volume D3 10 4 4 4))) \<i>) (mirror X (make_grid_volume D3 10 4 4 4)))
   \<and> (\<exists>t. sym_transform (sym_plus (sym_times (the (rotate4 Z (make_grid_volume D3 10 4 4 4))) \<i>) (mirror X (make_grid_volume D3 10 4 4 4))) X 6 = Some t
      \<and> sd_d t = sd_d (sym_act (sym_plus (sym_times (the (rotate4 Z (make_grid_volume D3 10 4 4 4))) \<i>) (mirror X (make_grid_volume D3 10 4 4 4))) 6 (sd_of X))
      \<and> sd_flipped t = sd_flipped (sym_act (sym_plus (sym_times (the (rotate4 Z (make_grid_volume D3 10 4 4 4))) \<i>) (mirror X (make_grid_volume D3 10 4 4 4))) 6 (sd_of X)))"
proof -
  have wf: "sym_wf (sym_plus (sym_times (the (rotate4 Z (make_grid_volume D3 10 4 4 4))) \<i>) (mirror X (make_grid_volume D3 10 4 4 4)))"
    and m: "multiplicity (sym_plus (sym_times (the (rotate4 Z (make_grid_volume D3 10 4 4 4))) \<i>) (mirror X (make_grid_volume D3 10 4 4 4))) = 8"
    by (simp_all add: sym_wf_def link_wf_def sym_plus_def sym_times_def rotate4_def mirror_def
                      all_dirs_def dir_of_num_def sd_of_def flip_def)
  show ?thesis using transform_in_range[OF wf, of X 6] wf m by simp
qed

text \<open>
  C7 (\<open>transform\<close> refines the composed generator powers).  When every link but the
  last has order at most 2 (chains of mirrors, 2-fold rotations and
  \<open>r_to_minus_r_symmetry\<close>, in any number), \<open>transform(d, n)\<close> for
  \<open>0 \<le> n < multiplicity()\<close> is exactly the composed action, phase included.
\<close>

theorem transform_refines:
  assumes "sym_wf ss" and "orders_le2 ss" and "d \<noteq> NO_DIRECTION" and "0 \<le> n" and "n < multiplicity ss"
  shows "sym_transform ss d n = Some (sym_act ss n (sd_of d))"
  using transform_chain[OF assms(1,3,4,5)] assms(2) by auto

theorem transform_refines_witness:
  "sym_wf (sym_plus (mirror X (make_grid_volume D3 10 4 4 4)) (sym_times (mirror Y (make_grid_volume D3 10 4 4 4)) (-1))) \<and> orders_le2 (sym_plus (mirror X (make_grid_volume D3 10 4 4 4)) (sym_times (mirror Y (make_grid_volume D3 10 4 4 4)) (-1)))
   \<and> Y \<noteq> NO_DIRECTION \<and> 0 \<le> (3::int) \<and> 3 < multiplicity (sym_plus (mirror X (make_grid_volume D3 10 4 4 4)) (sym_times (mirror Y (make_grid_volume D3 10 4 4 4)) (-1)))
   \<and> sym_transform (sym_plus (mirror X (make_grid_volume D3 10 4 4 4)) (sym_times (mirror Y (make_grid_volume D3 10 4 4 4)) (-1))) Y 3
       = Some (sym_act (sym_plus (mirror X (make_grid_volume D3 10 4 4 4)) (sym_times (mirror Y (make_grid_volume D3 10 4 4 4)) (-1))) 3 (sd_of Y))"
proof -
  have wf: "sym_wf (sym_plus (mirror X (make_grid_volume D3 10 4 4 4)) (sym_times (mirror Y (make_grid_volume D3 10 4 4 4)) (-1)))"
    and o: "orders_le2 (sym_plus (mirror X (make_grid_volume D3 10 4 4 4)) (sym_times (mirror Y (make_grid_volume D3 10 4 4 4)) (-1)))"
    and m: "multiplicity (sym_plus (mirror X (make_grid_volume D3 10 4 4 4)) (sym_times (mirror Y (make_grid_volume D3 10 4 4 4)) (-1))) = 4"
    by (simp_all add: sym_wf_def link_wf_def orders_le2_def sym_plus_def sym_times_def mirror_def
                      all_dirs_def sd_of_def flip_def)
  show ?thesis using transform_refines[OF wf o, of Y 3] wf o m by simp
qed

text \<open>
  A phase lost on a chain whose head has order above 2.  The hypothesis of C7 is
  needed: for \<open>rotate4(Z)*i + mirror(X)\<close> and \<open>n = 6\<close> (head power 2, tail power 1),
  \<open>transform(X, 6)\<close> returns phase \<open>i\<close>, where the composed action has \<open>i\<^sup>2 = -1\<close>.
  In the branch \<open>next && nrest\<close> the code multiplies the tail's result by \<open>ph\<close> once
  and drops the phase \<open>ph\<^sup>n\<^sup>m\<^sup>e\<^sup>-\<^sup>1\<close> accumulated in \<open>sd\<close>.
\<close>

theorem transform_chain_phase_lost:
  "sym_transform (sym_plus (sym_times (the (rotate4 Z (make_grid_volume D3 10 4 4 4))) \<i>) (mirror X (make_grid_volume D3 10 4 4 4))) X 6
     = Some \<lparr>sd_d = X, sd_flipped = False, sd_phase = \<i>\<rparr>
   \<and> sym_act (sym_plus (sym_times (the (rotate4 Z (make_grid_volume D3 10 4 4 4))) \<i>) (mirror X (make_grid_volume D3 10 4 4 4))) 6 (sd_of X)
     = \<lparr>sd_d = X, sd_flipped = False, sd_phase = -1\<rparr>"
  by code_simp

text \<open>
  C9 (no periodicity at the multiplicity).  For every well-formed chain and real
  direction, \<open>transform(d, multiplicity())\<close> does not return: the power left for the
  last link is 1 and its \<open>next\<close> is null.  So \<open>transform(d, n) = transform(d, n + g)\<close>
  fails already at \<open>n = 0\<close>.
\<close>

theorem transform_at_multiplicity:
  assumes "sym_wf ss" and "d \<noteq> NO_DIRECTION"
  shows "sym_transform ss d (multiplicity ss) = None"
  using assms
proof (induction ss)
  case Nil
  then show ?case by (simp add: sym_wf_def)
next
  case (Cons s rest)
  have g: "1 \<le> sym_g s" using Cons.prems(1) by (simp add: sym_wf_cons link_wf_def)
  show ?case
  proof (cases "rest = []")
    case True
    have "split_power (sym_g s) (sym_g s) = (0, 1)" using g by (simp add: split_power_def)
    with True g Cons.prems(2) show ?thesis
      by (subst sym_transform.simps) (simp add: sym_transform.simps[of "[]"])
  next
    case False
    then have rest: "sym_wf rest" using Cons.prems(1) by (simp add: sym_wf_cons)
    have m: "1 \<le> multiplicity rest" using multiplicity_pos[OF rest] by simp
    have "split_power (sym_g s) (sym_g s * multiplicity rest) = (0, multiplicity rest)"
      using g m by (simp add: split_power_def)
    with False g m Cons.prems(2) Cons.IH[OF rest Cons.prems(2)] show ?thesis
      by (subst sym_transform.simps) simp
  qed
qed

theorem transform_at_multiplicity_witness:
  "sym_wf (mirror X (make_grid_volume D3 10 4 4 4)) \<and> X \<noteq> NO_DIRECTION \<and> sym_transform (mirror X (make_grid_volume D3 10 4 4 4)) X (multiplicity (mirror X (make_grid_volume D3 10 4 4 4))) = None"
proof -
  have wf: "sym_wf (mirror X (make_grid_volume D3 10 4 4 4))"
    by (simp add: sym_wf_def link_wf_def mirror_def all_dirs_def sd_of_def flip_def)
  show ?thesis using transform_at_multiplicity[OF wf, of X] wf by simp
qed


text \<open>On every symmetry the program builds, the copy constructor and the
  assignment from such a symmetry reproduce it exactly, although they copy only the
  direction and the flip of each \<open>S[d]\<close>: every \<open>S[d]\<close> of a built symmetry has
  phase 1, an invariant of the constructors and operators.\<close>

theorem constructible_copy:
  assumes "constructible a" and "constructible b"
  shows "sym_copy b = b \<and> sym_assign (hd a) b = b"
proof -
  have pa: "phases_one a" and pb: "phases_one b" using assms by (simp_all add: constructible_phases_one)
  have ne: "a \<noteq> []" using assms(1) by (induction rule: constructible.induct)
    (auto simp: identity_def mirror_def rotate2_def rotate4_def r_to_minus_r_symmetry_def sym_plus_def sym_times_def
                Let_def split: if_splits list.split)
  have "sym_assign (hd a) b = b"
  proof (cases b)
    case (Cons s rest)
    then show ?thesis using pa pb ne
      by (cases a) (simp_all add: phases_one_def copy_S_phases_one sym_copy_phases_one list_all_iff all_dirs_def)
  qed simp
  then show ?thesis using sym_copy_phases_one[OF pb] by simp
qed

theorem constructible_copy_witness:
  "constructible (mirror X (make_grid_volume D2 10 4 4 0))
   \<and> constructible (sym_plus (mirror X (make_grid_volume D2 10 4 4 0)) (mirror Y (make_grid_volume D2 10 4 4 0)))
   \<and> sym_copy (sym_plus (mirror X (make_grid_volume D2 10 4 4 0)) (mirror Y (make_grid_volume D2 10 4 4 0)))
       = sym_plus (mirror X (make_grid_volume D2 10 4 4 0)) (mirror Y (make_grid_volume D2 10 4 4 0))
   \<and> sym_assign (hd (mirror X (make_grid_volume D2 10 4 4 0)))
       (sym_plus (mirror X (make_grid_volume D2 10 4 4 0)) (mirror Y (make_grid_volume D2 10 4 4 0)))
       = sym_plus (mirror X (make_grid_volume D2 10 4 4 0)) (mirror Y (make_grid_volume D2 10 4 4 0))"
proof -
  have a: "constructible (mirror X (make_grid_volume D2 10 4 4 0))" by (rule constructible_mirror)
  have b: "constructible (sym_plus (mirror X (make_grid_volume D2 10 4 4 0)) (mirror Y (make_grid_volume D2 10 4 4 0)))"
    by (intro constructible_plus constructible_mirror)
  show ?thesis using constructible_copy[OF a b] a b by simp
qed




end
