(* ===== verification/Volume.thy ===== *)
theory Volume
  imports GridVolume
begin

text \<open>
  Continuous boxes of \<open>src/vec.cpp\<close> (class \<open>volume\<close>, lines 158-255 and 353-363) and
  the members of \<open>grid_volume\<close> that produce or test them (\<open>contains(vec)\<close>,
  \<open>surroundings\<close>, \<open>interior\<close>, \<open>empty_volume\<close>, \<open>dV\<close>, \<open>corner\<close>).  A volume is a
  record of its dimensionality and its two corners.  The accessors of \<open>meep/vec.hpp\<close>
  (\<open>in_direction_min\<close>, \<open>in_direction_max\<close>, \<open>in_direction\<close>, \<open>set_direction_min\<close>,
  \<open>set_direction_max\<close>) read and write the corner coordinates.  The constructor
  \<open>volume(ndim)\<close> leaves the corner coordinates uninitialised; every operation below
  writes all active coordinates before reading them, and the model starts them at 0.
\<close>

section \<open>The record and its accessors (\<open>meep/vec.hpp\<close>)\<close>

record volume =
  vol_dim :: ndim
  min_corner :: vec
  max_corner :: vec

definition in_direction_min :: "volume \<Rightarrow> direction \<Rightarrow> real" where
  "in_direction_min v d = vv (min_corner v) d"

definition in_direction_max :: "volume \<Rightarrow> direction \<Rightarrow> real" where
  "in_direction_max v d = vv (max_corner v) d"

definition in_direction :: "volume \<Rightarrow> direction \<Rightarrow> real" where
  "in_direction v d = in_direction_max v d - in_direction_min v d"

definition set_direction_min :: "volume \<Rightarrow> direction \<Rightarrow> real \<Rightarrow> volume" where
  "set_direction_min v d x = v\<lparr>min_corner := vec_set (min_corner v) d x\<rparr>"

definition set_direction_max :: "volume \<Rightarrow> direction \<Rightarrow> real \<Rightarrow> volume" where
  "set_direction_max v d x = v\<lparr>max_corner := vec_set (max_corner v) d x\<rparr>"

definition vol_blank :: "ndim \<Rightarrow> volume" where
  "vol_blank dm = \<lparr>vol_dim = dm, min_corner = zero_vec dm, max_corner = zero_vec dm\<rparr>"

section \<open>Constructors and measures (lines 158-196)\<close>

text \<open>\<open>volume(vec1, vec2)\<close>: the corners are ordered axis by axis.\<close>

definition volume_of :: "vec \<Rightarrow> vec \<Rightarrow> volume" where
  "volume_of v1 v2 = \<lparr>vol_dim = vdim v1, min_corner = vec_min v1 v2, max_corner = vec_max v1 v2\<rparr>"

definition volume_pt :: "vec \<Rightarrow> volume" where
  "volume_pt pt = \<lparr>vol_dim = vdim pt, min_corner = pt, max_corner = pt\<rparr>"

definition computational_volume :: "volume \<Rightarrow> real" where
  "computational_volume v = fold (\<lambda>d vol. vol * in_direction v d) (loop_dirs (vol_dim v)) 1"

definition integral_volume :: "volume \<Rightarrow> real" where
  "integral_volume v =
     (let vol = fold (\<lambda>d vol. if in_direction v d \<noteq> 0 then vol * in_direction v d else vol)
                     (loop_dirs (vol_dim v)) 1
      in if vol_dim v = Dcyl then vol * (pi * (in_direction_max v R + in_direction_min v R)) else vol)"

definition full_volume :: "volume \<Rightarrow> real" where
  "full_volume v =
     (let vol = computational_volume v
      in if vol_dim v = Dcyl then vol * (pi * (in_direction_max v R + in_direction_min v R)) else vol)"

definition diameter :: "volume \<Rightarrow> real" where
  "diameter v = fold (\<lambda>d diam. max diam (in_direction v d)) (loop_dirs (vol_dim v)) 0"

section \<open>Intersection and containment (lines 198-223, 353-363)\<close>

text \<open>
  The loop of \<open>intersect_with\<close>: on the first axis where the clamped interval is empty
  it returns the degenerate volume at the origin.
\<close>

fun intersect_loop :: "volume \<Rightarrow> volume \<Rightarrow> direction list \<Rightarrow> volume \<Rightarrow> volume" where
  "intersect_loop v a [] r = r"
| "intersect_loop v a (d # ds) r =
     (let minval = max (in_direction_min v d) (in_direction_min a d);
          maxval = min (in_direction_max v d) (in_direction_max a d)
      in if minval > maxval then volume_of (zero_vec (vol_dim v)) (zero_vec (vol_dim v))
         else intersect_loop v a ds (set_direction_max (set_direction_min r d minval) d maxval))"

text \<open>\<open>volume::intersect_with\<close>; volumes of different dimensionality abort.\<close>

definition vol_intersect_with :: "volume \<Rightarrow> volume \<Rightarrow> volume option" where
  "vol_intersect_with v a =
     (if vol_dim a \<noteq> vol_dim v then None
      else Some (intersect_loop v a (loop_dirs (vol_dim v)) (vol_blank (vol_dim v))))"

definition vol_intersects :: "volume \<Rightarrow> volume \<Rightarrow> bool option" where
  "vol_intersects v a =
     (if vol_dim a \<noteq> vol_dim v then None
      else Some (list_all (\<lambda>d. \<not> max (in_direction_min v d) (in_direction_min a d)
                                    > min (in_direction_max v d) (in_direction_max a d))
                          (loop_dirs (vol_dim v))))"

text \<open>\<open>volume::contains(vec)\<close> and \<open>volume::contains(volume)\<close>: inclusive bounds.\<close>

definition vol_contains :: "volume \<Rightarrow> vec \<Rightarrow> bool" where
  "vol_contains v p =
     list_all (\<lambda>d. \<not> (vv p d > in_direction_max v d \<or> vv p d < in_direction_min v d))
              (loop_dirs (vol_dim v))"

definition vol_contains_vol :: "volume \<Rightarrow> volume \<Rightarrow> bool" where
  "vol_contains_vol v a = (vol_contains v (min_corner a) \<and> vol_contains v (max_corner a))"

text \<open>\<open>volume::normal_direction\<close>, lines 225-255.\<close>

definition normal_direction :: "volume \<Rightarrow> direction" where
  "normal_direction v =
     (case vol_dim v of
        D1 \<Rightarrow> Z
      | D2 \<Rightarrow> (if in_direction v X = 0 \<and> in_direction v Y > 0 then X
               else if in_direction v X > 0 \<and> in_direction v Y = 0 then Y
               else NO_DIRECTION)
      | Dcyl \<Rightarrow> (if in_direction v R = 0 \<and> in_direction v Z > 0 then R
                 else if in_direction v R > 0 \<and> in_direction v Z = 0 then Z
                 else NO_DIRECTION)
      | D3 \<Rightarrow> (let zx = (in_direction v X = 0); zy = (in_direction v Y = 0); zz = (in_direction v Z = 0)
               in if zx \<and> \<not> zy \<and> \<not> zz then X
                  else if \<not> zx \<and> zy \<and> \<not> zz then Y
                  else if \<not> zx \<and> \<not> zy \<and> zz then Z
                  else NO_DIRECTION))"

section \<open>Volumes of a \<open>grid_volume\<close>\<close>

text \<open>\<open>grid_volume::contains(vec)\<close>, lines 375-383: within half a cell of the stored range.\<close>

definition gv_contains_v :: "grid_volume \<Rightarrow> vec \<Rightarrow> bool" where
  "gv_contains_v gv p =
     (let off = vec_minus p (origin gv)
      in list_all (\<lambda>d. \<not> (vv off d < - inva gv \<or> vv off d > of_int (num_direction gv d) * inva gv + inva gv))
                  (loop_dirs (gdim gv)))"

text \<open>\<open>surroundings()\<close> and \<open>interior()\<close> (lines 285-293): \<open>little_corner()\<close> is \<open>io\<close>
  and \<open>operator[]\<close> is the lattice map \<open>lattice_vec\<close>.\<close>

definition surroundings :: "grid_volume \<Rightarrow> volume" where
  "surroundings gv = volume_of (lattice_vec gv (io gv)) (lattice_vec gv (big_corner gv))"

definition interior :: "grid_volume \<Rightarrow> volume" where
  "interior gv =
     volume_of (lattice_vec gv (io gv))
               (lattice_vec gv (ivec_minus (big_corner gv) (ivec_scale (one_ivec (gdim gv)) 2)))"

definition empty_volume :: "ndim \<Rightarrow> volume" where
  "empty_volume dm =
     fold (\<lambda>d out. set_direction_min (set_direction_max out d 0) d 0) (loop_dirs dm) (vol_blank dm)"

text \<open>\<open>dV(here, diameter)\<close>, lines 629-642: the box of side \<open>diameter\<close> cells centred at
  \<open>here\<close>, cut at the axis of a cylinder.\<close>

definition dV_at :: "grid_volume \<Rightarrow> ivec \<Rightarrow> real \<Rightarrow> volume" where
  "dV_at gv here diam =
     (let hinva = 1 / 2 * inva gv * diam;
          h = lattice_vec gv here;
          out = fold (\<lambda>d out. set_direction_min (set_direction_max out d (vv h d + hinva)) d (vv h d - hinva))
                     (loop_dirs (gdim gv)) (vol_blank (gdim gv))
      in if gdim gv = Dcyl \<and> iv here R = 0 then set_direction_min out R 0 else out)"

text \<open>\<open>dV(c, ind)\<close>, lines 644-647, with the default diameter 1.\<close>

definition dV :: "grid_volume \<Rightarrow> component \<Rightarrow> int \<Rightarrow> volume option" where
  "dV gv c ind =
     Option.bind (iloc gv c ind)
       (\<lambda>p. Some (if \<not> owns gv p then empty_volume (gdim gv) else dV_at gv p 1))"

text \<open>\<open>corner(b)\<close>, lines 736-742.\<close>

definition corner :: "grid_volume \<Rightarrow> boundary_side \<Rightarrow> vec" where
  "corner gv b =
     (if b = Low then origin gv
      else fold (\<lambda>d tmp. vec_set tmp d (vv tmp d + of_int (num_direction gv d) * inva gv))
                (loop_dirs (gdim gv)) (origin gv))"

section \<open>Invariant and helpers of the proofs\<close>

text \<open>A volume is well-formed when its corners are ordered on every active axis, as the
  constructor \<open>volume(vec1, vec2)\<close> guarantees.\<close>

definition vol_wf :: "volume \<Rightarrow> bool" where
  "vol_wf v = list_all (\<lambda>d. in_direction_min v d \<le> in_direction_max v d) (loop_dirs (vol_dim v))"

text \<open>The clamped interval of two volumes on axis \<open>d\<close> is not empty.\<close>

definition clamp_ok :: "volume \<Rightarrow> volume \<Rightarrow> direction \<Rightarrow> bool" where
  "clamp_ok v a d = (\<not> max (in_direction_min v d) (in_direction_min a d) > min (in_direction_max v d) (in_direction_max a d))"

section \<open>Lemmas\<close>

lemma set_direction_simps [simp]:
  "vol_dim (set_direction_min v d x) = vol_dim v" "vol_dim (set_direction_max v d x) = vol_dim v"
  "in_direction_min (set_direction_min v d x) d' = (if d' = d then x else in_direction_min v d')"
  "in_direction_max (set_direction_min v d x) d' = in_direction_max v d'"
  "in_direction_max (set_direction_max v d x) d' = (if d' = d then x else in_direction_max v d')"
  "in_direction_min (set_direction_max v d x) d' = in_direction_min v d'"
  by (simp_all add: set_direction_min_def set_direction_max_def in_direction_min_def in_direction_max_def vec_set_def)

lemma intersect_loop_ok:
  assumes "list_all (clamp_ok v a) ds" and "distinct ds"
  shows "vol_dim (intersect_loop v a ds r) = vol_dim r
         \<and> (\<forall>d. in_direction_min (intersect_loop v a ds r) d
                 = (if d \<in> set ds then max (in_direction_min v d) (in_direction_min a d) else in_direction_min r d))
         \<and> (\<forall>d. in_direction_max (intersect_loop v a ds r) d
                 = (if d \<in> set ds then min (in_direction_max v d) (in_direction_max a d) else in_direction_max r d))"
  using assms by (induction ds arbitrary: r) (auto simp: clamp_ok_def Let_def)

lemma intersect_loop_empty:
  "\<not> list_all (clamp_ok v a) ds \<Longrightarrow> intersect_loop v a ds r = volume_of (zero_vec (vol_dim v)) (zero_vec (vol_dim v))"
  by (induction ds arbitrary: r) (auto simp: clamp_ok_def Let_def)

lemma vol_intersects_clamp:
  "vol_intersects v a = (if vol_dim a \<noteq> vol_dim v then None else Some (list_all (clamp_ok v a) (loop_dirs (vol_dim v))))"
  by (simp add: vol_intersects_def clamp_ok_def[abs_def])

lemma in_direction_nonneg: "vol_wf v \<Longrightarrow> has_direction (vol_dim v) d \<Longrightarrow> 0 \<le> in_direction v d"
  by (simp add: vol_wf_def in_direction_def list_all_iff has_direction_def)

lemma big_corner_dim [simp]: "ivdim (big_corner gv) = ivdim (io gv)"
  by (cases "gdim gv") (simp_all add: big_corner_def ivec_plus_def)

lemma big_corner_iv:
  assumes "gv_wf gv" and "has_direction (gdim gv) d"
  shows "iv (big_corner gv) d = iv (io gv) d + num_direction gv d * 2 \<and> ivdim (big_corner gv) = gdim gv"
proof -
  have "ivdim (io gv) = gdim gv" using assms(1) by (simp add: gv_wf_def)
  then show ?thesis
    using assms(2)
    by (cases "gdim gv"; cases d)
       (simp_all add: big_corner_def ivec_plus_def ivec_scale_def ivec1_def ivec2_def ivec3_def iveccyl_def
                      nx_def ny_def nz_def nr_def num_direction_def)
qed

section \<open>Properties\<close>

text \<open>
  C14 (\<open>intersect_with\<close> is the intersection).  For volumes of the same
  dimensionality that intersect, \<open>intersect_with\<close> returns a volume of that
  dimensionality containing exactly the points contained in both.
\<close>

theorem vol_intersect_glb:
  assumes "vol_dim a = vol_dim v" and "vol_intersects v a = Some True"
  shows "\<exists>r. vol_intersect_with v a = Some r \<and> vol_dim r = vol_dim v
             \<and> (\<forall>p. vol_contains r p \<longleftrightarrow> vol_contains v p \<and> vol_contains a p)"
proof -
  let ?r = "intersect_loop v a (loop_dirs (vol_dim v)) (vol_blank (vol_dim v))"
  have ok: "list_all (clamp_ok v a) (loop_dirs (vol_dim v))" using assms by (simp add: vol_intersects_clamp)
  note r = intersect_loop_ok[OF ok loop_dirs_distinct, of "vol_blank (vol_dim v)"]
  have "vol_contains ?r p \<longleftrightarrow> vol_contains v p \<and> vol_contains a p" for p
    using r assms(1) by (auto simp: vol_contains_def list_all_iff vol_blank_def less_max_iff_disj min_less_iff_disj)
  then show ?thesis using assms(1) r by (simp add: vol_intersect_with_def vol_blank_def)
qed

theorem vol_intersect_glb_witness:
  "vol_dim (volume_of (vec2 1 (-1)) (vec2 3 0.5)) = vol_dim (volume_of (vec2 0 0) (vec2 2 1)) \<and> vol_intersects (volume_of (vec2 0 0) (vec2 2 1)) (volume_of (vec2 1 (-1)) (vec2 3 0.5)) = Some True
   \<and> (\<exists>r. vol_intersect_with (volume_of (vec2 0 0) (vec2 2 1)) (volume_of (vec2 1 (-1)) (vec2 3 0.5)) = Some r \<and> vol_dim r = vol_dim (volume_of (vec2 0 0) (vec2 2 1))
          \<and> (\<forall>p. vol_contains r p \<longleftrightarrow> vol_contains (volume_of (vec2 0 0) (vec2 2 1)) p \<and> vol_contains (volume_of (vec2 1 (-1)) (vec2 3 0.5)) p))"
proof -
  have d: "vol_dim (volume_of (vec2 1 (-1)) (vec2 3 0.5)) = vol_dim (volume_of (vec2 0 0) (vec2 2 1))" and i: "vol_intersects (volume_of (vec2 0 0) (vec2 2 1)) (volume_of (vec2 1 (-1)) (vec2 3 0.5)) = Some True"
    by (simp_all add: volume_of_def vec2_def vol_intersects_def in_direction_min_def in_direction_max_def
                      vec_min_def vec_max_def)
  show ?thesis using vol_intersect_glb[OF d i] d i by simp
qed

text \<open>
  Disjoint volumes give the degenerate box, not an error.  For volumes of the
  same dimensionality that do not intersect, \<open>intersect_with\<close> returns the volume
  whose corners are both the origin.
\<close>

theorem vol_intersect_disjoint:
  assumes "vol_dim a = vol_dim v" and "vol_intersects v a = Some False"
  shows "vol_intersect_with v a = Some (volume_of (zero_vec (vol_dim v)) (zero_vec (vol_dim v)))"
  using assms intersect_loop_empty by (simp add: vol_intersect_with_def vol_intersects_clamp)


theorem vol_intersect_disjoint_witness:
  "vol_dim (volume_of (vec2 3 0) (vec2 4 1)) = vol_dim (volume_of (vec2 0 0) (vec2 2 1)) \<and> vol_intersects (volume_of (vec2 0 0) (vec2 2 1)) (volume_of (vec2 3 0) (vec2 4 1)) = Some False
   \<and> vol_intersect_with (volume_of (vec2 0 0) (vec2 2 1)) (volume_of (vec2 3 0) (vec2 4 1)) = Some (volume_of (zero_vec (vol_dim (volume_of (vec2 0 0) (vec2 2 1)))) (zero_vec (vol_dim (volume_of (vec2 0 0) (vec2 2 1)))))"
proof -
  have d: "vol_dim (volume_of (vec2 3 0) (vec2 4 1)) = vol_dim (volume_of (vec2 0 0) (vec2 2 1))" and i: "vol_intersects (volume_of (vec2 0 0) (vec2 2 1)) (volume_of (vec2 3 0) (vec2 4 1)) = Some False"
    by (simp_all add: volume_of_def vec2_def vol_intersects_def in_direction_min_def in_direction_max_def
                      vec_min_def vec_max_def)
  show ?thesis using vol_intersect_disjoint[OF d i] d i by simp
qed

text \<open>
  C16 (\<open>intersects\<close> tests for a common point).  For volumes of the same
  dimensionality, \<open>intersects\<close> answers true exactly when some point is contained in
  both.
\<close>

theorem vol_intersects_common_point:
  assumes "vol_dim a = vol_dim v"
  shows "vol_intersects v a = Some True \<longleftrightarrow> (\<exists>p. vol_contains v p \<and> vol_contains a p)"
proof
  assume "vol_intersects v a = Some True"
  then obtain r where "vol_intersect_with v a = Some r"
    and r: "\<forall>p. vol_contains r p \<longleftrightarrow> vol_contains v p \<and> vol_contains a p"
    using vol_intersect_glb[OF assms] by blast
  let ?p = "mk_vec (vol_dim v) (\<lambda>d. max (in_direction_min v d) (in_direction_min a d))"
  have "vol_contains v ?p \<and> vol_contains a ?p"
    using \<open>vol_intersects v a = Some True\<close> assms
    by (auto simp: vol_contains_def vol_intersects_def list_all_iff has_direction_def)
  then show "\<exists>p. vol_contains v p \<and> vol_contains a p" by blast
next
  assume "\<exists>p. vol_contains v p \<and> vol_contains a p"
  then obtain p where "vol_contains v p" "vol_contains a p" by blast
  then have "\<not> min (in_direction_max v d) (in_direction_max a d) < max (in_direction_min v d) (in_direction_min a d)"
    if "d \<in> set (loop_dirs (vol_dim v))" for d
  proof -
    have "in_direction_min v d \<le> vv p d" "vv p d \<le> in_direction_max v d"
         "in_direction_min a d \<le> vv p d" "vv p d \<le> in_direction_max a d"
      using that assms \<open>vol_contains v p\<close> \<open>vol_contains a p\<close>
      by (simp_all add: vol_contains_def list_all_iff not_less)
    then show ?thesis by (simp add: not_less)
  qed
  then show "vol_intersects v a = Some True"
    using assms by (simp add: vol_intersects_def list_all_iff)
qed

theorem vol_intersects_common_point_witness:
  "vol_dim (volume_of (vec2 1 (-1)) (vec2 3 0.5)) = vol_dim (volume_of (vec2 0 0) (vec2 2 1)) \<and> (vol_intersects (volume_of (vec2 0 0) (vec2 2 1)) (volume_of (vec2 1 (-1)) (vec2 3 0.5)) = Some True \<longleftrightarrow> (\<exists>p. vol_contains (volume_of (vec2 0 0) (vec2 2 1)) p \<and> vol_contains (volume_of (vec2 1 (-1)) (vec2 3 0.5)) p))"
proof -
  have d: "vol_dim (volume_of (vec2 1 (-1)) (vec2 3 0.5)) = vol_dim (volume_of (vec2 0 0) (vec2 2 1))" by (simp add: volume_of_def vec2_def)
  show ?thesis using vol_intersects_common_point[OF d] d by simp
qed

text \<open>
  C17 (\<open>normal_direction\<close> in 2D, 3D and cylindrical coordinates).  For a
  well-formed volume of dimensionality other than 1D, \<open>normal_direction\<close> returns a
  direction \<open>d\<close> exactly when \<open>d\<close> is active, the extent along \<open>d\<close> is zero, and the
  extent along every other active direction is positive.
\<close>

theorem normal_direction_codim1:
  assumes "vol_wf v" and "vol_dim v \<noteq> D1"
  shows "(normal_direction v = d \<and> d \<noteq> NO_DIRECTION)
         \<longleftrightarrow> has_direction (vol_dim v) d \<and> in_direction v d = 0
             \<and> list_all (\<lambda>d'. d' = d \<or> 0 < in_direction v d') (loop_dirs (vol_dim v))"
  using assms in_direction_nonneg[OF assms(1)]
  by (cases "vol_dim v"; cases d) (auto simp: normal_direction_def Let_def less_le)


theorem normal_direction_codim1_witness:
  "vol_wf (volume_of (vec2 0 0) (vec2 0 1)) \<and> vol_dim (volume_of (vec2 0 0) (vec2 0 1)) \<noteq> D1
   \<and> ((normal_direction (volume_of (vec2 0 0) (vec2 0 1)) = X \<and> X \<noteq> NO_DIRECTION)
      \<longleftrightarrow> has_direction (vol_dim (volume_of (vec2 0 0) (vec2 0 1))) X
          \<and> in_direction (volume_of (vec2 0 0) (vec2 0 1)) X = 0
          \<and> list_all (\<lambda>d'. d' = X \<or> 0 < in_direction (volume_of (vec2 0 0) (vec2 0 1)) d')
                    (loop_dirs (vol_dim (volume_of (vec2 0 0) (vec2 0 1)))))"
proof -
  have w: "vol_wf (volume_of (vec2 0 0) (vec2 0 1))" and d: "vol_dim (volume_of (vec2 0 0) (vec2 0 1)) \<noteq> D1"
    by (simp_all add: vol_wf_def volume_of_def vec2_def in_direction_min_def in_direction_max_def
                      vec_min_def vec_max_def)
  show ?thesis using normal_direction_codim1[OF w d, of X] w d by simp
qed

text \<open>
  \<open>normal_direction\<close> in 1D.  The specification returns a direction only for a
  volume of codimension 1; in 1D the code returns \<open>Z\<close> for every volume, also for a
  segment of length 1.
\<close>

theorem normal_direction_D1:
  "normal_direction (volume_of (mk_vec D1 (\<lambda>_. 0)) (mk_vec D1 (\<lambda>_. 1))) = Z
   \<and> in_direction (volume_of (mk_vec D1 (\<lambda>_. 0)) (mk_vec D1 (\<lambda>_. 1))) Z = 1"
  by (simp add: normal_direction_def volume_of_def in_direction_def in_direction_min_def
                in_direction_max_def vec_min_def vec_max_def)

text \<open>
  The containment example of the specification.  The volume with corners
  \<open>(0, 0)\<close> and \<open>(2, 1)\<close> contains \<open>(0, 0)\<close>, \<open>(2, 1)\<close> and \<open>(1, 0.5)\<close>, and not
  \<open>(2.0001, 0.5)\<close> or \<open>(-0.0001, 0.5)\<close>: the bounds are inclusive.
\<close>

lemma vol_contains_example:
  "vol_contains (volume_of (vec2 0 0) (vec2 2 1)) (vec2 0 0) \<and> vol_contains (volume_of (vec2 0 0) (vec2 2 1)) (vec2 2 1) \<and> vol_contains (volume_of (vec2 0 0) (vec2 2 1)) (vec2 1 0.5)
   \<and> \<not> vol_contains (volume_of (vec2 0 0) (vec2 2 1)) (vec2 2.0001 0.5) \<and> \<not> vol_contains (volume_of (vec2 0 0) (vec2 2 1)) (vec2 (-0.0001) 0.5)"
  by (simp add: vol_contains_def volume_of_def vec2_def in_direction_min_def in_direction_max_def
                vec_min_def vec_max_def)

text \<open>
  C20 (owned points lie in \<open>surroundings()\<close>).  For a well-formed descriptor, the
  continuous position of every lattice point it owns lies in the box
  \<open>surroundings()\<close> spanned by \<open>io\<close> and \<open>big_corner()\<close>.
\<close>

theorem owned_in_surroundings:
  assumes wf: "gv_wf gv" and o: "owns gv p" and dm: "ivdim p = gdim gv"
  shows "vol_contains (surroundings gv) (lattice_vec gv p)"
proof -
  have s: "0 < inva gv / 2" using wf by (simp add: gv_wf_def)
  have io: "ivdim (io gv) = gdim gv" using wf by (simp add: gv_wf_def)
  have ax: "iv (io gv) d \<le> iv p d \<and> iv p d \<le> iv (big_corner gv) d" if "d \<in> set (loop_dirs (gdim gv))" for d
    using owns_offsets[OF wf o] big_corner_iv[OF wf, of d] that dm
    by (auto simp: list_all_iff ivec_minus_def has_direction_def)
  let ?s = "inva gv / 2"
  have "min (of_int (iv (io gv) d) * ?s) (of_int (iv (big_corner gv) d) * ?s) \<le> of_int (iv p d) * ?s
        \<and> of_int (iv p d) * ?s \<le> max (of_int (iv (io gv) d) * ?s) (of_int (iv (big_corner gv) d) * ?s)"
    if "d \<in> set (loop_dirs (gdim gv))" for d
    using ax[OF that] s by (simp add: mult_right_mono min.coboundedI1 max.coboundedI2)
  then show ?thesis
    using io dm
    by (simp add: vol_contains_def surroundings_def volume_of_def lattice_vec_def ivec_to_vec_def
                  vec_min_def vec_max_def in_direction_min_def in_direction_max_def list_all_iff
                  has_direction_def not_less mult.commute)
qed

theorem owned_in_surroundings_witness:
  "gv_wf (make_grid_volume D2 10 4 5 0) \<and> owns (make_grid_volume D2 10 4 5 0) (ivec2 3 4) \<and> ivdim (ivec2 3 4) = gdim (make_grid_volume D2 10 4 5 0)
   \<and> vol_contains (surroundings (make_grid_volume D2 10 4 5 0)) (lattice_vec (make_grid_volume D2 10 4 5 0) (ivec2 3 4))"
proof -
  have wf: "gv_wf (make_grid_volume D2 10 4 5 0)" by (rule make_grid_volume_wf) simp_all
  have o: "owns (make_grid_volume D2 10 4 5 0) (ivec2 3 4)"
    by (simp add: owns_def make_grid_volume_def set_origin_v_def set_origin_i_def round_vec_def
                  ivec2_def ivec_minus_def zero_vec_def gv_defs)
  have d: "ivdim (ivec2 3 4) = gdim (make_grid_volume D2 10 4 5 0)"
    by (simp add: ivec2_def make_grid_volume_def set_origin_v_def set_origin_i_def gv_defs)
  show ?thesis using wf o d owned_in_surroundings[OF wf o d] by simp
qed

end
