(* ===== verification/SymmetryOps.thy ===== *)
theory SymmetryOps
  imports Symmetry Volume
begin

text \<open>
  The operations of \<open>symmetry\<close> built on \<open>transform(direction, n)\<close>
  (\<open>src/vec.cpp\<close>, lines 1154-1167 and 1228-1347): the images of lattice points,
  continuous points, volumes and components, the phase a field component picks up
  (\<open>phase_shift\<close>), the canonical-representative test \<open>is_primitive\<close> and
  \<open>operator==\<close>.  Every one of them calls \<open>transform(d, n)\<close>, whose \<open>None\<close> (a null
  dereference) they pass on.  The fixed points are those of the head of the chain.
\<close>

section \<open>Images of points, volumes and components\<close>

text \<open>One step of the loop of \<open>transform(const ivec &ov, int n)\<close>: the coordinate along
  \<open>d\<close>, taken relative to the integer fixed point, lands on \<open>s.d\<close>, negated when
  flipped.\<close>

fun transform_ivec_loop :: "symmetry \<Rightarrow> ivec \<Rightarrow> ivec \<Rightarrow> int \<Rightarrow> direction list \<Rightarrow> ivec \<Rightarrow> ivec option" where
  "transform_ivec_loop ss sp ov n [] out = Some out"
| "transform_ivec_loop ss sp ov n (d # ds) out =
     Option.bind (sym_transform ss d n) (\<lambda>s.
       let sp_d = iv sp d; sp_sd = iv sp (sd_d s); delta = iv ov d - sp_d
       in transform_ivec_loop ss sp ov n ds
            (ivec_set out (sd_d s) (if sd_flipped s then sp_sd - delta else sp_sd + delta)))"

definition transform_ivec :: "symmetry \<Rightarrow> ivec \<Rightarrow> int \<Rightarrow> ivec option" where
  "transform_ivec ss ov n =
     (if n = 0 then Some ov
      else case ss of [] \<Rightarrow> None
           | s # _ \<Rightarrow> transform_ivec_loop ss (sym_ipoint s) ov n (loop_dirs (ivdim ov)) ov)"

fun transform_unshifted_loop :: "symmetry \<Rightarrow> ivec \<Rightarrow> int \<Rightarrow> direction list \<Rightarrow> ivec \<Rightarrow> ivec option" where
  "transform_unshifted_loop ss ov n [] out = Some out"
| "transform_unshifted_loop ss ov n (d # ds) out =
     Option.bind (sym_transform ss d n) (\<lambda>s.
       transform_unshifted_loop ss ov n ds
         (ivec_set out (sd_d s) (if sd_flipped s then - iv ov d else iv ov d)))"

definition transform_unshifted :: "symmetry \<Rightarrow> ivec \<Rightarrow> int \<Rightarrow> ivec option" where
  "transform_unshifted ss ov n =
     (if n = 0 then Some ov else transform_unshifted_loop ss ov n (loop_dirs (ivdim ov)) (zero_ivec (ivdim ov)))"

fun transform_vec_loop :: "symmetry \<Rightarrow> vec \<Rightarrow> vec \<Rightarrow> int \<Rightarrow> direction list \<Rightarrow> vec \<Rightarrow> vec option" where
  "transform_vec_loop ss sp ov n [] delta = Some delta"
| "transform_vec_loop ss sp ov n (d # ds) delta =
     Option.bind (sym_transform ss d n) (\<lambda>s.
       let deltad = vv ov d - vv sp d
       in transform_vec_loop ss sp ov n ds (vec_set delta (sd_d s) (if sd_flipped s then - deltad else deltad)))"

text \<open>\<open>transform(const vec &ov, int n)\<close>: the image about the continuous fixed point.\<close>

definition transform_vec :: "symmetry \<Rightarrow> vec \<Rightarrow> int \<Rightarrow> vec option" where
  "transform_vec ss ov n =
     (if n = 0 then Some ov
      else case ss of [] \<Rightarrow> None
           | s # _ \<Rightarrow> map_option (vec_plus (sym_point s))
                        (transform_vec_loop ss (sym_point s) ov n (loop_dirs (vdim ov)) ov))"

definition transform_volume :: "symmetry \<Rightarrow> volume \<Rightarrow> int \<Rightarrow> volume option" where
  "transform_volume ss v n =
     Option.bind (transform_vec ss (min_corner v) n) (\<lambda>a.
     Option.bind (transform_vec ss (max_corner v) n) (\<lambda>b. Some (volume_of a b)))"

definition transform_component :: "symmetry \<Rightarrow> component \<Rightarrow> int \<Rightarrow> component option" where
  "transform_component ss c n =
     map_option (\<lambda>s. direction_component c (sd_d s)) (sym_transform ss (component_direction c) n)"

definition transform_derived :: "symmetry \<Rightarrow> derived_component \<Rightarrow> int \<Rightarrow> derived_component option" where
  "transform_derived ss c n =
     map_option (\<lambda>s. derived_direction_component c (sd_d s)) (sym_transform ss (derived_direction c) n)"

definition transform_any :: "symmetry \<Rightarrow> any_component \<Rightarrow> int \<Rightarrow> any_component option" where
  "transform_any ss c n =
     (case c of Comp c' \<Rightarrow> map_option Comp (transform_component ss c' n)
              | Derived c' \<Rightarrow> map_option Derived (transform_derived ss c' n))"

section \<open>Phases\<close>

text \<open>
  The handedness loop of \<open>phase_shift(component, n)\<close> over \<open>FOR_DIRECTIONS\<close>: every
  flipped direction toggles \<open>flip\<close>, and the shifts \<open>(t.d - d + 6) % 3\<close> of 1 and of 2
  are recorded.
\<close>

fun handedness_loop :: "symmetry \<Rightarrow> int \<Rightarrow> direction list \<Rightarrow> bool \<Rightarrow> bool \<Rightarrow> bool \<Rightarrow> (bool \<times> bool \<times> bool) option" where
  "handedness_loop ss n [] flp one two = Some (flp, one, two)"
| "handedness_loop ss n (d # ds) flp one two =
     Option.bind (sym_transform ss d n) (\<lambda>t.
       let flp = (if sd_flipped t then \<not> flp else flp);
           shift = (dir_num (sd_d t) - dir_num d + 6) mod 3
       in handedness_loop ss n ds flp (one \<or> shift = 1) (two \<or> shift = 2))"

definition phase_shift :: "symmetry \<Rightarrow> component \<Rightarrow> int \<Rightarrow> complex option" where
  "phase_shift ss c n =
     (if c = Dielectric \<or> c = Permeability then Some 1
      else Option.bind (sym_transform ss (component_direction c) n) (\<lambda>t.
             let phase = sd_phase t; flp = sd_flipped t
             in if is_magnetic c \<or> is_B c then
                  Option.bind (handedness_loop ss n all_dirs flp False False) (\<lambda>(flp, one, two).
                    let flp = (if one \<and> two then \<not> flp else flp)
                    in Some (if flp then - phase else phase))
                else Some (if flp then - phase else phase)))"

definition phase_shift_derived :: "symmetry \<Rightarrow> derived_component \<Rightarrow> int \<Rightarrow> complex option" where
  "phase_shift_derived ss c n =
     (if is_poynting c then
        map_option (\<lambda>ds. let ph = cnj (sd_phase ds) * sd_phase ds in if sd_flipped ds then - ph else ph)
                   (sym_transform ss (derived_direction c) n)
      else Some 1)"

definition phase_shift_any :: "symmetry \<Rightarrow> any_component \<Rightarrow> int \<Rightarrow> complex option" where
  "phase_shift_any ss c n =
     (case c of Comp c' \<Rightarrow> phase_shift ss c' n | Derived c' \<Rightarrow> phase_shift_derived ss c' n)"

section \<open>Canonical representatives and equality\<close>

text \<open>The per-dimension test of \<open>is_primitive\<close>: the image \<open>pp\<close> is ``more canonical''
  than \<open>p\<close> (lexicographic order on coordinate sums and differences).\<close>

definition image_precedes :: "ndim \<Rightarrow> ivec \<Rightarrow> ivec \<Rightarrow> bool" where
  "image_precedes dm p pp =
     (let x = iv p X; y = iv p Y; z = iv p Z; px = iv pp X; py = iv pp Y; pz = iv pp Z
      in case dm of
           D2 \<Rightarrow> px + py < x + y \<or> (px + py = x + y \<and> y > x \<and> py \<le> px)
         | D3 \<Rightarrow> px + py + pz < x + y + z
                 \<or> (px + py + pz = x + y + z \<and> px + py - pz < x + y - z)
                 \<or> (px + py + pz = x + y + z \<and> px + py - pz = x + y - z \<and> px - py - pz < x - y - z)
         | D1 \<Rightarrow> pz < z
         | Dcyl \<Rightarrow> pz < z)"

fun primitive_loop :: "symmetry \<Rightarrow> ivec \<Rightarrow> int list \<Rightarrow> bool option" where
  "primitive_loop ss p [] = Some True"
| "primitive_loop ss p (i # is) =
     Option.bind (transform_ivec ss p i) (\<lambda>pp.
       if image_precedes (ivdim p) p pp then Some False else primitive_loop ss p is)"

definition is_primitive :: "symmetry \<Rightarrow> ivec \<Rightarrow> bool option" where
  "is_primitive ss p =
     (if multiplicity ss = 1 then Some True else primitive_loop ss p [1..multiplicity ss - 1])"

text \<open>\<open>operator==\<close>: equal multiplicities and equal images of every direction under every
  non-identity element.\<close>

fun sym_eq_loop :: "symmetry \<Rightarrow> symmetry \<Rightarrow> (int \<times> direction) list \<Rightarrow> bool option" where
  "sym_eq_loop a b [] = Some True"
| "sym_eq_loop a b ((sn, d) # rest) =
     Option.bind (sym_transform a d sn) (\<lambda>ta.
     Option.bind (sym_transform b d sn) (\<lambda>tb.
       if ta \<noteq> tb then Some False else sym_eq_loop a b rest))"

definition sym_eq :: "symmetry \<Rightarrow> symmetry \<Rightarrow> bool option" where
  "sym_eq a b =
     (if multiplicity a \<noteq> multiplicity b then Some False
      else sym_eq_loop a b (List.product [1..multiplicity a - 1] all_dirs))"

section \<open>Lemmas\<close>

text \<open>A single link of order \<open>g\<close> acts by the \<open>k\<close>-th power of its generator for
  \<open>0 \<le> k < g\<close>; for a mirror this is the flip of the mirrored axis.\<close>

lemma mirror_link_wf: "a \<noteq> NO_DIRECTION \<Longrightarrow> list_all link_wf (mirror a gv)"
  by (cases a) (simp_all add: mirror_def link_wf_def all_dirs_def sd_of_def flip_def)

lemma transform_single_pow:
  assumes "link_wf s" and "0 \<le> k" and "k < sym_g s"
  shows "sym_transform (s # rest) d k = Some (if d = NO_DIRECTION then sd_of d else (gen_step s ^^ nat k) (sd_of d))"
proof (cases "d = NO_DIRECTION")
  case True
  then show ?thesis by (subst sym_transform.simps) simp
next
  case False
  then show ?thesis using transform_link_pow[OF assms(1) False assms(2,3)] by simp
qed

lemma mirror_transform_one:
  assumes "a \<noteq> NO_DIRECTION"
  shows "sym_transform (mirror a gv) d 1 = Some (if d = a then flip (sd_of d) else sd_of d)"
proof -
  have "sym_transform (mirror a gv) d 1
        = Some (if d = NO_DIRECTION then sd_of d else gen_step (hd (mirror a gv)) (sd_of d))"
    using transform_single_pow[of "hd (mirror a gv)" 1 "[]" d] mirror_link_wf[OF assms, of gv]
    by (simp add: mirror_def)
  then show ?thesis using assms
    by (simp add: mirror_def gen_step_def sd_of_def flip_def)
qed

lemma r_to_minus_r_ivec:
  "transform_ivec (r_to_minus_r_symmetry m) (iveccyl r z) 1 = Some (iveccyl (- r) z)"
  by (simp add: transform_ivec_def r_to_minus_r_symmetry_def transform_single_pow link_wf_def all_dirs_def
                gen_step_def sd_of_def flip_def iveccyl_def mk_ivec_def zero_ivec_def ivec_set_def fun_eq_iff)

lemma r_to_minus_r_multiplicity: "multiplicity (r_to_minus_r_symmetry m) = 2"
  by (simp add: r_to_minus_r_symmetry_def)

text \<open>The identity element \<open>n = 0\<close>: every operation returns its argument and
  phase 1.\<close>

lemma transform_zero_sd [simp]: "ss \<noteq> [] \<Longrightarrow> sym_transform ss d 0 = Some (sd_of d)"
  by (cases ss) (simp_all add: sym_transform.simps)

lemma handedness_loop_zero:
  "ss \<noteq> [] \<Longrightarrow> handedness_loop ss 0 ds flp False False = Some (flp, False, False)"
  by (induction ds) (simp_all add: sd_of_def)

lemma phase_shift_any_zero [simp]: "ss \<noteq> [] \<Longrightarrow> phase_shift_any ss c 0 = Some 1"
  by (cases c) (simp_all add: phase_shift_any_def phase_shift_def phase_shift_derived_def handedness_loop_zero
                              sd_of_def Let_def)

lemma transform_volume_zero [simp]: "transform_volume ss v 0 = Some (volume_of (min_corner v) (max_corner v))"
  by (simp add: transform_volume_def transform_vec_def)

lemma transform_any_zero: "ss \<noteq> [] \<Longrightarrow> \<exists>c'. transform_any ss c 0 = Some c'"
  by (cases c) (simp_all add: transform_any_def transform_component_def transform_derived_def)

text \<open>No null dereference: for a well-formed chain and \<open>0 \<le> n < multiplicity()\<close>
  every \<open>transform(d, n)\<close> returns, and so does every operation built on it.\<close>

lemma transform_some:
  assumes "sym_wf ss" and "0 \<le> n" and "n < multiplicity ss"
  shows "sym_transform ss d n \<noteq> None"
proof (cases "d = NO_DIRECTION")
  case True
  obtain s rest where "ss = s # rest" using assms(1) by (cases ss) (auto simp: sym_wf_def)
  then show ?thesis using True by (simp add: sym_transform.simps)
next
  case False
  then show ?thesis using transform_chain[OF assms(1) False assms(2,3)] by auto
qed

lemma transform_vec_loop_some:
  "(\<And>d. sym_transform ss d n \<noteq> None) \<Longrightarrow> transform_vec_loop ss sp ov n ds delta \<noteq> None"
  by (induction ds arbitrary: delta) (auto simp: bind_eq_None_conv Let_def)

lemma handedness_loop_some:
  "(\<And>d. sym_transform ss d n \<noteq> None) \<Longrightarrow> handedness_loop ss n ds flp one two \<noteq> None"
  by (induction ds arbitrary: flp one two) (auto simp: bind_eq_None_conv Let_def)

lemma transform_ops_some:
  assumes "ss \<noteq> []" and "\<And>d. sym_transform ss d n \<noteq> None"
  shows "transform_volume ss v n \<noteq> None" and "transform_any ss c n \<noteq> None" and "phase_shift_any ss c n \<noteq> None"
proof -
  have tv: "\<exists>q. transform_vec ss p n = Some q" for p
    using assms transform_vec_loop_some[OF assms(2)] by (cases ss) (auto simp: transform_vec_def)
  show "transform_volume ss v n \<noteq> None"
    using tv[of "min_corner v"] tv[of "max_corner v"] by (auto simp: transform_volume_def)
  show "transform_any ss c n \<noteq> None" using assms(2)
    by (auto simp: transform_any_def transform_component_def transform_derived_def split: any_component.splits)
  have ps: "phase_shift ss c' n \<noteq> None" for c'
  proof -
    obtain t where t: "sym_transform ss (component_direction c') n = Some t" using assms(2) by blast
    obtain f1 f2 f3 where h: "handedness_loop ss n all_dirs (sd_flipped t) False False = Some (f1, f2, f3)"
      using handedness_loop_some[OF assms(2)] by fast
    show ?thesis by (simp add: phase_shift_def t h Let_def)
  qed
  show "phase_shift_any ss c n \<noteq> None" using assms(2) ps
    by (auto simp: phase_shift_any_def phase_shift_derived_def split: any_component.splits)
qed

text \<open>The continuous image under a mirror: reflection of the mirrored coordinate
  about the centre, the others kept.\<close>

lemma mirror_vec_loop:
  assumes "a \<noteq> NO_DIRECTION" and "distinct ds"
  shows "\<exists>r. transform_vec_loop (mirror a gv) sp ov 1 ds delta = Some r \<and> vdim r = vdim delta
           \<and> (\<forall>d. vv r d = (if d \<in> set ds then (if d = a then - (vv ov d - vv sp d) else vv ov d - vv sp d)
                            else vv delta d))"
  using assms(2)
proof (induction ds arbitrary: delta)
  case Nil
  then show ?case by simp
next
  case (Cons d0 ds)
  let ?delta = "vec_set delta d0 (if d0 = a then - (vv ov d0 - vv sp d0) else vv ov d0 - vv sp d0)"
  obtain r where r: "transform_vec_loop (mirror a gv) sp ov 1 ds ?delta = Some r" "vdim r = vdim ?delta"
    "\<forall>d. vv r d = (if d \<in> set ds then (if d = a then - (vv ov d - vv sp d) else vv ov d - vv sp d)
                   else vv ?delta d)"
    using Cons by auto
  have "transform_vec_loop (mirror a gv) sp ov 1 (d0 # ds) delta = Some r"
    using r(1) by (cases "d0 = a") (simp_all add: mirror_transform_one[OF assms(1)] sd_of_def flip_def Let_def)
  then show ?case using r(2,3) by (auto simp: vec_set_def)
qed

lemma vdim_center [simp]: "vdim (center gv) = ivdim (io gv)"
  by (cases "gdim gv") (simp_all add: center_def icenter_def lattice_vec_def ivec_to_vec_def ivec_plus_def
                                      mk_vec_def mk_ivec_def)

lemma mirror_vec:
  assumes "a \<noteq> NO_DIRECTION" and "vdim p = vdim (center gv)"
  shows "\<exists>q. transform_vec (mirror a gv) p 1 = Some q \<and> vdim q = vdim p
           \<and> (\<forall>d. has_direction (vdim p) d \<longrightarrow>
                  vv q d = (if d = a then 2 * vv (center gv) d - vv p d else vv p d))"
  using mirror_vec_loop[OF assms(1) loop_dirs_distinct, of gv "center gv" p "vdim p" p] assms(2)
  by (auto simp: transform_vec_def mirror_def vec_plus_def has_direction_def)

lemma mirror_multiplicity [simp]: "multiplicity (mirror a gv) = 2"
  by (simp add: mirror_def)

lemma mirror_transform_volume:
  assumes "a \<noteq> NO_DIRECTION" and "vdim (min_corner v) = vdim (center gv)" and "vdim (max_corner v) = vdim (center gv)"
  shows "\<exists>q1 q2. transform_volume (mirror a gv) v 1 = Some (volume_of q1 q2)
           \<and> vdim q1 = vdim (min_corner v) \<and> vdim q2 = vdim (max_corner v)
           \<and> (\<forall>d. has_direction (vdim (min_corner v)) d \<longrightarrow>
                  vv q1 d = (if d = a then 2 * vv (center gv) d - vv (min_corner v) d else vv (min_corner v) d))
           \<and> (\<forall>d. has_direction (vdim (max_corner v)) d \<longrightarrow>
                  vv q2 d = (if d = a then 2 * vv (center gv) d - vv (max_corner v) d else vv (max_corner v) d))"
proof -
  obtain q1 where q1: "transform_vec (mirror a gv) (min_corner v) 1 = Some q1" "vdim q1 = vdim (min_corner v)"
    "\<forall>d. has_direction (vdim (min_corner v)) d \<longrightarrow>
         vv q1 d = (if d = a then 2 * vv (center gv) d - vv (min_corner v) d else vv (min_corner v) d)"
    using mirror_vec[OF assms(1,2)] by blast
  obtain q2 where q2: "transform_vec (mirror a gv) (max_corner v) 1 = Some q2" "vdim q2 = vdim (max_corner v)"
    "\<forall>d. has_direction (vdim (max_corner v)) d \<longrightarrow>
         vv q2 d = (if d = a then 2 * vv (center gv) d - vv (max_corner v) d else vv (max_corner v) d)"
    using mirror_vec[OF assms(1,3)] by blast
  show ?thesis
    by (rule exI[of _ q1], rule exI[of _ q2]) (simp add: transform_volume_def q1 q2)
qed

section \<open>Properties\<close>

text \<open>C26: under a mirror about \<open>a\<close>, an electric (vector) component along \<open>a\<close>
  changes sign and the others keep it, while a magnetic (pseudovector) component
  along \<open>a\<close> keeps its sign and the others change it: \<open>phase_shift\<close> detects the
  reversed handedness of a reflection.\<close>

theorem mirror_phase_pseudovector:
  "list_all (\<lambda>a. list_all (\<lambda>d.
      phase_shift (mirror a gv) (kind_component E_stuff d) 1 = Some (if d = a then -1 else 1)
    \<and> phase_shift (mirror a gv) (kind_component H_stuff d) 1 = Some (if d = a then 1 else -1)) [X, Y, Z]) [X, Y, Z]"
  by (simp add: mirror_transform_one phase_shift_def all_dirs_def is_magnetic_def is_B_def
                sd_of_def flip_def Let_def)

text \<open>C27: a rotation (\<open>rotate4\<close> at every power, \<open>rotate2\<close>) is proper: \<open>phase_shift\<close>
  returns, the electric component along the axis keeps its sign, a half turn reverses
  the two perpendicular ones, a quarter turn about \<open>a\<close> reverses the component along the
  next axis \<open>a + 1 (mod 3)\<close> at power 1 and the one along \<open>a + 2\<close> at power 3, and the
  magnetic component along any axis picks up exactly the phase of the electric one.\<close>

theorem rotation_phase_proper:
  "list_all (\<lambda>a. list_all (\<lambda>d.
      list_all (\<lambda>n. phase_shift (the (rotate4 a gv)) (kind_component E_stuff d) n
                       = Some (if d = a then 1 else if n = 2 then -1
                               else if (d = dir_of_num ((dir_num a + 1) mod 3)) = (n = 1) then -1 else 1)
                     \<and> phase_shift (the (rotate4 a gv)) (kind_component H_stuff d) n
                       = phase_shift (the (rotate4 a gv)) (kind_component E_stuff d) n) [1, 2, 3]
    \<and> phase_shift (the (rotate2 a gv)) (kind_component E_stuff d) 1 = Some (if d = a then 1 else -1)
    \<and> phase_shift (the (rotate2 a gv)) (kind_component H_stuff d) 1 = Some (if d = a then 1 else -1))
      [X, Y, Z]) [X, Y, Z]"
  by (simp add: transform_single_pow link_wf_def phase_shift_def all_dirs_def is_magnetic_def is_B_def
                rotate4_def rotate2_def gen_step_def dir_of_num_def sd_of_def flip_def Let_def
                numeral_2_eq_2 numeral_3_eq_3)

text \<open>C28: the image of a continuous point under a mirror about \<open>a\<close> exists, is the
  point reflected about the centre of the grid along \<open>a\<close> (the other coordinates kept),
  and mapping it back gives the point again: the mirror is an involution on \<open>vec\<close>.\<close>

theorem mirror_vec_involution:
  assumes "a \<noteq> NO_DIRECTION" and "gv_wf gv" and "vdim p = gdim gv"
  shows "\<exists>q. transform_vec (mirror a gv) p 1 = Some q \<and> vdim q = vdim p
           \<and> list_all (\<lambda>d. vv q d = (if d = a then 2 * vv (center gv) d - vv p d else vv p d)) (loop_dirs (vdim p))
           \<and> (\<exists>r. transform_vec (mirror a gv) q 1 = Some r \<and> list_all (\<lambda>d. vv r d = vv p d) (loop_dirs (vdim p)))"
proof -
  have dim: "vdim p = vdim (center gv)" using assms(2,3) by (simp add: gv_wf_def)
  obtain q where q: "transform_vec (mirror a gv) p 1 = Some q" "vdim q = vdim p"
    "\<forall>d. has_direction (vdim p) d \<longrightarrow> vv q d = (if d = a then 2 * vv (center gv) d - vv p d else vv p d)"
    using mirror_vec[OF assms(1) dim] by blast
  obtain r where r: "transform_vec (mirror a gv) q 1 = Some r"
    "\<forall>d. has_direction (vdim q) d \<longrightarrow> vv r d = (if d = a then 2 * vv (center gv) d - vv q d else vv q d)"
    using mirror_vec[OF assms(1), of q gv] q(2) dim by auto
  show ?thesis using r q by (auto simp: list_all_iff has_direction_def)
qed

theorem mirror_vec_involution_witness:
  "\<exists>q. transform_vec (mirror X (make_grid_volume D2 10 4 4 0)) (vec2 1 2) 1 = Some q \<and> vdim q = vdim (vec2 1 2)
     \<and> list_all (\<lambda>d. vv q d = (if d = X then 2 * vv (center (make_grid_volume D2 10 4 4 0)) d - vv (vec2 1 2) d
                                else vv (vec2 1 2) d)) (loop_dirs (vdim (vec2 1 2)))
     \<and> (\<exists>r. transform_vec (mirror X (make_grid_volume D2 10 4 4 0)) q 1 = Some r
           \<and> list_all (\<lambda>d. vv r d = vv (vec2 1 2) d) (loop_dirs (vdim (vec2 1 2))))"
proof -
  have wf: "gv_wf (make_grid_volume D2 10 4 4 0)"
    by (rule make_grid_volume_wf) simp_all
  have v: "vdim (vec2 1 2) = gdim (make_grid_volume D2 10 4 4 0)"
    by (simp add: vec2_def mk_vec_def make_grid_volume_def set_origin_v_def set_origin_i_def num_changed_def
                  set_strides_def update_ntot_def)
  show ?thesis using mirror_vec_involution[of X "make_grid_volume D2 10 4 4 0" "vec2 1 2"] wf v by simp
qed

text \<open>For the cylindrical \<open>r_to_minus_r_symmetry\<close>, a lattice point and its
  image under \<open>r \<mapsto> -r\<close> are both primitive: \<open>is_primitive\<close> compares only \<open>z\<close> in
  \<open>Dcyl\<close>, so it does not pick one representative per orbit.\<close>

theorem cylinder_primitive_not_unique:
  "transform_ivec (r_to_minus_r_symmetry m) (iveccyl r z) 1 = Some (iveccyl (- r) z)
   \<and> is_primitive (r_to_minus_r_symmetry m) (iveccyl r z) = Some True
   \<and> is_primitive (r_to_minus_r_symmetry m) (iveccyl (- r) z) = Some True"
  by (simp add: r_to_minus_r_ivec is_primitive_def r_to_minus_r_multiplicity)
     (simp add: image_precedes_def iveccyl_def mk_ivec_def)

end
