(* ===== verification/Reduce.thy ===== *)
theory Reduce
  imports SymmetryOps
begin

text \<open>
  \<open>symmetry::reduce(const volume_list *)\<close> (\<open>src/vec.cpp\<close>, lines 1349-1408): the
  folding of a weighted list of (volume, component) entries under a symmetry group.
  The linked \<open>volume_list\<close> is a list whose head is the first node; \<open>new
  volume_list(\<dots>, glnew)\<close> is a cons, the unlinking of a node a removal.  The
  comparison \<open>v.round_float() == w.round_float()\<close> rounds every coordinate to
  single precision; the rounding \<open>fl\<close> of one coordinate is a parameter of the
  model, so that every lemma holds for any rounding.  A failing \<open>transform\<close>
  (null dereference) makes the whole reduction \<open>None\<close>.
\<close>

section \<open>Weighted volume lists (\<open>meep/vec.hpp\<close>)\<close>

record vl_entry =
  vl_v :: volume
  vl_c :: any_component
  vl_w :: complex

type_synonym volume_list = "vl_entry list"

text \<open>\<open>vec::round_float()\<close> and \<open>volume::round_float()\<close>: every active coordinate
  rounded by \<open>fl\<close>, the volume rebuilt from its rounded corners.\<close>

definition vec_round_float :: "(real \<Rightarrow> real) \<Rightarrow> vec \<Rightarrow> vec" where
  "vec_round_float fl p = mk_vec (vdim p) (\<lambda>d. fl (vv p d))"

definition vol_round_float :: "(real \<Rightarrow> real) \<Rightarrow> volume \<Rightarrow> volume" where
  "vol_round_float fl v = volume_of (vec_round_float fl (min_corner v)) (vec_round_float fl (max_corner v))"

text \<open>\<open>vec::operator==\<close> compares the active coordinates, \<open>volume::operator==\<close> both
  corners.\<close>

definition vec_eq :: "vec \<Rightarrow> vec \<Rightarrow> bool" where
  "vec_eq p q = list_all (\<lambda>d. vv p d = vv q d) (loop_dirs (vdim p))"

definition vol_eq :: "volume \<Rightarrow> volume \<Rightarrow> bool" where
  "vol_eq a b = (vec_eq (min_corner a) (min_corner b) \<and> vec_eq (max_corner a) (max_corner b))"

section \<open>The folding pass (lines 1350-1370)\<close>

text \<open>The search \<open>for (gn = glnew; gn; gn = gn->next)\<close>: the position of the first
  entry with component \<open>cS\<close> and the same rounded volume as \<open>gS\<close>.\<close>

fun find_entry :: "(real \<Rightarrow> real) \<Rightarrow> any_component \<Rightarrow> volume \<Rightarrow> volume_list \<Rightarrow> nat option" where
  "find_entry fl cS gS [] = None"
| "find_entry fl cS gS (gn # gns) =
     (if vl_c gn = cS \<and> vol_eq (vol_round_float fl (vl_v gn)) (vol_round_float fl gS) then Some 0
      else map_option Suc (find_entry fl cS gS gns))"

text \<open>The loop over \<open>sn\<close> for one input entry \<open>g\<close>: on the first match the weight of
  the matching entry grows by \<open>g->weight * phase_shift(g->c, sn)\<close> and the loop
  breaks (result \<open>True\<close>); \<open>False\<close> when no group element gives a match.\<close>

fun reduce_try :: "symmetry \<Rightarrow> (real \<Rightarrow> real) \<Rightarrow> vl_entry \<Rightarrow> int list \<Rightarrow> volume_list
                   \<Rightarrow> (volume_list \<times> bool) option" where
  "reduce_try ss fl g [] glnew = Some (glnew, False)"
| "reduce_try ss fl g (sn # sns) glnew =
     Option.bind (transform_volume ss (vl_v g) sn) (\<lambda>gS.
     Option.bind (transform_any ss (vl_c g) sn) (\<lambda>cS.
       case find_entry fl cS gS glnew of
         Some i \<Rightarrow> Option.bind (phase_shift_any ss (vl_c g) sn) (\<lambda>ph.
                     Some (glnew[i := (glnew ! i)\<lparr>vl_w := vl_w (glnew ! i) + vl_w g * ph\<rparr>], True))
       | None \<Rightarrow> reduce_try ss fl g sns glnew))"

text \<open>The outer loop over the input: an entry that matches nothing and has a nonzero
  weight is pushed on the front of \<open>glnew\<close>.\<close>

fun reduce_fold :: "symmetry \<Rightarrow> (real \<Rightarrow> real) \<Rightarrow> volume_list \<Rightarrow> volume_list \<Rightarrow> volume_list option" where
  "reduce_fold ss fl [] glnew = Some glnew"
| "reduce_fold ss fl (g # gs) glnew =
     Option.bind (reduce_try ss fl g [0..multiplicity ss - 1] glnew) (\<lambda>(gl', found).
       reduce_fold ss fl gs (if \<not> found \<and> vl_w g \<noteq> 0 then g # gl' else gl'))"

section \<open>The self-reduction pass (lines 1372-1405)\<close>

text \<open>The first direction of \<open>LOOP_OVER_DIRECTIONS(g->v.dim, d)\<close> flipped by element
  \<open>sn\<close> (the \<open>break\<close> of the inner loop).\<close>

fun first_flipped :: "symmetry \<Rightarrow> int \<Rightarrow> direction list \<Rightarrow> direction option option" where
  "first_flipped ss sn [] = Some None"
| "first_flipped ss sn (d # ds) =
     Option.bind (sym_transform ss d sn) (\<lambda>t.
       if sd_flipped t then Some (Some d) else first_flipped ss sn ds)"

text \<open>The loop over \<open>sn = 1 \<dots> multiplicity()-1\<close>: when \<open>sn\<close> maps the entry to itself,
  the first flipped direction is marked in \<open>halve\<close> and the weight grows by the
  original weight \<open>w0\<close> times the phase.  The test is C's \<open>&&\<close>: the volume is
  transformed only when the component is fixed.\<close>

fun self_loop :: "symmetry \<Rightarrow> (real \<Rightarrow> real) \<Rightarrow> vl_entry \<Rightarrow> complex \<Rightarrow> int list \<Rightarrow> (direction \<Rightarrow> bool)
                  \<Rightarrow> (vl_entry \<times> (direction \<Rightarrow> bool)) option" where
  "self_loop ss fl g w0 [] hv = Some (g, hv)"
| "self_loop ss fl g w0 (sn # sns) hv =
     Option.bind (transform_any ss (vl_c g) sn) (\<lambda>c'.
       if vl_c g \<noteq> c' then self_loop ss fl g w0 sns hv
       else Option.bind (transform_volume ss (vl_v g) sn) (\<lambda>v'.
         if \<not> vol_eq (vol_round_float fl (vl_v g)) (vol_round_float fl v') then self_loop ss fl g w0 sns hv
         else Option.bind (first_flipped ss sn (loop_dirs (vol_dim (vl_v g)))) (\<lambda>od.
              Option.bind (phase_shift_any ss (vl_c g) sn) (\<lambda>ph.
                self_loop ss fl (g\<lparr>vl_w := vl_w g + w0 * ph\<rparr>) w0 sns
                  (case od of Some d \<Rightarrow> hv(d := True) | None \<Rightarrow> hv)))))"

text \<open>\<open>set_direction_max(d, in_direction_min(d) + 0.5 * in_direction(d))\<close> for every
  marked direction: the lower half is kept.\<close>

fun apply_halve :: "volume \<Rightarrow> (direction \<Rightarrow> bool) \<Rightarrow> direction list \<Rightarrow> volume" where
  "apply_halve v hv [] = v"
| "apply_halve v hv (d # ds) =
     apply_halve (if hv d then set_direction_max v d (in_direction_min v d + 1 / 2 * in_direction v d) else v)
                 hv ds"

definition self_reduce :: "symmetry \<Rightarrow> (real \<Rightarrow> real) \<Rightarrow> vl_entry \<Rightarrow> vl_entry option" where
  "self_reduce ss fl g =
     Option.bind (self_loop ss fl g (vl_w g) [1..multiplicity ss - 1] (\<lambda>_. False)) (\<lambda>(g', hv).
       Some (g'\<lparr>vl_v := apply_halve (vl_v g') hv (loop_dirs (vol_dim (vl_v g')))\<rparr>))"

text \<open>The \<open>while (g)\<close> loop: every entry self-reduced in turn, those of weight zero
  unlinked.\<close>

fun reduce_self :: "symmetry \<Rightarrow> (real \<Rightarrow> real) \<Rightarrow> volume_list \<Rightarrow> volume_list option" where
  "reduce_self ss fl [] = Some []"
| "reduce_self ss fl (g # gs) =
     Option.bind (self_reduce ss fl g) (\<lambda>g'.
     Option.bind (reduce_self ss fl gs) (\<lambda>gs'.
       Some (if vl_w g' = 0 then gs' else g' # gs')))"

definition reduce :: "symmetry \<Rightarrow> (real \<Rightarrow> real) \<Rightarrow> volume_list \<Rightarrow> volume_list option" where
  "reduce ss fl gl = Option.bind (reduce_fold ss fl gl []) (reduce_self ss fl)"

section \<open>Lemmas\<close>

text \<open>Under a group of order one (\<open>identity()\<close>) the only element is \<open>sn = 0\<close>: the
  folding pass adds every weight to the list, to a matching entry or as a new one,
  and the self-reduction pass changes nothing.\<close>

lemma find_entry_lt: "find_entry fl c v xs = Some i \<Longrightarrow> i < length xs"
  by (induction xs arbitrary: i) (auto split: if_splits)

lemma reduce_try_zero:
  assumes "ss \<noteq> []"
  shows "\<exists>gl' found. reduce_try ss fl g [0] glnew = Some (gl', found)
           \<and> sum_list (map vl_w gl') = sum_list (map vl_w glnew) + (if found then vl_w g else 0)"
proof -
  obtain c' where c': "transform_any ss (vl_c g) 0 = Some c'" using transform_any_zero[OF assms] by blast
  show ?thesis
  proof (cases "find_entry fl c' (volume_of (min_corner (vl_v g)) (max_corner (vl_v g))) glnew")
    case None
    then show ?thesis using c' by auto
  next
    case (Some i)
    then have "i < length glnew" by (rule find_entry_lt)
    then show ?thesis using c' Some assms
      by (simp add: map_update sum_list_update_group ex_bool_eq)
  qed
qed

lemma reduce_fold_single:
  assumes "ss \<noteq> []" and "multiplicity ss = 1"
  shows "\<exists>out. reduce_fold ss fl gl glnew = Some out
           \<and> sum_list (map vl_w out) = sum_list (map vl_w glnew) + sum_list (map vl_w gl)"
proof (induction gl arbitrary: glnew)
  case Nil
  then show ?case by simp
next
  case (Cons g gs)
  obtain gl' found where t: "reduce_try ss fl g [0] glnew = Some (gl', found)"
    "sum_list (map vl_w gl') = sum_list (map vl_w glnew) + (if found then vl_w g else 0)"
    using reduce_try_zero[OF assms(1)] by blast
  let ?next = "if \<not> found \<and> vl_w g \<noteq> 0 then g # gl' else gl'"
  obtain out where o: "reduce_fold ss fl gs ?next = Some out"
    "sum_list (map vl_w out) = sum_list (map vl_w ?next) + sum_list (map vl_w gs)"
    using Cons by blast
  have "reduce_fold ss fl (g # gs) glnew = Some out" using t(1) o(1) assms(2) by simp
  moreover have "sum_list (map vl_w out) = sum_list (map vl_w glnew) + sum_list (map vl_w (g # gs))"
    using o(2) t(2) by (auto simp: algebra_simps)
  ultimately show ?case by blast
qed

lemma apply_halve_none [simp]: "apply_halve v (\<lambda>_. False) ds = v"
  by (induction ds) simp_all

lemma reduce_self_single:
  assumes "multiplicity ss = 1"
  shows "\<exists>out. reduce_self ss fl gl = Some out \<and> sum_list (map vl_w out) = sum_list (map vl_w gl)"
proof (induction gl)
  case Nil
  then show ?case by simp
next
  case (Cons g gs)
  have "self_reduce ss fl g = Some g" using assms by (simp add: self_reduce_def)
  then show ?case using Cons by auto
qed

lemma reduce_self_nonzero:
  "reduce_self ss fl gl = Some out \<Longrightarrow> list_all (\<lambda>e. vl_w e \<noteq> 0) out"
  by (induction gl arbitrary: out) (auto split: Option.bind_splits)

text \<open>Under a well-formed chain no \<open>transform\<close> of the two passes fails.\<close>

lemma first_flipped_some:
  "(\<And>d. sym_transform ss d n \<noteq> None) \<Longrightarrow> first_flipped ss n ds \<noteq> None"
  by (induction ds) (auto simp: bind_eq_None_conv)

lemma reduce_try_some:
  assumes "ss \<noteq> []" and "\<And>sn d. sn \<in> set sns \<Longrightarrow> sym_transform ss d sn \<noteq> None"
  shows "reduce_try ss fl g sns glnew \<noteq> None"
  using assms(2)
proof (induction sns)
  case Nil
  then show ?case by simp
next
  case (Cons sn sns)
  have h: "\<And>d. sym_transform ss d sn \<noteq> None" using Cons.prems by simp
  obtain gS where gS: "transform_volume ss (vl_v g) sn = Some gS" using transform_ops_some(1)[OF assms(1) h] by blast
  obtain cS where cS: "transform_any ss (vl_c g) sn = Some cS" using transform_ops_some(2)[OF assms(1) h] by blast
  obtain ph where ph: "phase_shift_any ss (vl_c g) sn = Some ph" using transform_ops_some(3)[OF assms(1) h] by blast
  show ?case using Cons gS cS ph by (auto split: option.splits)
qed

lemma self_loop_some:
  assumes "ss \<noteq> []" and "\<And>sn d. sn \<in> set sns \<Longrightarrow> sym_transform ss d sn \<noteq> None"
  shows "self_loop ss fl g w0 sns hv \<noteq> None"
  using assms(2)
proof (induction sns arbitrary: g hv)
  case Nil
  then show ?case by simp
next
  case (Cons sn sns)
  have h: "\<And>d. sym_transform ss d sn \<noteq> None" using Cons.prems by simp
  obtain gS where gS: "transform_volume ss (vl_v g) sn = Some gS" using transform_ops_some(1)[OF assms(1) h] by blast
  obtain cS where cS: "transform_any ss (vl_c g) sn = Some cS" using transform_ops_some(2)[OF assms(1) h] by blast
  obtain ph where ph: "phase_shift_any ss (vl_c g) sn = Some ph" using transform_ops_some(3)[OF assms(1) h] by blast
  obtain od where od: "first_flipped ss sn (loop_dirs (vol_dim (vl_v g))) = Some od"
    using first_flipped_some[OF h] by blast
  show ?case using Cons gS cS ph od by auto
qed

section \<open>Properties\<close>

text \<open>The example of the specification, a mirror about \<open>x = 0\<close> in 2-D and one
  entry \<open>x \<in> [-1, 1], y \<in> [0, 1]\<close>, \<open>Ez\<close>, weight 1: the entry is its own image,
  its weight doubles and its extent along \<open>X\<close> is halved.  The code keeps the
  lower half \<open>x \<in> [-1, 0]\<close> (\<open>set_direction_max\<close>), where the specification
  expects \<open>x \<in> [0, 1]\<close>.\<close>

theorem reduce_mirror_example:
  assumes "gv_wf gv" and "gdim gv = D2" and "vv (center gv) X = 0"
  shows "\<exists>e. reduce (mirror X gv) fl [\<lparr>vl_v = volume_of (vec2 (-1) 0) (vec2 1 1), vl_c = Comp Ez, vl_w = 1\<rparr>] = Some [e]
           \<and> vl_c e = Comp Ez \<and> vl_w e = 2
           \<and> in_direction_min (vl_v e) X = -1 \<and> in_direction_max (vl_v e) X = 0
           \<and> in_direction_min (vl_v e) Y = 0 \<and> in_direction_max (vl_v e) Y = 1"
proof -
  let ?V = "volume_of (vec2 (-1) 0) (vec2 1 1)"
  let ?e0 = "\<lparr>vl_v = ?V, vl_c = Comp Ez, vl_w = 1\<rparr>"
  have cd: "vdim (center gv) = D2" using assms(1,2) by (simp add: gv_wf_def)
  have vd: "vdim (min_corner ?V) = D2" "vdim (max_corner ?V) = D2"
    by (simp_all add: volume_of_def vec_min_def vec_max_def vec2_def mk_vec_def)
  obtain q1 q2 where q: "transform_volume (mirror X gv) ?V 1 = Some (volume_of q1 q2)"
    "vdim q1 = D2" "vdim q2 = D2"
    "\<forall>d. has_direction D2 d \<longrightarrow> vv q1 d = (if d = X then 2 * vv (center gv) d - vv (min_corner ?V) d else vv (min_corner ?V) d)"
    "\<forall>d. has_direction D2 d \<longrightarrow> vv q2 d = (if d = X then 2 * vv (center gv) d - vv (max_corner ?V) d else vv (max_corner ?V) d)"
    using mirror_transform_volume[of X ?V gv] cd vd by auto
  have qv: "vv q1 X = 1" "vv q1 Y = 0" "vv q2 X = -1" "vv q2 Y = 1"
    using q(4,5) assms(3)
    by (simp_all add: has_direction_def volume_of_def vec_min_def vec_max_def vec2_def mk_vec_def)
  have ne: "mirror X gv \<noteq> []" by (simp add: mirror_def)
  have ta: "transform_any (mirror X gv) (Comp Ez) n = Some (Comp Ez)" if "n \<in> {0, 1}" for n
    using that ne
    by (auto simp: transform_any_def transform_component_def mirror_transform_one direction_component_def
                   sd_of_def)
  have eqv: "vol_eq (vol_round_float fl ?V) (vol_round_float fl (volume_of q1 q2))"
    using q(2,3) qv
    by (simp add: vol_eq_def vec_eq_def vol_round_float_def volume_of_def vec_min_def vec_max_def
                  vec_round_float_def vec2_def mk_vec_def has_direction_def)
  have tv0: "transform_volume (mirror X gv) ?V 0 = Some (volume_of (min_corner ?V) (max_corner ?V))"
    by (simp add: transform_volume_def transform_vec_def)
  have ff: "first_flipped (mirror X gv) 1 [X, Y] = Some (Some X)"
    by (simp add: mirror_transform_one sd_of_def flip_def)
  have ph: "phase_shift_any (mirror X gv) (Comp Ez) 1 = Some 1"
    by (simp add: phase_shift_any_def phase_shift_def mirror_transform_one is_magnetic_def is_B_def sd_of_def)
  have ups: "[0..1] = [0, 1::int]" "[1..1] = [1::int]"
    by (simp_all add: upto.simps)
  have fold: "reduce_fold (mirror X gv) fl [?e0] [] = Some [?e0]"
    using ta[of 0] ta[of 1] by (simp add: ups tv0 q(1))
  have vdV: "vol_dim ?V = D2" by (simp add: volume_of_def vec2_def mk_vec_def)
  have sl: "self_loop (mirror X gv) fl ?e0 1 [1] (\<lambda>_. False) = Some (?e0\<lparr>vl_w := 2\<rparr>, (\<lambda>_. False)(X := True))"
    using ta[of 1] by (simp add: q(1) eqv vdV ff ph del: first_flipped.simps)
  have self: "reduce_self (mirror X gv) fl [?e0]
              = Some [\<lparr>vl_v = apply_halve ?V ((\<lambda>_. False)(X := True)) [X, Y], vl_c = Comp Ez, vl_w = 2\<rparr>]"
  proof -
    have "self_reduce (mirror X gv) fl ?e0
          = Some \<lparr>vl_v = apply_halve ?V ((\<lambda>_. False)(X := True)) [X, Y], vl_c = Comp Ez, vl_w = 2\<rparr>"
      unfolding self_reduce_def mirror_multiplicity using sl by (simp add: ups vdV)
    then show ?thesis by (simp only: reduce_self.simps Option.bind.simps) simp
  qed
  have r: "reduce (mirror X gv) fl [?e0]
           = Some [\<lparr>vl_v = apply_halve ?V ((\<lambda>_. False)(X := True)) [X, Y], vl_c = Comp Ez, vl_w = 2\<rparr>]"
    unfolding reduce_def fold Option.bind.simps self ..
  show ?thesis
    unfolding r
    by (simp add: in_direction_min_def in_direction_max_def in_direction_def
                  set_direction_max_def vec_set_def volume_of_def vec_min_def vec_max_def vec2_def mk_vec_def)
qed

theorem reduce_mirror_example_witness:
  "gv_wf (shift_origin (make_grid_volume D2 10 20 10 0) X (-20))
   \<and> gdim (shift_origin (make_grid_volume D2 10 20 10 0) X (-20)) = D2
   \<and> vv (center (shift_origin (make_grid_volume D2 10 20 10 0) X (-20))) X = 0
   \<and> (\<exists>e. reduce (mirror X (shift_origin (make_grid_volume D2 10 20 10 0) X (-20))) (\<lambda>x. x)
              [\<lparr>vl_v = volume_of (vec2 (-1) 0) (vec2 1 1), vl_c = Comp Ez, vl_w = 1\<rparr>] = Some [e]
          \<and> vl_c e = Comp Ez \<and> vl_w e = 2
          \<and> in_direction_min (vl_v e) X = -1 \<and> in_direction_max (vl_v e) X = 0
          \<and> in_direction_min (vl_v e) Y = 0 \<and> in_direction_max (vl_v e) Y = 1)"
proof -
  have wf: "gv_wf (shift_origin (make_grid_volume D2 10 20 10 0) X (-20))"
    by (intro wf_intros) simp_all
  have dm: "gdim (shift_origin (make_grid_volume D2 10 20 10 0) X (-20)) = D2"
    by (simp add: make_grid_volume_def set_origin_v_def set_origin_i_def num_changed_def set_strides_def
                  update_ntot_def)
  have c: "vv (center (shift_origin (make_grid_volume D2 10 20 10 0) X (-20))) X = 0"
    by (simp add: center_def icenter_def lattice_vec_def ivec_to_vec_def mk_vec_def ivec_plus_def mk_ivec_def
                  round_up_to_even_def ivec2_def shift_origin_def set_origin_d_def ivec_set_def
                  make_grid_volume_def set_origin_v_def set_origin_i_def round_vec_def num_changed_def
                  set_strides_def update_ntot_def nx_def ny_def nz_def num_direction_def zero_ivec_def zero_vec_def Let_def)
  show ?thesis using reduce_mirror_example[OF wf dm c, of "\<lambda>x. x"] wf dm c by blast
qed

text \<open>C31: under the identity symmetry \<open>reduce\<close> returns, and the total weight of
  the output equals that of the input: merging equal entries and dropping zero
  weights loses nothing.\<close>

theorem reduce_identity_conserves:
  "\<exists>out. reduce identity fl gl = Some out \<and> sum_list (map vl_w out) = sum_list (map vl_w gl)"
proof -
  have i: "identity \<noteq> []" "multiplicity identity = 1" by (simp_all add: identity_def identity_link_def)
  obtain mid where m: "reduce_fold identity fl gl [] = Some mid" "sum_list (map vl_w mid) = sum_list (map vl_w gl)"
    using reduce_fold_single[OF i, of fl gl "[]"] by auto
  obtain out where "reduce_self identity fl mid = Some out" "sum_list (map vl_w out) = sum_list (map vl_w mid)"
    using reduce_self_single[OF i(2)] by blast
  then show ?thesis using m by (simp add: reduce_def)
qed

text \<open>C32: for a well-formed symmetry (non-empty chain of links whose
  permutations keep every direction) \<open>reduce\<close> returns for every list: no
  \<open>transform\<close> it calls dereferences a null link.\<close>

theorem reduce_returns:
  assumes "sym_wf ss"
  shows "\<exists>out. reduce ss fl gl = Some out"
proof -
  have ne: "ss \<noteq> []" using assms by (simp add: sym_wf_def)
  have rng0: "\<And>sn d. sn \<in> set [0..multiplicity ss - 1] \<Longrightarrow> sym_transform ss d sn \<noteq> None"
    and rng1: "\<And>sn d. sn \<in> set [1..multiplicity ss - 1] \<Longrightarrow> sym_transform ss d sn \<noteq> None"
    using transform_some[OF assms] by simp_all
  have fold: "reduce_fold ss fl xs glnew \<noteq> None" for xs glnew
  proof (induction xs arbitrary: glnew)
    case (Cons g gs)
    obtain r found where "reduce_try ss fl g [0..multiplicity ss - 1] glnew = Some (r, found)"
      using reduce_try_some[OF ne rng0] by fastforce
    then show ?case using Cons by simp
  qed simp
  have self: "reduce_self ss fl xs \<noteq> None" for xs
  proof (induction xs)
    case (Cons g gs)
    obtain g' hv where "self_loop ss fl g (vl_w g) [1..multiplicity ss - 1] (\<lambda>_. False) = Some (g', hv)"
      using self_loop_some[OF ne rng1] by fastforce
    then show ?case using Cons by (auto simp: self_reduce_def)
  qed simp
  show ?thesis using fold[of gl "[]"] self by (auto simp: reduce_def bind_eq_None_conv)
qed

theorem reduce_returns_witness:
  "sym_wf (mirror X (make_grid_volume D2 10 4 4 0))
   \<and> (\<exists>out. reduce (mirror X (make_grid_volume D2 10 4 4 0)) (\<lambda>x. x)
              [\<lparr>vl_v = volume_of (vec2 0 0) (vec2 1 1), vl_c = Comp Ez, vl_w = 1\<rparr>] = Some out)"
proof -
  have wf: "sym_wf (mirror X (make_grid_volume D2 10 4 4 0))"
    using mirror_link_wf[of X "make_grid_volume D2 10 4 4 0"] by (simp add: sym_wf_def mirror_def)
  show ?thesis using reduce_returns[OF wf] wf by blast
qed

end
