(* ===== verification/Derived.thy ===== *)
theory Derived
  imports GridVolume
begin

text \<open>
  Derived components (\<open>src/vec.cpp\<close>, lines 1412-1467): the two pointwise functions
  \<open>poynting_fun\<close> and \<open>energy_fun\<close> and \<open>derived_component_func\<close>, which chooses the
  function and the stored components it reads.  The array \<open>fields\<close> of the C
  functions is a list; their unused arguments \<open>loc\<close> and \<open>data\<close> (apart from the
  count of \<open>energy_fun\<close>) are left out.  The out-parameters \<open>nfields\<close> and
  \<open>cs[12]\<close> are the returned list, whose length is \<open>nfields\<close>; the \<open>abort\<close> is an
  \<open>Inl\<close> message.
\<close>

section \<open>The pointwise functions\<close>

text \<open>\<open>poynting_fun\<close>: \<open>Re(conj(f0) f1) - Re(conj(f2) f3)\<close>.\<close>

definition poynting_fun :: "complex list \<Rightarrow> real" where
  "poynting_fun fs = Re (cnj (fs ! 0) * fs ! 1) - Re (cnj (fs ! 2) * fs ! 3)"

text \<open>The loop of \<open>energy_fun\<close> over the first \<open>n\<close> pairs.\<close>

fun energy_sum :: "complex list \<Rightarrow> nat \<Rightarrow> real" where
  "energy_sum fs 0 = 0"
| "energy_sum fs (Suc k) = energy_sum fs k + Re (cnj (fs ! (2 * k)) * fs ! (2 * k + 1))"

text \<open>\<open>energy_fun\<close>: \<open>nfields = *data / 2\<close> pairs, half the sum of their products.\<close>

definition energy_fun :: "complex list \<Rightarrow> int \<Rightarrow> real" where
  "energy_fun fs nf = energy_sum fs (nat (nf sdiv 2)) * (1 / 2)"

section \<open>Choosing the function and its components\<close>

datatype field_rfunction = Poynting_fun | Energy_fun

text \<open>
  \<open>grid_volume::has_field(c)\<close> of \<open>meep/vec.hpp\<close>: in 1D only \<open>Ex, Hy, Dx, By\<close>; in
  cylindrical coordinates the components along \<open>Z, R, P\<close> (enumeration value above
  \<open>Y\<close>); otherwise those along \<open>X, Y, Z\<close> (value below \<open>R\<close>).
\<close>

definition has_field :: "grid_volume \<Rightarrow> component \<Rightarrow> bool" where
  "has_field gv c =
     (if gdim gv = D1 then c \<in> {Ex, Hy, Dx, By}
      else if gdim gv = Dcyl then dir_num (component_direction c) > 1
      else dir_num (component_direction c) < 3)"

text \<open>\<open>FOR_ELECTRIC_COMPONENTS\<close> and \<open>FOR_MAGNETIC_COMPONENTS\<close>, in enumeration order.\<close>

definition electric_components :: "component list" where
  "electric_components = [Ex, Ey, Er, Ep, Ez]"

definition magnetic_components :: "component list" where
  "magnetic_components = [Hx, Hy, Hr, Hp, Hz]"

text \<open>The pair \<open>cs[0], cs[1]\<close> of a Poynting component.\<close>

fun poynting_pair :: "derived_component \<Rightarrow> component \<times> component" where
  "poynting_pair Sx = (Ey, Hz)"
| "poynting_pair Sy = (Ez, Hx)"
| "poynting_pair Sz = (Ex, Hy)"
| "poynting_pair Sr = (Ep, Hz)"
| "poynting_pair Sp = (Ez, Hr)"
| "poynting_pair _ = (Ex, Ex)"

text \<open>One loop of the energy case: every stored component \<open>c0\<close> of the list, followed
  by the component of kind \<open>first\<close> (\<open>Dx\<close> or \<open>Bx\<close>) along the direction of \<open>c0\<close>.\<close>

definition energy_pairs :: "grid_volume \<Rightarrow> component \<Rightarrow> component list \<Rightarrow> component list" where
  "energy_pairs gv first cs0 =
     concat (map (\<lambda>c0. if has_field gv c0 then [c0, direction_component first (component_direction c0)] else []) cs0)"

definition derived_component_func ::
  "derived_component \<Rightarrow> grid_volume \<Rightarrow> string + (field_rfunction \<times> component list)" where
  "derived_component_func c gv =
     (if c \<in> {Sx, Sy, Sz, Sr, Sp} then
        (let (c0, c1) = poynting_pair c
         in Inr (Poynting_fun, [c0, c1, direction_component Ex (component_direction c1),
                                direction_component Hx (component_direction c0)]))
      else
        (let cs = (if c \<noteq> H_EnergyDensity then energy_pairs gv Dx electric_components else [])
                  @ (if c \<noteq> D_EnergyDensity then energy_pairs gv Bx magnetic_components else [])
         in if length cs > 12 then Inl ''too many field components'' else Inr (Energy_fun, cs)))"

section \<open>Specification: the Poynting vector\<close>

text \<open>What a Poynting component means: the component along \<open>d\<close> of
  \<open>Re(conj(E) \<times> H)\<close>, with \<open>(d, a, b)\<close> a right-handed frame: \<open>(X, Y, Z)\<close> in
  Cartesian coordinates, \<open>(R, P, Z)\<close> for the radial and azimuthal directions.  The
  frame of \<open>Z\<close> is the Cartesian \<open>(X, Y)\<close>; in cylindrical coordinates it would be
  \<open>(R, P)\<close>.\<close>

definition frame :: "direction \<Rightarrow> direction \<times> direction" where
  "frame d = (case d of X \<Rightarrow> (Y, Z) | Y \<Rightarrow> (Z, X) | Z \<Rightarrow> (X, Y) | R \<Rightarrow> (P, Z) | P \<Rightarrow> (Z, R)
                       | NO_DIRECTION \<Rightarrow> (NO_DIRECTION, NO_DIRECTION))"

definition cross_re :: "(component \<Rightarrow> complex) \<Rightarrow> direction \<Rightarrow> real" where
  "cross_re f d =
     (let (a, b) = frame d
      in Re (cnj (f (kind_component E_stuff a)) * f (kind_component H_stuff b))
         - Re (cnj (f (kind_component E_stuff b)) * f (kind_component H_stuff a)))"

section \<open>Properties\<close>

text \<open>C34: for each Poynting component \<open>derived_component_func\<close> selects four stored
  components on which \<open>poynting_fun\<close> computes exactly the component of
  \<open>Re(conj(E) \<times> H)\<close> along its direction, for any field values.\<close>

theorem poynting_cross_product:
  "list_all (\<lambda>c. \<exists>cs. derived_component_func c gv = Inr (Poynting_fun, cs)
                     \<and> poynting_fun (map f cs) = cross_re f (derived_direction c)) [Sx, Sy, Sz, Sr, Sp]"
  by (simp add: derived_component_func_def poynting_fun_def cross_re_def frame_def direction_component_def)

text \<open>For each energy density and every grid, \<open>derived_component_func\<close>
  returns (it never reaches the \<open>too many field components\<close> abort) a list of
  at most 12 stored components in pairs.\<close>

theorem energy_density_components:
  "list_all (\<lambda>c. \<exists>cs. derived_component_func c gv = Inr (Energy_fun, cs)
                     \<and> even (length cs) \<and> length cs \<le> 12 \<and> list_all (has_field gv) cs)
            [EnergyDensity, D_EnergyDensity, H_EnergyDensity]"
  by (cases "gdim gv")
     (simp_all add: derived_component_func_def energy_pairs_def has_field_def electric_components_def
                    magnetic_components_def direction_component_def)

text \<open>C36: the electric energy density is half the sum of \<open>Re(conj(E_d) D_d)\<close> over
  the directions \<open>d\<close> whose \<open>E\<close> component the grid stores, the magnetic one half the
  sum of \<open>Re(conj(H_d) B_d)\<close>, and the total energy density is their sum, for any
  field values.\<close>

theorem energy_density_split:
  "\<exists>csE csD csH. derived_component_func EnergyDensity gv = Inr (Energy_fun, csE)
      \<and> derived_component_func D_EnergyDensity gv = Inr (Energy_fun, csD)
      \<and> derived_component_func H_EnergyDensity gv = Inr (Energy_fun, csH)
      \<and> energy_fun (map f csD) (int (length csD))
        = sum_list (map (\<lambda>d. if has_field gv (kind_component E_stuff d)
                             then Re (cnj (f (kind_component E_stuff d)) * f (kind_component D_stuff d)) else 0)
                        [X, Y, R, P, Z]) / 2
      \<and> energy_fun (map f csH) (int (length csH))
        = sum_list (map (\<lambda>d. if has_field gv (kind_component H_stuff d)
                             then Re (cnj (f (kind_component H_stuff d)) * f (kind_component B_stuff d)) else 0)
                        [X, Y, R, P, Z]) / 2
      \<and> energy_fun (map f csE) (int (length csE))
        = energy_fun (map f csD) (int (length csD)) + energy_fun (map f csH) (int (length csH))"
  by (cases "gdim gv")
     (simp_all add: derived_component_func_def energy_pairs_def has_field_def electric_components_def
                    magnetic_components_def direction_component_def energy_fun_def numeral_eq_Suc algebra_simps
)

text \<open>In cylindrical coordinates \<open>Sz\<close> still reads the Cartesian components
  \<open>Ex, Hy, Ey, Hx\<close>, none of which a cylindrical grid stores: the flux along
  \<open>z\<close> should be \<open>Re(conj(Er) Hp) - Re(conj(Ep) Hr)\<close>.\<close>

theorem poynting_Sz_cylinder:
  assumes "gdim gv = Dcyl"
  shows "derived_component_func Sz gv = Inr (Poynting_fun, [Ex, Hy, Ey, Hx])
         \<and> list_all (\<lambda>c. \<not> has_field gv c) [Ex, Hy, Ey, Hx]"
  using assms by (simp add: derived_component_func_def has_field_def direction_component_def)

theorem poynting_Sz_cylinder_witness:
  "gdim (make_grid_volume Dcyl 10 4 0 4) = Dcyl
   \<and> derived_component_func Sz (make_grid_volume Dcyl 10 4 0 4) = Inr (Poynting_fun, [Ex, Hy, Ey, Hx])
   \<and> list_all (\<lambda>c. \<not> has_field (make_grid_volume Dcyl 10 4 0 4) c) [Ex, Hy, Ey, Hx]"
proof -
  have g: "gdim (make_grid_volume Dcyl 10 4 0 4) = Dcyl"
    by (simp add: make_grid_volume_def set_origin_v_def set_origin_i_def num_changed_def set_strides_def
                  update_ntot_def)
  show ?thesis using poynting_Sz_cylinder[OF g] g by simp
qed

end
