(* ===== verification/Interp.thy ===== *)
theory Interp
  imports GridVolume
begin

text \<open>
  Interpolation support of \<open>src/vec.cpp\<close>: the compaction routine \<open>stupidsort\<close>
  (lines 502-530), which moves the entries whose weight is below \<open>2e-15\<close> out of the
  prefix of the weight and index arrays.  The arrays are lists; the in-place loop is a
  recursion on the remaining length with the array position as a parameter.
\<close>

section \<open>\<open>stupidsort\<close>\<close>

text \<open>The threshold \<open>2e-15\<close> below which \<open>stupidsort\<close> treats a weight as zero.\<close>

definition tiny_weight :: real where
  "tiny_weight = 2 / 10 ^ 15"

text \<open>
  \<open>stupidsort(ind, w, l)\<close>, lines 502-530 (the \<open>int\<close> and the \<open>ivec\<close> overloads are the
  same loop; \<open>z\<close> is the value written into a vacated slot: \<open>0\<close>, or the \<open>ivec\<close>
  converted from 0).  The pointers \<open>w\<close> and \<open>ind\<close>, advanced by the loop, are the
  position \<open>pos\<close> into the arrays; \<open>w[l-1]\<close> is the element at \<open>pos + l - 1\<close>.
\<close>

fun stupidsort_go :: "'a \<Rightarrow> real list \<Rightarrow> 'a list \<Rightarrow> nat \<Rightarrow> nat \<Rightarrow> real list \<times> 'a list" where
  "stupidsort_go z w ind pos 0 = (w, ind)"
| "stupidsort_go z w ind pos (Suc l) =
     (if \<bar>w ! pos\<bar> < tiny_weight then
        stupidsort_go z (w[pos := w ! (pos + l), pos + l := 0]) (ind[pos := ind ! (pos + l), pos + l := z]) pos l
      else stupidsort_go z w ind (Suc pos) l)"

definition stupidsort :: "'a \<Rightarrow> real list \<Rightarrow> 'a list \<Rightarrow> nat \<Rightarrow> real list \<times> 'a list" where
  "stupidsort z w ind l = stupidsort_go z w ind 0 l"

text \<open>
  A functional reading of the same loop on the list of \<open>(weight, payload)\<close> pairs of
  the unprocessed segment: a tiny head is replaced by the last element and the vacated
  last slot is zeroed.  It is the reference the in-place version is proved equal to.
\<close>

function seg_sort :: "'a \<Rightarrow> (real \<times> 'a) list \<Rightarrow> (real \<times> 'a) list" where
  "seg_sort z [] = []"
| "seg_sort z (x # xs) =
     (if \<bar>fst x\<bar> < tiny_weight then
        (if xs = [] then [(0, z)] else seg_sort z (last xs # butlast xs) @ [(0, z)])
      else x # seg_sort z xs)"
  by pat_completeness auto
termination by (relation "measure (\<lambda>(z, xs). length xs)") auto

section \<open>Lemmas\<close>

lemma zip_update2:
  "length w = length ind \<Longrightarrow> zip (w[i := a, j := b]) (ind[i := c, j := d]) = (zip w ind)[i := (a, c), j := (b, d)]"
  by (simp add: zip_update)

lemma take_drop_snoc: "k + m < length xs \<Longrightarrow> take (Suc m) (drop k xs) = take m (drop k xs) @ [xs ! (k + m)]"
  by (simp add: take_Suc_conv_app_nth)

lemma stupidsort_go_zip:
  assumes "length ind = length w" and "pos + l \<le> length w"
  shows "(case stupidsort_go z w ind pos l of (w', ind') \<Rightarrow> zip w' ind')
         = take pos (zip w ind) @ seg_sort z (take l (drop pos (zip w ind))) @ drop (pos + l) (zip w ind)"
  using assms
proof (induction l arbitrary: w ind pos)
  case 0
  then show ?case by simp
next
  case (Suc l)
  let ?S = "zip w ind"
  have pos: "pos < length ?S" using Suc.prems by simp
  have seg: "take (Suc l) (drop pos ?S) = ?S ! pos # take l (drop (Suc pos) ?S)"
    using pos by (simp add: Cons_nth_drop_Suc[symmetric])
  show ?case
  proof (cases "\<bar>w ! pos\<bar> < tiny_weight")
    case False
    have "take pos ?S @ [?S ! pos] = take (Suc pos) ?S" using pos by (simp add: take_Suc_conv_app_nth)
    then show ?thesis
      using Suc.IH[of ind w "Suc pos"] Suc.prems False seg pos by simp
  next
    case True
    let ?S1 = "?S[pos := ?S ! (pos + l), pos + l := (0, z)]"
    have S1: "zip (w[pos := w ! (pos + l), pos + l := 0]) (ind[pos := ind ! (pos + l), pos + l := z]) = ?S1"
      using Suc.prems by (simp add: zip_update2)
    have IH: "(case stupidsort_go z (w[pos := w ! (pos + l), pos + l := 0]) (ind[pos := ind ! (pos + l), pos + l := z]) pos l of
                (w', ind') \<Rightarrow> zip w' ind') = take pos ?S1 @ seg_sort z (take l (drop pos ?S1)) @ drop (pos + l) ?S1"
      using Suc.IH[of "ind[pos := ind ! (pos + l), pos + l := z]" "w[pos := w ! (pos + l), pos + l := 0]" pos] Suc.prems
      unfolding S1 by simp
    have tiny: "\<bar>fst (?S ! pos)\<bar> < tiny_weight" using True pos by simp
    have lt: "pos + l < length ?S" using Suc.prems by simp
    have take1: "take pos ?S1 = take pos ?S" by simp
    have drop1: "drop (pos + l) ?S1 = (0, z) # drop (Suc (pos + l)) ?S"
      using lt by (simp add: Cons_nth_drop_Suc[symmetric] drop_update_cancel)
    show ?thesis
    proof (cases l)
      case 0
      then show ?thesis using IH take1 drop1 seg tiny True by simp
    next
      case (Suc m)
      let ?xs = "take l (drop (Suc pos) ?S)"
      have snoc: "?xs = take m (drop (Suc pos) ?S) @ [?S ! (pos + l)]"
        using take_drop_snoc[of "Suc pos" m ?S] lt Suc by simp
      have xs: "?xs \<noteq> []" "last ?xs = ?S ! (pos + l)" "butlast ?xs = take m (drop (Suc pos) ?S)"
        by (simp_all only: snoc) simp_all
      have d1: "drop pos ?S1 = ?S1 ! pos # drop (Suc pos) ?S1"
        using lt by (intro Cons_nth_drop_Suc[symmetric]) simp
      have d2: "drop (Suc pos) ?S1 = (drop (Suc pos) ?S)[m := (0, z)]"
        using lt Suc by (simp add: drop_update_swap drop_update_cancel)
      have mid: "take l (drop pos ?S1) = ?S ! (pos + l) # take m (drop (Suc pos) ?S)"
        unfolding d1 d2 using lt Suc by (simp add: nth_list_update take_update_cancel)
      show ?thesis using IH take1 drop1 seg tiny xs mid True by simp
    qed
  qed
qed

lemma seg_sort_length [simp]: "length (seg_sort z xs) = length xs"
  by (induction z xs rule: seg_sort.induct) auto

lemma seg_sort_compacts:
  "\<exists>kept. seg_sort z xs = kept @ replicate (length xs - length kept) (0, z)
          \<and> list_all (\<lambda>p. \<not> \<bar>fst p\<bar> < tiny_weight) kept
          \<and> mset kept = mset (filter (\<lambda>p. \<not> \<bar>fst p\<bar> < tiny_weight) xs)"
proof (induction z xs rule: seg_sort.induct)
  case (1 z)
  then show ?case by simp
next
  case (2 z x xs)
  show ?case
  proof (cases "\<bar>fst x\<bar> < tiny_weight")
    case True
    show ?thesis
    proof (cases "xs = []")
      case True
      with \<open>\<bar>fst x\<bar> < tiny_weight\<close> show ?thesis by (intro exI[of _ "[]"]) simp
    next
      case False
      have l: "length (last xs # butlast xs) = length xs" using False by simp
      obtain kept where k: "seg_sort z (last xs # butlast xs) = kept @ replicate (length xs - length kept) (0, z)"
        "list_all (\<lambda>p. \<not> \<bar>fst p\<bar> < tiny_weight) kept"
        "mset kept = mset (filter (\<lambda>p. \<not> \<bar>fst p\<bar> < tiny_weight) (last xs # butlast xs))"
        using 2(1)[OF True False] unfolding l by blast
      have m: "mset (last xs # butlast xs) = mset xs"
      proof -
        have "mset xs = mset (butlast xs @ [last xs])" using False by simp
        then show ?thesis by simp
      qed
      have len: "length kept \<le> length xs"
        using arg_cong[OF k(1), of length] l by (simp del: seg_sort.simps)
      have "mset (filter (\<lambda>p. \<not> \<bar>fst p\<bar> < tiny_weight) (last xs # butlast xs))
            = mset (filter (\<lambda>p. \<not> \<bar>fst p\<bar> < tiny_weight) xs)"
        by (simp only: mset_filter m)
      then show ?thesis
        using k True False len by (intro exI[of _ kept]) (simp add: Suc_diff_le replicate_app_Cons_same)
    qed
  next
    case False
    obtain kept where k: "seg_sort z xs = kept @ replicate (length xs - length kept) (0, z)"
      "list_all (\<lambda>p. \<not> \<bar>fst p\<bar> < tiny_weight) kept"
      "mset kept = mset (filter (\<lambda>p. \<not> \<bar>fst p\<bar> < tiny_weight) xs)"
      using 2(2)[OF False] by blast
    then show ?thesis using False by (intro exI[of _ "x # kept"]) simp
  qed
qed

section \<open>Properties\<close>

text \<open>
  C12 (\<open>stupidsort\<close> compacts).  Run over whole arrays of equal length, \<open>stupidsort\<close>
  leaves a prefix of entries whose weights are all at least \<open>2e-15\<close> in magnitude,
  holding exactly the non-tiny (weight, index) pairs of the input as a multiset, followed
  by zero weights paired with the zero index.
\<close>

theorem stupidsort_compacts:
  assumes "length ind = length w" and "stupidsort z w ind (length w) = (w', ind')"
  shows "\<exists>kept. zip w' ind' = kept @ replicate (length w - length kept) (0, z)
          \<and> list_all (\<lambda>p. \<not> \<bar>fst p\<bar> < tiny_weight) kept
          \<and> mset kept = mset (filter (\<lambda>p. \<not> \<bar>fst p\<bar> < tiny_weight) (zip w ind))"
proof -
  have "zip w' ind' = seg_sort z (zip w ind)"
    using stupidsort_go_zip[of ind w 0 "length w" z] assms by (simp add: stupidsort_def)
  then show ?thesis using seg_sort_compacts[of z "zip w ind"] assms(1) by simp
qed

theorem stupidsort_compacts_witness:
  "length [10, 11, 12 :: int] = length [0, 1, 2 :: real]
   \<and> stupidsort (0::int) [0, 1, 2] [10, 11, 12] (length [0, 1, 2 :: real]) = ([2, 1, 0], [12, 11, 0])
   \<and> (\<exists>kept. zip [2, 1, 0 :: real] [12, 11, 0 :: int] = kept @ replicate (length [0, 1, 2 :: real] - length kept) (0, 0)
          \<and> list_all (\<lambda>p. \<not> \<bar>fst p\<bar> < tiny_weight) kept
          \<and> mset kept = mset (filter (\<lambda>p. \<not> \<bar>fst p\<bar> < tiny_weight) (zip [0, 1, 2] [10, 11, 12 :: int])))"
proof -
  have s: "stupidsort (0::int) [0, 1, 2] [10, 11, 12] (length [0, 1, 2 :: real]) = ([2, 1, 0], [12, 11, 0])"
    by (simp add: stupidsort_def tiny_weight_def numeral_3_eq_3 eval_nat_numeral)
  show ?thesis using stupidsort_compacts[OF _ s] s by simp
qed

text \<open>
  \<open>stupidsort\<close> does not keep the order.  The specification calls the
  compaction stable (relative order of kept entries preserved).  The code moves the last
  entry into a vacated slot: on weights \<open>[0, 1, 2]\<close> it returns \<open>[2, 1, 0]\<close>, while the
  kept entries in input order are \<open>1, 2\<close>.
\<close>

theorem stupidsort_reorders:
  "stupidsort (0::int) [0, 1, 2] [10, 11, 12] 3 = ([2, 1, 0], [12, 11, 0])
   \<and> filter (\<lambda>p. \<not> \<bar>fst p\<bar> < tiny_weight) (zip [0, 1, 2] [10, 11, 12 :: int]) = [(1, 11), (2, 12)]"
  by (simp add: stupidsort_def tiny_weight_def numeral_3_eq_3 eval_nat_numeral)

end
