(* ===== verification/Lattice.thy ===== *)
theory Lattice
  imports Volume
begin

text \<open>
  Lattice queries and constructors of \<open>grid_volume\<close> in \<open>src/vec.cpp\<close>: the
  Yee-lattice offsets (\<open>eps_component\<close>, \<open>yee_shift\<close>, \<open>yee2cent_offsets\<close>,
  \<open>cent2yee_offsets\<close>, lines 313-351), the patches of not-owned points
  (\<open>get_boundary_icorners\<close>, lines 394-430), \<open>has_boundary\<close> (472-480), the continuous
  extents (\<open>xmax\<close> ... \<open>rmin\<close>, 649-697), \<open>boundary_location\<close> (703-724),
  \<open>loc_at_resolution\<close> and \<open>ntot_at_resolution\<close> (823-847), \<open>loc\<close> (849-851), the cell
  vectors \<open>dr\<close> ... \<open>dz\<close> (863-897) and the constructors \<open>volone\<close> ... \<open>volcyl\<close>
  (899-925).  An \<open>abort()\<close> is \<open>None\<close>.
\<close>

section \<open>Yee-lattice offsets\<close>

definition eps_component :: "ndim \<Rightarrow> component" where
  "eps_component dm = (case dm of D1 \<Rightarrow> Hy | D2 \<Rightarrow> Hz | D3 \<Rightarrow> Dielectric | Dcyl \<Rightarrow> Hp)"

definition yee_shift :: "grid_volume \<Rightarrow> component \<Rightarrow> vec" where
  "yee_shift gv c = lattice_vec gv (iyee_shift gv c)"

text \<open>
  The loop of \<open>yee2cent_offsets\<close>: every active direction along which \<open>c\<close> is not
  shifted contributes its stride, first to \<open>offset1\<close>, then to \<open>offset2\<close>; a third
  one aborts.
\<close>

fun yee2cent_loop :: "grid_volume \<Rightarrow> component \<Rightarrow> direction list \<Rightarrow> int \<Rightarrow> int \<Rightarrow> (int \<times> int) option" where
  "yee2cent_loop gv c [] o1 o2 = Some (o1, o2)"
| "yee2cent_loop gv c (d # ds) o1 o2 =
     (if iv (iyee_shift gv c) d = 0 then
        (if o2 \<noteq> 0 then None
         else if o1 \<noteq> 0 then yee2cent_loop gv c ds o1 (the_stride gv d)
         else yee2cent_loop gv c ds (the_stride gv d) o2)
      else yee2cent_loop gv c ds o1 o2)"

definition yee2cent_offsets :: "grid_volume \<Rightarrow> component \<Rightarrow> (int \<times> int) option" where
  "yee2cent_offsets gv c = yee2cent_loop gv c (loop_dirs (gdim gv)) 0 0"

definition cent2yee_offsets :: "grid_volume \<Rightarrow> component \<Rightarrow> (int \<times> int) option" where
  "cent2yee_offsets gv c = map_option (\<lambda>(o1, o2). (- o1, - o2)) (yee2cent_offsets gv c)"

section \<open>Patches of points that are stored but not owned\<close>

text \<open>
  The loop of \<open>get_boundary_icorners(c, ib, cs, ce)\<close>: \<open>jb\<close> counts the patches met
  so far; patch \<open>ib\<close> is returned as soon as it is met (\<open>Inr\<close>), otherwise the
  running corners are clipped to the owned range and the loop goes on (\<open>Inl\<close> at the
  end).
\<close>

fun boundary_loop :: "ivec \<Rightarrow> ivec \<Rightarrow> ivec \<Rightarrow> ivec \<Rightarrow> int \<Rightarrow> direction list \<Rightarrow> int \<Rightarrow> ivec \<Rightarrow> ivec
                      \<Rightarrow> (ivec \<times> ivec) + (ivec \<times> ivec)" where
  "boundary_loop cl cb clo cbo ib [] jb cs ce = Inl (cs, ce)"
| "boundary_loop cl cb clo cbo ib (d # ds) jb cs ce =
     (if iv cl d < iv clo d \<and> jb = ib then Inr (cs, ivec_set ce d (iv cs d))
      else
        let (cs, jb) = (if iv cl d < iv clo d then (ivec_set cs d (iv clo d), jb + 1) else (cs, jb))
        in if iv cb d > iv cbo d \<and> jb = ib then Inr (ivec_set cs d (iv ce d), ce)
           else
             let (ce, jb) = (if iv cb d > iv cbo d then (ivec_set ce d (iv cbo d), jb + 1) else (ce, jb))
             in boundary_loop cl cb clo cbo ib ds jb cs ce)"

definition get_boundary_icorners :: "grid_volume \<Rightarrow> component \<Rightarrow> int \<Rightarrow> bool \<times> ivec \<times> ivec" where
  "get_boundary_icorners gv c ib =
     (let cl = ivec_plus (io gv) (iyee_shift gv c);
          cb = ivec_plus (big_corner gv) (iyee_shift gv c);
          clo = little_owned_corner gv c;
          cbo = ivec_minus (big_corner gv) (iyee_shift gv c)
      in case boundary_loop cl cb clo cbo ib (loop_dirs (gdim gv)) 0 cl cb of
           Inr (cs, ce) \<Rightarrow> (True, cs, ce)
         | Inl _ \<Rightarrow> (False, one_ivec (gdim gv), ivec_neg (one_ivec (gdim gv))))"

definition has_boundary :: "grid_volume \<Rightarrow> boundary_side \<Rightarrow> direction \<Rightarrow> bool" where
  "has_boundary gv b d =
     (case gdim gv of
        Dcyl \<Rightarrow> d = Z \<or> (d = R \<and> (b = High \<or> vv (origin gv) R > 0))
      | D1 \<Rightarrow> d = Z
      | D2 \<Rightarrow> d = X \<or> d = Y
      | D3 \<Rightarrow> d = X \<or> d = Y \<or> d = Z)"

section \<open>Continuous extents and positions\<close>

definition loc :: "grid_volume \<Rightarrow> component \<Rightarrow> int \<Rightarrow> vec option" where
  "loc gv c ind = map_option (lattice_vec gv) (iloc gv c ind)"

definition xmax :: "grid_volume \<Rightarrow> real" where
  "xmax gv = vv (origin gv) X + of_int (nx gv) * inva gv + 1 / 4 * inva gv"

definition xmin :: "grid_volume \<Rightarrow> real" where
  "xmin gv = vv (origin gv) X + 1 / 4 * inva gv"

definition ymax :: "grid_volume \<Rightarrow> real" where
  "ymax gv = vv (origin gv) Y + of_int (ny gv) * inva gv + 1 / 4 * inva gv"

definition ymin :: "grid_volume \<Rightarrow> real" where
  "ymin gv = vv (origin gv) Y + 1 / 4 * inva gv"

definition zmax :: "grid_volume \<Rightarrow> real" where
  "zmax gv = vv (origin gv) Z + of_int (nz gv) * inva gv + 1 / 4 * inva gv"

definition zmin :: "grid_volume \<Rightarrow> real" where
  "zmin gv = vv (origin gv) Z + 1 / 4 * inva gv"

definition rmax :: "grid_volume \<Rightarrow> real option" where
  "rmax gv = (if gdim gv = Dcyl then Some (vv (origin gv) R + of_int (nr gv) * inva gv + 1 / 4 * inva gv)
              else None)"

definition rmin :: "grid_volume \<Rightarrow> real option" where
  "rmin gv = (if gdim gv = Dcyl then Some (if vv (origin gv) R = 0 then 0 else vv (origin gv) R + 1 / 4 * inva gv)
              else None)"

text \<open>\<open>boundary_location(b, d)\<close>: the position of the first or last \<open>Ez\<close> (\<open>Ep\<close> in
  cylindrical coordinates, \<open>Ex\<close> for \<open>Z\<close> outside them) point along \<open>d\<close>.\<close>

definition boundary_location :: "grid_volume \<Rightarrow> boundary_side \<Rightarrow> direction \<Rightarrow> real option" where
  "boundary_location gv b d =
     (let ind = (if b = High then the_ntot gv - 1 else 0)
      in case d of
           X \<Rightarrow> map_option (\<lambda>p. vv p X) (loc gv Ez ind)
         | Y \<Rightarrow> map_option (\<lambda>p. vv p Y) (loc gv Ez ind)
         | R \<Rightarrow> map_option (\<lambda>p. vv p R) (loc gv Ep ind)
         | Z \<Rightarrow> map_option (\<lambda>p. vv p Z) (loc gv (if gdim gv = Dcyl then Ep else Ex) ind)
         | _ \<Rightarrow> None)"

text \<open>The loop of \<open>loc_at_resolution(index, res)\<close> over \<open>X, Y, Z, R\<close>: each axis with a
  high boundary takes the digit \<open>index % nhere\<close> and passes on \<open>index / nhere\<close>.\<close>

fun loc_res_loop :: "grid_volume \<Rightarrow> real \<Rightarrow> direction list \<Rightarrow> vec \<Rightarrow> int \<Rightarrow> vec option" where
  "loc_res_loop gv res [] wh idx = Some wh"
| "loc_res_loop gv res (d # ds) wh idx =
     (if has_boundary gv High d then
        Option.bind (boundary_location gv High d) (\<lambda>hi.
        Option.bind (boundary_location gv Low d) (\<lambda>lo.
          let nhere = max 1 \<lfloor>(hi - lo) * res + 1 / 2\<rfloor>
          in loc_res_loop gv res ds
               (vec_set wh d (vv (origin gv) d + (of_int (idx smod nhere) + 1 / 2) * (1 / res)))
               (idx sdiv nhere)))
      else loc_res_loop gv res ds wh idx)"

definition loc_at_resolution :: "grid_volume \<Rightarrow> int \<Rightarrow> real \<Rightarrow> vec option" where
  "loc_at_resolution gv idx res = loc_res_loop gv res [X, Y, Z, R] (origin gv) idx"

fun ntot_res_loop :: "grid_volume \<Rightarrow> real \<Rightarrow> direction list \<Rightarrow> int \<Rightarrow> int option" where
  "ntot_res_loop gv res [] mytot = Some mytot"
| "ntot_res_loop gv res (d # ds) mytot =
     (if has_boundary gv High d then
        Option.bind (boundary_location gv High d) (\<lambda>hi.
        Option.bind (boundary_location gv Low d) (\<lambda>lo.
          ntot_res_loop gv res ds (mytot * max 1 (c_trunc ((hi - lo) * res + 1 / 2)))))
      else ntot_res_loop gv res ds mytot)"

definition ntot_at_resolution :: "grid_volume \<Rightarrow> real \<Rightarrow> int option" where
  "ntot_at_resolution gv res = ntot_res_loop gv res [X, Y, Z, R] 1"

section \<open>Cell vectors and constructors\<close>

definition dr :: "grid_volume \<Rightarrow> vec option" where
  "dr gv = (if gdim gv = Dcyl then Some (veccyl (inva gv) 0) else None)"

definition dx :: "grid_volume \<Rightarrow> vec option" where
  "dx gv = (case gdim gv of D3 \<Rightarrow> Some (vec3 (inva gv) 0 0) | D2 \<Rightarrow> Some (vec2 (inva gv) 0) | _ \<Rightarrow> None)"

definition dy :: "grid_volume \<Rightarrow> vec option" where
  "dy gv = (case gdim gv of D3 \<Rightarrow> Some (vec3 0 (inva gv) 0) | D2 \<Rightarrow> Some (vec2 0 (inva gv)) | _ \<Rightarrow> None)"

definition dz :: "grid_volume \<Rightarrow> vec option" where
  "dz gv = (case gdim gv of Dcyl \<Rightarrow> Some (veccyl 0 (inva gv)) | D3 \<Rightarrow> Some (vec3 0 0 (inva gv))
                          | D1 \<Rightarrow> Some (vec1 (inva gv)) | D2 \<Rightarrow> None)"

text \<open>The number of cells \<open>(int)(size*a + 0.5)\<close> of an extent, 1 for a zero extent
  where the constructor asks for it.\<close>

definition cells :: "real \<Rightarrow> real \<Rightarrow> int" where
  "cells sz a = c_trunc (sz * a + 1 / 2)"

definition volone :: "real \<Rightarrow> real \<Rightarrow> grid_volume" where
  "volone zsize a = make_grid_volume D1 a 0 0 (cells zsize a)"

definition voltwo :: "real \<Rightarrow> real \<Rightarrow> real \<Rightarrow> grid_volume" where
  "voltwo xsize ysize a =
     make_grid_volume D2 a (if xsize = 0 then 1 else cells xsize a) (if ysize = 0 then 1 else cells ysize a) 0"

definition vol1d :: "real \<Rightarrow> real \<Rightarrow> grid_volume" where
  "vol1d zsize a = volone zsize a"

definition vol2d :: "real \<Rightarrow> real \<Rightarrow> real \<Rightarrow> grid_volume" where
  "vol2d xsize ysize a = voltwo xsize ysize a"

definition vol3d :: "real \<Rightarrow> real \<Rightarrow> real \<Rightarrow> real \<Rightarrow> grid_volume" where
  "vol3d xsize ysize zsize a =
     make_grid_volume D3 a (if xsize = 0 then 1 else cells xsize a) (if ysize = 0 then 1 else cells ysize a)
                           (if zsize = 0 then 1 else cells zsize a)"

definition volcyl :: "real \<Rightarrow> real \<Rightarrow> real \<Rightarrow> grid_volume" where
  "volcyl rsize zsize a =
     (if zsize = 0 then make_grid_volume Dcyl a (cells rsize a) 0 1
      else make_grid_volume Dcyl a (cells rsize a) 0 (cells zsize a))"

section \<open>Helpers of the proofs\<close>

text \<open>The active directions along which component \<open>c\<close> is not shifted.\<close>

definition zero_shift_count :: "grid_volume \<Rightarrow> component \<Rightarrow> direction list \<Rightarrow> nat" where
  "zero_shift_count gv c ds = length (filter (\<lambda>d. iv (iyee_shift gv c) d = 0) ds)"

text \<open>The number of patches \<open>get_boundary_icorners\<close> enumerates.\<close>

definition patch_count :: "ivec \<Rightarrow> ivec \<Rightarrow> ivec \<Rightarrow> ivec \<Rightarrow> direction list \<Rightarrow> int" where
  "patch_count cl cb clo cbo ds =
     sum_list (map (\<lambda>d. (if iv cl d < iv clo d then 1 else 0) + (if iv cb d > iv cbo d then 1 else 0)) ds)"

definition boundary_patches :: "grid_volume \<Rightarrow> component \<Rightarrow> int" where
  "boundary_patches gv c =
     patch_count (ivec_plus (io gv) (iyee_shift gv c)) (ivec_plus (big_corner gv) (iyee_shift gv c))
                 (little_owned_corner gv c) (ivec_minus (big_corner gv) (iyee_shift gv c)) (loop_dirs (gdim gv))"

section \<open>Lemmas\<close>

lemma yee2cent_loop_none:
  assumes "\<forall>d\<in>set ds. the_stride gv d \<noteq> 0" and "o2 \<noteq> 0 \<longrightarrow> o1 \<noteq> 0"
  shows "yee2cent_loop gv c ds o1 o2 = None
         \<longleftrightarrow> (if o2 \<noteq> 0 then 2 else if o1 \<noteq> 0 then 1 else 0) + zero_shift_count gv c ds > (2::nat)"
  using assms by (induction ds arbitrary: o1 o2) (auto simp: zero_shift_count_def)

lemma zero_shift_count_loop:
  "zero_shift_count gv c (loop_dirs (gdim gv)) > 2
   \<longleftrightarrow> gdim gv = D3 \<and> (is_electric c \<or> is_D c) \<and> (component_direction c = R \<or> component_direction c = P)"
  by (cases "gdim gv"; cases c)
     (simp_all add: zero_shift_count_def iyee_shift_def is_electric_def is_D_def is_magnetic_def is_B_def)

lemma cells_nonneg: "0 \<le> sz \<Longrightarrow> 0 < a \<Longrightarrow> 0 \<le> cells sz a"
  by (simp add: cells_def)

lemma make_grid_volume_fields:
  "gdim (make_grid_volume td ta na nb nc) = td \<and> a_res (make_grid_volume td ta na nb nc) = ta
   \<and> num (make_grid_volume td ta na nb nc) = [na, nb, nc]"
  by (simp add: make_grid_volume_def set_origin_v_def set_origin_i_def num_changed_def set_strides_def
                update_ntot_def)

lemma cells_round: "0 \<le> sz \<Longrightarrow> 0 < a \<Longrightarrow> \<bar>of_int (cells sz a) - sz * a\<bar> \<le> 1 / 2"
proof -
  assume "0 \<le> sz" "0 < a"
  then have "0 \<le> sz * a + 1 / 2" by simp
  then have c: "cells sz a = \<lfloor>sz * a + 1 / 2\<rfloor>" by (simp add: cells_def)
  have "of_int \<lfloor>sz * a + 1 / 2\<rfloor> \<le> sz * a + 1 / 2" "sz * a + 1 / 2 < of_int \<lfloor>sz * a + 1 / 2\<rfloor> + 1"
    by linarith+
  then show ?thesis unfolding c by linarith
qed

lemma patch_count_simps [simp]:
  "patch_count cl cb clo cbo [] = 0"
  "patch_count cl cb clo cbo (d # ds) = (if iv cl d < iv clo d then 1 else 0) + (if iv cb d > iv cbo d then 1 else 0)
                                        + patch_count cl cb clo cbo ds"
  by (simp_all add: patch_count_def)

lemma patch_count_nonneg: "0 \<le> patch_count cl cb clo cbo ds"
  by (induction ds) simp_all

lemma boundary_loop_found:
  "(\<exists>p. boundary_loop cl cb clo cbo ib ds jb cs ce = Inr p) \<longleftrightarrow> jb \<le> ib \<and> ib < jb + patch_count cl cb clo cbo ds"
proof (induction ds arbitrary: jb cs ce)
  case Nil
  then show ?case by simp
next
  case (Cons d ds)
  show ?case using Cons.IH patch_count_nonneg[of cl cb clo cbo ds] by (auto simp: Let_def)
qed

lemma patch_count_one:
  assumes "\<And>d. d \<in> set ds \<Longrightarrow> (if iv cl d < iv clo d then 1 else 0) + (if iv cb d > iv cbo d then 1 else 0) = (1::int)"
  shows "patch_count cl cb clo cbo ds = int (length ds)"
  using assms by (induction ds) auto

section \<open>Properties\<close>

text \<open>
  C22 (when \<open>yee2cent_offsets\<close> aborts).  On a well-formed descriptor,
  \<open>yee2cent_offsets(c)\<close> aborts with \<open>weird yee shift\<close> exactly for the electric and
  \<open>D\<close> components along \<open>R\<close> or \<open>P\<close> on a 3D grid, where three active directions
  are unshifted; for every other component it returns the strides to average over.
\<close>

theorem yee2cent_offsets_abort:
  assumes "gv_wf gv"
  shows "yee2cent_offsets gv c = None
         \<longleftrightarrow> gdim gv = D3 \<and> (is_electric c \<or> is_D c) \<and> (component_direction c = R \<or> component_direction c = P)"
proof -
  have "\<forall>d\<in>set (loop_dirs (gdim gv)). the_stride gv d \<noteq> 0"
    using gv_wf_stride_pos[OF assms] gv_wf_stride[OF assms] by (fastforce simp: has_direction_def)
  then show ?thesis
    unfolding yee2cent_offsets_def using yee2cent_loop_none[of _ gv 0 0 c] zero_shift_count_loop by simp
qed

theorem yee2cent_offsets_abort_witness:
  "gv_wf (make_grid_volume D3 10 2 3 4) \<and> (yee2cent_offsets (make_grid_volume D3 10 2 3 4) Er = None
     \<longleftrightarrow> gdim (make_grid_volume D3 10 2 3 4) = D3 \<and> (is_electric Er \<or> is_D Er) \<and> (component_direction Er = R \<or> component_direction Er = P))"
proof -
  have wf: "gv_wf (make_grid_volume D3 10 2 3 4)" by (rule make_grid_volume_wf) simp_all
  show ?thesis using yee2cent_offsets_abort[OF wf, of Er] wf by simp
qed

text \<open>
  C23 (what the constructors build).  For a positive resolution \<open>a\<close> and
  non-negative sizes, \<open>vol3d\<close>, \<open>voltwo\<close>, \<open>volone\<close> and \<open>volcyl\<close> return
  well-formed descriptors of their dimensionality and resolution whose extent along each
  axis is the size times \<open>a\<close> rounded to the nearest integer (within half a cell), and one
  cell along an axis of size zero where the code guards with \<open>size == 0 ? 1\<close>.
\<close>

theorem constructors_extents:
  assumes a: "0 < a" and s: "0 \<le> x" "0 \<le> y" "0 \<le> z"
  shows "gv_wf (vol3d x y z a) \<and> gdim (vol3d x y z a) = D3 \<and> a_res (vol3d x y z a) = a
         \<and> (x = 0 \<and> nx (vol3d x y z a) = 1 \<or> 0 < x \<and> \<bar>of_int (nx (vol3d x y z a)) - x * a\<bar> \<le> 1 / 2)
         \<and> (y = 0 \<and> ny (vol3d x y z a) = 1 \<or> 0 < y \<and> \<bar>of_int (ny (vol3d x y z a)) - y * a\<bar> \<le> 1 / 2)
         \<and> (z = 0 \<and> nz (vol3d x y z a) = 1 \<or> 0 < z \<and> \<bar>of_int (nz (vol3d x y z a)) - z * a\<bar> \<le> 1 / 2)
         \<and> gv_wf (voltwo x y a) \<and> gdim (voltwo x y a) = D2 \<and> a_res (voltwo x y a) = a
         \<and> (x = 0 \<and> nx (voltwo x y a) = 1 \<or> 0 < x \<and> \<bar>of_int (nx (voltwo x y a)) - x * a\<bar> \<le> 1 / 2)
         \<and> (y = 0 \<and> ny (voltwo x y a) = 1 \<or> 0 < y \<and> \<bar>of_int (ny (voltwo x y a)) - y * a\<bar> \<le> 1 / 2)
         \<and> gv_wf (volone z a) \<and> gdim (volone z a) = D1 \<and> a_res (volone z a) = a
         \<and> \<bar>of_int (nz (volone z a)) - z * a\<bar> \<le> 1 / 2
         \<and> gv_wf (volcyl x z a) \<and> gdim (volcyl x z a) = Dcyl \<and> a_res (volcyl x z a) = a
         \<and> \<bar>of_int (nr (volcyl x z a)) - x * a\<bar> \<le> 1 / 2
         \<and> (z = 0 \<and> nz (volcyl x z a) = 1 \<or> 0 < z \<and> \<bar>of_int (nz (volcyl x z a)) - z * a\<bar> \<le> 1 / 2)"
proof -
  note f = make_grid_volume_fields
  note r = cells_round[OF s(1) a] cells_round[OF s(2) a] cells_round[OF s(3) a]
  have wf: "gv_wf (volone z a) \<and> gv_wf (voltwo x y a) \<and> gv_wf (vol3d x y z a) \<and> gv_wf (volcyl x z a)"
    using a s cells_nonneg[of x a] cells_nonneg[of y a] cells_nonneg[of z a]
    by (auto simp: volone_def voltwo_def vol3d_def volcyl_def intro!: make_grid_volume_wf)
  have "x = 0 \<or> 0 < x" "y = 0 \<or> 0 < y" "z = 0 \<or> 0 < z" using s by auto
  then show ?thesis using wf r a
    by (auto simp: volone_def voltwo_def vol3d_def volcyl_def f nx_def ny_def nz_def nr_def)
qed

theorem constructors_extents_witness:
  "0 < (10::real) \<and> 0 \<le> (1::real) \<and> 0 \<le> (1 / 2 :: real) \<and> 0 \<le> (0::real)
   \<and> gv_wf (vol3d 1 (1 / 2) 0 10) \<and> gdim (vol3d 1 (1 / 2) 0 10) = D3
   \<and> \<bar>of_int (nx (vol3d 1 (1 / 2) 0 10)) - 10\<bar> \<le> (1 / 2 :: real)
   \<and> \<bar>of_int (ny (vol3d 1 (1 / 2) 0 10)) - 5\<bar> \<le> (1 / 2 :: real)
   \<and> nz (vol3d 1 (1 / 2) 0 10) = 1 \<and> nz (volcyl 1 0 10) = 1"
  using constructors_extents[of 10 1 "1 / 2" 0] by simp

text \<open>
  C24 (enumeration of the not-owned patches).  \<open>get_boundary_icorners(c, ib)\<close>
  succeeds exactly for \<open>0 \<le> ib <\<close> the number of patches met in the order of the
  loop (per active direction the low side, then the high side); any other index returns
  false with the inverted sentinel corners.
\<close>

theorem get_boundary_icorners_valid:
  "fst (get_boundary_icorners gv c ib) \<longleftrightarrow> 0 \<le> ib \<and> ib < boundary_patches gv c"
proof -
  have "(\<exists>p. boundary_loop (ivec_plus (io gv) (iyee_shift gv c)) (ivec_plus (big_corner gv) (iyee_shift gv c))
                (little_owned_corner gv c) (ivec_minus (big_corner gv) (iyee_shift gv c)) ib (loop_dirs (gdim gv)) 0
                (ivec_plus (io gv) (iyee_shift gv c)) (ivec_plus (big_corner gv) (iyee_shift gv c)) = Inr p)
        \<longleftrightarrow> 0 \<le> ib \<and> ib < boundary_patches gv c"
    unfolding boundary_patches_def using boundary_loop_found[where jb = 0] by simp
  then show ?thesis
    by (auto simp: get_boundary_icorners_def Let_def split: sum.splits)
qed


text \<open>
  C25 (one patch per axis).  For a well-formed descriptor that is not a cylinder with
  its origin on the axis, every active direction contributes exactly one patch of
  stored-but-not-owned points (the low side for a component unshifted along it, the
  high side for a shifted one), so there are as many patches as active directions.
\<close>

theorem boundary_patches_per_axis:
  assumes wf: "gv_wf gv" and ax: "\<not> (gdim gv = Dcyl \<and> vv (origin gv) R = 0)"
  shows "boundary_patches gv c = int (length (loop_dirs (gdim gv)))"
proof -
  have io: "ivdim (io gv) = gdim gv" using wf by (simp add: gv_wf_def)
  have one: "(if iv (ivec_plus (io gv) (iyee_shift gv c)) d < iv (little_owned_corner gv c) d then 1 else 0)
             + (if iv (ivec_plus (big_corner gv) (iyee_shift gv c)) d > iv (ivec_minus (big_corner gv) (iyee_shift gv c)) d
                then 1 else 0) = (1::int)"
    if "d \<in> set (loop_dirs (gdim gv))" for d
  proof -
    have hd: "has_direction (gdim gv) d" using that by (simp add: has_direction_def)
    have s: "0 \<le> iv (iyee_shift gv c) d \<and> iv (iyee_shift gv c) d \<le> 1" by (rule iyee_shift_range)
    show ?thesis
      using hd io ax s
      by (auto simp: little_owned_corner_def little_owned_corner0_def ivec_plus_def ivec_minus_def
                     ivec_scale_def one_ivec_def Let_def)
  qed
  show ?thesis unfolding boundary_patches_def by (rule patch_count_one) (rule one)
qed

theorem boundary_patches_per_axis_witness:
  "gv_wf (make_grid_volume D2 10 4 5 0) \<and> gdim (make_grid_volume D2 10 4 5 0) = D2 \<and> boundary_patches (make_grid_volume D2 10 4 5 0) Ez = int (length (loop_dirs (gdim (make_grid_volume D2 10 4 5 0))))"
proof -
  have wf: "gv_wf (make_grid_volume D2 10 4 5 0)" by (rule make_grid_volume_wf) simp_all
  have d: "gdim (make_grid_volume D2 10 4 5 0) = D2" by (simp add: make_grid_volume_def set_origin_v_def set_origin_i_def gv_defs)
  show ?thesis using boundary_patches_per_axis[OF wf, of Ez] wf d by simp
qed

end
