(* ===== verification/Interpolate.thy ===== *)
theory Interpolate
  imports Interp Lattice
begin

text \<open>
  The two \<open>interpolate\<close> overloads of \<open>grid_volume\<close> (\<open>src/vec.cpp\<close>, lines 532-618).
  The lattice version spreads a continuous point over the up to \<open>2^dim\<close> surrounding
  points of the component's Yee lattice with multilinear weights, renormalises them,
  clears the negligible ones and compacts the arrays with \<open>stupidsort\<close>; the index
  version keeps the owned points, turns them into array indices and compacts again.
  The arrays \<open>locs[8]\<close>, \<open>weights[8]\<close>, \<open>indices[8]\<close> are lists of length 8; the
  caller's \<open>indices\<close> array, of which only a prefix is written, is a parameter.  The
  aborts are \<open>Inl\<close> values of \<open>interp_error\<close>.
\<close>

section \<open>The lattice version\<close>

text \<open>\<open>SMALL = 1e-13\<close>.\<close>

definition interp_small :: real where
  "interp_small = 1 / 10 ^ 13"

datatype interp_error =
    NegativeWeight nat real  \<comment> \<open>\<open>large negative interpolation weight[%d] = %e\<close>\<close>
  | BadInterpolation component  \<comment> \<open>\<open>Error made in interpolation of %s--fix this bug!!!\<close>\<close>

text \<open>The doubling loop over \<open>LOOP_OVER_DIRECTIONS\<close>: entry \<open>i\<close> moves to
  \<open>middle - 1\<close> along \<open>d\<close> with the factor \<open>(1 - dv)/2\<close>, its copy at
  \<open>already_have + i\<close> to \<open>middle + 1\<close> with \<open>(1 + dv)/2\<close>.\<close>

fun interp_expand :: "ivec \<Rightarrow> vec \<Rightarrow> direction list \<Rightarrow> (ivec \<times> real) list \<Rightarrow> (ivec \<times> real) list" where
  "interp_expand middle dv [] xs = xs"
| "interp_expand middle dv (d # ds) xs =
     interp_expand middle dv ds
       (map (\<lambda>(l, w). (ivec_set l d (iv middle d - 1), w * (1 / 2 * (1 - vv dv d)))) xs
        @ map (\<lambda>(l, w). (ivec_set l d (iv middle d + 1), w * (1 / 2 * (1 + vv dv d)))) xs)"

text \<open>The loop over the weights after renormalisation: a negative weight aborts unless
  it is above \<open>-SMALL * 1e5\<close>, and then it is cleared, like a weight below \<open>SMALL\<close>.\<close>

fun interp_clamp :: "nat \<Rightarrow> real list \<Rightarrow> interp_error + real list" where
  "interp_clamp i [] = Inr []"
| "interp_clamp i (w # ws) =
     (if w < 0 then
        (if - w \<ge> interp_small * 10 ^ 5 then Inl (NegativeWeight i w)
         else map_sum id (Cons 0) (interp_clamp (Suc i) ws))
      else map_sum id (Cons (if w < interp_small then 0 else w)) (interp_clamp (Suc i) ws))"

text \<open>The final correction: when the non-zero prefix of the weights (the loop
  \<open>for (i = 0; i < 8 && weights[i]; i++)\<close>) holds a single value, each of its entries
  becomes \<open>1.0/num_weights\<close>.\<close>

definition even_out :: "real list \<Rightarrow> real list" where
  "even_out ws =
     (let pre = takeWhile (\<lambda>w. w \<noteq> 0) ws
      in if list_all (\<lambda>w. w = ws ! 0) pre
         then replicate (length pre) (1 / of_nat (length pre)) @ drop (length pre) ws
         else ws)"

text \<open>\<open>interpolate(c, pc, locs, weights)\<close>.  \<open>(int) floor(x)\<close> is \<open>\<lfloor>x\<rfloor>\<close>; the
  \<open>ivec\<close> written into a vacated slot by \<open>stupidsort\<close> is the one converted from \<open>0\<close>.\<close>

definition interpolate_locs :: "grid_volume \<Rightarrow> component \<Rightarrow> vec \<Rightarrow> interp_error + (ivec list \<times> real list)" where
  "interpolate_locs gv c pc =
     (let p = vec_scale (vec_minus pc (yee_shift gv c)) (a_res gv);
          middle = ivec_plus (mk_ivec (gdim gv) (\<lambda>d. \<lfloor>vv p d\<rfloor> * 2 + 1)) (iyee_shift gv c);
          midv = lattice_vec gv middle;
          dv = vec_scale (vec_minus pc midv) (2 * a_res gv);
          r0 = round_vec gv midv;
          xs = interp_expand middle dv (loop_dirs (gdim gv)) [(r0, 1)];
          k = length xs;
          total = sum_list (map snd xs);
          ws = map (\<lambda>(l, w). w + (1 - total) * (1 / of_nat k)) xs
      in case interp_clamp 0 ws of
           Inl e \<Rightarrow> Inl e
         | Inr ws' \<Rightarrow>
             (case stupidsort (ivec1 0) (ws' @ replicate (8 - k) 0) (map fst xs @ replicate (8 - k) r0) k of
                (ws2, locs2) \<Rightarrow> Inr (locs2, even_out ws2)))"

section \<open>The index version\<close>

text \<open>\<open>interpolate(c, p, indices, weights)\<close>: the weights of not-owned points in the
  non-zero prefix are cleared, the arrays compacted, the prefix turned into indices;
  the range check reads \<open>indices[0]\<close> for every entry, as the code does.\<close>

definition interpolate :: "grid_volume \<Rightarrow> component \<Rightarrow> vec \<Rightarrow> int list \<Rightarrow> interp_error + (int list \<times> real list)" where
  "interpolate gv c p ind0 =
     (case interpolate_locs gv c p of
        Inl e \<Rightarrow> Inl e
      | Inr (locs, ws) \<Rightarrow>
          (let n1 = length (takeWhile (\<lambda>w. w \<noteq> 0) ws);
               ws1 = map (\<lambda>i. if i < n1 \<and> \<not> owns gv (locs ! i) then 0 else ws ! i) [0..<8]
           in case stupidsort (ivec1 0) ws1 locs 8 of
                (ws2, locs2) \<Rightarrow>
                  (let n2 = length (takeWhile (\<lambda>w. w \<noteq> 0) ws2);
                       ind1 = map (\<lambda>i. if i < n2 then index gv c (locs2 ! i) else ind0 ! i) [0..<8]
                   in if \<not> gv_contains_v gv p \<and> ws2 ! 0 \<noteq> 0 then Inl (BadInterpolation c)
                      else
                        (let ws3 = map (\<lambda>i. if i < n2 \<and> (ind1 ! 0 < 0 \<or> ind1 ! 0 \<ge> the_ntot gv) then 0
                                             else ws2 ! i) [0..<8]
                         in case stupidsort 0 ws3 ind1 8 of
                              (ws4, ind2) \<Rightarrow>
                                if \<not> gv_contains_v gv p \<and> ws4 ! 0 \<noteq> 0 then Inl (BadInterpolation c)
                                else Inr (ind2, ws4)))))"

section \<open>Lemmas\<close>

subsection \<open>The doubling loop\<close>

lemma sum_snd_scale: "sum_list (map snd (map (\<lambda>(l, w). (f l, w * a)) xs)) = sum_list (map snd xs) * (a :: real)"
  by (induction xs) (auto simp: algebra_simps)

lemma interp_expand_sum:
  "sum_list (map snd (interp_expand m dv ds xs)) = sum_list (map snd xs)"
proof (induction ds arbitrary: xs)
  case (Cons d ds)
  have "sum_list (map snd (map (\<lambda>(l, w). (ivec_set l d (iv m d - 1), w * (1 / 2 * (1 - vv dv d)))) xs))
      + sum_list (map snd (map (\<lambda>(l, w). (ivec_set l d (iv m d + 1), w * (1 / 2 * (1 + vv dv d)))) xs))
      = sum_list (map snd xs)"
    unfolding sum_snd_scale by (simp add: field_simps)
  then show ?case using Cons by simp
qed simp

lemma interp_expand_nonneg:
  assumes "\<forall>d\<in>set ds. -1 \<le> vv dv d \<and> vv dv d \<le> 1" and "list_all (\<lambda>x. 0 \<le> snd x) xs"
  shows "list_all (\<lambda>x. 0 \<le> snd x) (interp_expand m dv ds xs)"
  using assms
proof (induction ds arbitrary: xs)
  case (Cons d ds)
  have "list_all (\<lambda>x. 0 \<le> snd x)
          (map (\<lambda>(l, w). (ivec_set l d (iv m d - 1), w * (1 / 2 * (1 - vv dv d)))) xs
           @ map (\<lambda>(l, w). (ivec_set l d (iv m d + 1), w * (1 / 2 * (1 + vv dv d)))) xs)"
    using Cons.prems by (auto simp: list_all_iff)
  then show ?case using Cons by simp
qed simp

lemma interp_expand_length [simp]: "length (interp_expand m dv ds xs) = 2 ^ length ds * length xs"
  by (induction ds arbitrary: xs) simp_all

lemma interp_clamp_nonneg:
  "list_all (\<lambda>w. 0 \<le> w) ws \<Longrightarrow> interp_clamp i ws = Inr (map (\<lambda>w. if w < interp_small then 0 else w) ws)"
  by (induction ws arbitrary: i) auto

lemma interp_dv_bound:
  fixes c :: component
  assumes wf: "gv_wf gv" and dim: "vdim pc = gdim gv" and hd: "has_direction (gdim gv) d"
  defines "p \<equiv> vec_scale (vec_minus pc (yee_shift gv c)) (a_res gv)"
  defines "middle \<equiv> ivec_plus (mk_ivec (gdim gv) (\<lambda>d. \<lfloor>vv p d\<rfloor> * 2 + 1)) (iyee_shift gv c)"
  shows "-1 \<le> vv (vec_scale (vec_minus pc (lattice_vec gv middle)) (2 * a_res gv)) d
         \<and> vv (vec_scale (vec_minus pc (lattice_vec gv middle)) (2 * a_res gv)) d \<le> 1"
proof -
  have a: "0 < a_res gv" "inva gv = 1 / a_res gv" using wf by (simp_all add: gv_wf_def)
  have iy: "ivdim (iyee_shift gv c) = gdim gv" by (simp add: iyee_shift_def mk_ivec_def)
  define y :: real where "y = of_int (iv (iyee_shift gv c) d)"
  have pd: "vv p d = vv pc d * a_res gv - y / 2"
    using hd dim a iy by (simp add: p_def vec_scale_def vec_minus_def yee_shift_def lattice_vec_def ivec_to_vec_def
                                 mk_vec_def y_def algebra_simps)
  define f where "f = \<lfloor>vv p d\<rfloor>"
  have dvd: "vv (vec_scale (vec_minus pc (lattice_vec gv middle)) (2 * a_res gv)) d = 2 * (vv p d - of_int f) - 1"
    using hd dim a iy unfolding pd a(2)
    by (simp add: a(2) middle_def f_def[symmetric] vec_scale_def vec_minus_def lattice_vec_def ivec_to_vec_def ivec_plus_def
                  mk_vec_def mk_ivec_def y_def field_simps)
  show ?thesis unfolding dvd f_def by (smt (verit) of_int_floor_le real_of_int_floor_add_one_gt)
qed


subsection \<open>Compaction and the final correction\<close>

lemma stupidsort_go_length [simp]:
  "length (fst (stupidsort_go z w ind pos l)) = length w"
  by (induction z w ind pos l rule: stupidsort_go.induct) simp_all

lemma stupidsort_go_length_snd [simp]:
  "length (snd (stupidsort_go z w ind pos l)) = length ind"
  by (induction z w ind pos l rule: stupidsort_go.induct) simp_all

lemma map_fst_filter_zip:
  "length A = length B \<Longrightarrow> map fst (filter (\<lambda>p. Q (fst p)) (zip A B)) = filter Q A"
  by (induction A B rule: list_induct2) auto

lemma stupidsort_prefix_weights:
  assumes "length L = length A + m"
  shows "\<exists>K. fst (stupidsort z (A @ replicate m 0) L (length A)) = K @ replicate (length A + m - length K) 0
             \<and> list_all (\<lambda>w. \<not> \<bar>w\<bar> < tiny_weight) K \<and> mset K = mset (filter (\<lambda>w. \<not> \<bar>w\<bar> < tiny_weight) A)"
proof -
  let ?W = "A @ replicate m 0"
  obtain w' ind' where s: "stupidsort z ?W L (length A) = (w', ind')" by fastforce
  have z: "zip w' ind' = seg_sort z (take (length A) (zip ?W L)) @ drop (length A) (zip ?W L)"
    using stupidsort_go_zip[of L ?W 0 "length A" z] assms s by (simp add: stupidsort_def)
  have tk: "take (length A) (zip ?W L) = zip A (take (length A) L)"
    by (simp add: take_zip)
  have dr: "map fst (drop (length A) (zip ?W L)) = replicate m 0"
    using assms by (simp add: drop_zip)
  obtain kept where k: "seg_sort z (zip A (take (length A) L)) = kept @ replicate (length A - length kept) (0, z)"
    "list_all (\<lambda>p. \<not> \<bar>fst p\<bar> < tiny_weight) kept"
    "mset kept = mset (filter (\<lambda>p. \<not> \<bar>fst p\<bar> < tiny_weight) (zip A (take (length A) L)))"
    using seg_sort_compacts[of z "zip A (take (length A) L)"] assms by (simp, blast)
  have lw: "length w' = length ind'"
    using s assms stupidsort_go_length[of z ?W L 0 "length A"] stupidsort_go_length_snd[of z ?W L 0 "length A"]
    by (simp add: stupidsort_def)
  have w': "w' = map fst kept @ replicate (length A - length kept) 0 @ replicate m 0"
    using arg_cong[OF z, of "map fst"] lw k(1) unfolding tk by (simp add: dr)
  have lk: "length kept \<le> length A"
    using arg_cong[OF k(1), of length] by simp
  have m: "mset (map fst kept) = mset (filter (\<lambda>w. \<not> \<bar>w\<bar> < tiny_weight) A)"
  proof -
    have "map fst (filter (\<lambda>p. \<not> \<bar>fst p\<bar> < tiny_weight) (zip A (take (length A) L)))
          = filter (\<lambda>w. \<not> \<bar>w\<bar> < tiny_weight) A"
      using assms by (intro map_fst_filter_zip) simp
    then show ?thesis by (metis k(3) mset_map)
  qed
  show ?thesis
    using s w' lk k(2) m by (intro exI[of _ "map fst kept"]) (simp add: list_all_iff replicate_add[symmetric])
qed

lemma interp_small_pos: "0 < interp_small"
  by (simp add: interp_small_def)

lemma interp_clamp_sum:
  "list_all (\<lambda>w. 0 \<le> w) ws \<Longrightarrow>
   sum_list ws - of_nat (length ws) * interp_small \<le> sum_list (map (\<lambda>w. if w < interp_small then 0 else w) ws)
   \<and> sum_list (map (\<lambda>w. if w < interp_small then 0 else w) ws) \<le> sum_list ws"
proof (induction ws)
  case (Cons a ws)
  then show ?case using interp_small_pos by (cases "a < interp_small") (auto simp: distrib_right)
qed simp

lemma even_out_prefix:
  assumes "list_all (\<lambda>w. interp_small \<le> w) K" and "K \<noteq> []" and "length K \<le> 8"
  shows "\<exists>K'. even_out (K @ replicate m 0) = K' @ replicate m 0 \<and> length K' = length K
              \<and> list_all (\<lambda>w. interp_small \<le> w) K' \<and> (sum_list K' = sum_list K \<or> sum_list K' = 1)"
proof -
  have pos: "0 < interp_small" by (simp add: interp_small_def)
  have nz: "list_all (\<lambda>w. w \<noteq> 0) K" using assms(1) pos by (auto simp: list_all_iff)
  have tw: "takeWhile (\<lambda>w. w \<noteq> 0) (K @ replicate m 0) = K"
    using nz by (cases m) (simp_all add: list_all_iff takeWhile_append2)
  have inv: "interp_small \<le> 1 / of_nat (length K)"
    using assms(2,3) by (simp add: interp_small_def field_simps)
  show ?thesis
  proof (cases "list_all (\<lambda>w. w = (K @ replicate m 0) ! 0) K")
    case True
    then show ?thesis using inv assms(2) by (intro exI[of _ "replicate (length K) (1 / of_nat (length K))"])
                                            (simp add: even_out_def tw list_all_iff sum_list_replicate)
  next
    case False
    then show ?thesis using assms(1) by (intro exI[of _ K]) (simp add: even_out_def tw)
  qed
qed

lemma sum_list_filter_nonzero:
  "\<forall>x\<in>set xs. \<not> Q x \<longrightarrow> x = 0 \<Longrightarrow> sum_list (filter Q xs) = sum_list (xs :: real list)"
  by (induction xs) auto

lemma interp_finish:
  assumes sum1: "sum_list (map snd xs) = 1" and nn: "list_all (\<lambda>x. 0 \<le> snd x) xs" and l8: "length xs \<le> 8"
  shows "\<exists>locs K.
    (case interp_clamp 0 (map (\<lambda>(l, w). w + (1 - sum_list (map snd xs)) * (1 / of_nat (length xs))) xs) of
       Inl e \<Rightarrow> Inl e
     | Inr ws' \<Rightarrow> (case stupidsort z (ws' @ replicate (8 - length xs) 0) (map fst xs @ replicate (8 - length xs) r0) (length xs) of
                    (ws2, locs2) \<Rightarrow> Inr (locs2, even_out ws2)))
    = Inr (locs, K @ replicate (8 - length K) 0)
    \<and> length locs = 8 \<and> K \<noteq> [] \<and> length K \<le> 8 \<and> list_all (\<lambda>w. interp_small \<le> w) K
    \<and> 1 - 8 * interp_small \<le> sum_list K \<and> sum_list K \<le> 1"
proof -
  let ?cl = "\<lambda>w. if w < interp_small then 0 else w"
  let ?ws = "map snd xs"
  let ?ws' = "map ?cl ?ws"
  let ?L = "map fst xs @ replicate (8 - length xs) r0"
  let ?S = "stupidsort z (?ws' @ replicate (8 - length xs) 0) ?L (length xs)"
  have ws: "map (\<lambda>(l, w). w + (1 - sum_list (map snd xs)) * (1 / of_nat (length xs))) xs = ?ws"
    unfolding sum1 by (simp add: case_prod_beta)
  have nn': "list_all (\<lambda>w. 0 \<le> w) ?ws" using nn by (simp add: list_all_iff)
  have cl: "interp_clamp 0 ?ws = Inr ?ws'" using interp_clamp_nonneg[OF nn'] .
  obtain K0 where K0: "fst ?S = K0 @ replicate (length ?ws' + (8 - length xs) - length K0) 0"
      "list_all (\<lambda>w. \<not> \<bar>w\<bar> < tiny_weight) K0" "mset K0 = mset (filter (\<lambda>w. \<not> \<bar>w\<bar> < tiny_weight) ?ws')"
  proof -
    have "length ?L = length ?ws' + (8 - length xs)" by simp
    from stupidsort_prefix_weights[OF this, of z] that show ?thesis unfolding length_map by blast
  qed
  have tiny: "tiny_weight < interp_small" "0 < tiny_weight" by (simp_all add: tiny_weight_def interp_small_def)
  have ge: "list_all (\<lambda>w. interp_small \<le> w) K0"
    unfolding list_all_iff
  proof
    fix w assume w: "w \<in> set K0"
    have "w \<in> set ?ws'" using arg_cong[OF K0(3), of set_mset] w by simp
    then have "w = 0 \<or> interp_small \<le> w" by auto
    moreover have "w \<noteq> 0" using K0(2) w tiny by (auto simp: list_all_iff)
    ultimately show "interp_small \<le> w" by blast
  qed
  have sK: "sum_list K0 = sum_list ?ws'"
  proof -
    have "sum_list K0 = sum_list (filter (\<lambda>w. \<not> \<bar>w\<bar> < tiny_weight) ?ws')"
      by (metis K0(3) sum_mset_sum_list)
    also have "\<dots> = sum_list ?ws'" using nn' tiny by (intro sum_list_filter_nonzero) (auto simp: list_all_iff)
    finally show ?thesis .
  qed
  have bnd: "1 - 8 * interp_small \<le> sum_list K0 \<and> sum_list K0 \<le> 1"
  proof -
    have "of_nat (length xs) * interp_small \<le> 8 * interp_small"
      using l8 interp_small_pos by (intro mult_right_mono) simp_all
    then show ?thesis using interp_clamp_sum[OF nn'] sum1 unfolding sK by simp
  qed
  have ne: "K0 \<noteq> []"
  proof
    assume "K0 = []"
    then show False using bnd by (simp add: interp_small_def)
  qed
  have lK: "length K0 \<le> 8"
  proof -
    have "length K0 = length (filter (\<lambda>w. \<not> \<bar>w\<bar> < tiny_weight) ?ws')" by (metis K0(3) size_mset)
    also have "\<dots> \<le> length ?ws'" by (rule length_filter_le)
    finally show ?thesis using l8 by simp
  qed
  have f8: "fst ?S = K0 @ replicate (8 - length K0) 0" using K0(1) l8 by simp
  obtain K' where K': "even_out (K0 @ replicate (8 - length K0) 0) = K' @ replicate (8 - length K0) 0"
      "length K' = length K0" "list_all (\<lambda>w. interp_small \<le> w) K'" "sum_list K' = sum_list K0 \<or> sum_list K' = 1"
    using even_out_prefix[OF ge ne lK] by blast
  have lL: "length (snd ?S) = 8" using l8 by (simp add: stupidsort_def)
  have res: "(case interp_clamp 0 ?ws of Inl e \<Rightarrow> Inl e
              | Inr ws' \<Rightarrow> (case stupidsort z (ws' @ replicate (8 - length xs) 0) ?L (length xs) of
                             (ws2, locs2) \<Rightarrow> Inr (locs2, even_out ws2)))
            = Inr (snd ?S, K' @ replicate (8 - length K') 0)"
    unfolding cl by (simp only: sum.case case_prod_beta f8 K'(1,2))
  show ?thesis
    unfolding ws res using lL K'(2,3,4) bnd ne lK interp_small_pos
    by (intro exI[of _ "snd ?S"] exI[of _ K']) auto
qed


section \<open>Properties\<close>

text \<open>C19 (specification, section 8: the weights of a continuous point sum to 1 and every
  returned weight is 0 or at least \<open>1e-13\<close>).  For a well-formed grid and a point of
  its dimensionality, \<open>interpolate(c, pc, locs, weights)\<close> never aborts; the weights
  are a non-empty prefix of values at least \<open>SMALL\<close> followed by zeros, and they sum
  to 1 up to the at most 8 cleared weights below \<open>SMALL\<close> (exactly 1 when they are
  evened out).  The multilinear factors \<open>(1 \<plusminus> dv)/2\<close> lie in \<open>[0, 1]\<close> because
  \<open>middle\<close> is the odd lattice point below \<open>pc\<close>, so the abort on a large negative
  weight is unreachable.\<close>

theorem interpolate_locs_weights:
  assumes wf: "gv_wf gv" and dim: "vdim pc = gdim gv"
  shows "\<exists>locs K. interpolate_locs gv c pc = Inr (locs, K @ replicate (8 - length K) 0)
           \<and> length locs = 8 \<and> K \<noteq> [] \<and> length K \<le> 8 \<and> list_all (\<lambda>w. interp_small \<le> w) K
           \<and> 1 - 8 * interp_small \<le> sum_list K \<and> sum_list K \<le> 1"
  unfolding interpolate_locs_def Let_def
  apply (rule interp_finish)
  subgoal by (simp add: interp_expand_sum)
  subgoal using interp_dv_bound[OF wf dim] by (intro interp_expand_nonneg) (simp_all add: has_direction_def)
  subgoal by (cases "gdim gv") simp_all
  done

theorem interpolate_locs_weights_witness:
  "gv_wf (make_grid_volume D2 10 4 4 0) \<and> vdim (vec2 (13 / 100) (21 / 100)) = gdim (make_grid_volume D2 10 4 4 0)
   \<and> (\<exists>locs K. interpolate_locs (make_grid_volume D2 10 4 4 0) Ez (vec2 (13 / 100) (21 / 100))
                 = Inr (locs, K @ replicate (8 - length K) 0)
           \<and> length locs = 8 \<and> K \<noteq> [] \<and> length K \<le> 8 \<and> list_all (\<lambda>w. interp_small \<le> w) K
           \<and> 1 - 8 * interp_small \<le> sum_list K \<and> sum_list K \<le> 1)"
proof -
  have wf: "gv_wf (make_grid_volume D2 10 4 4 0)"
    by (rule make_grid_volume_wf) simp_all
  have v: "vdim (vec2 (13 / 100) (21 / 100)) = gdim (make_grid_volume D2 10 4 4 0)"
    by (simp add: vec2_def mk_vec_def make_grid_volume_def set_origin_v_def set_origin_i_def num_changed_def
                  set_strides_def update_ntot_def)
  show ?thesis using interpolate_locs_weights[OF wf v, of Ez] wf v by blast
qed

end
