(* ===== verification/Snapshot.thy ===== *)
theory Snapshot
  imports Coords
begin

text \<open>
  The sampling geometry of \<open>snapshot\<close> (\<open>src/vec.cpp\<close>, lines 1493-1811): the
  constructor, which turns a box or a hemisphere into a grid of sample counts
  \<open>n_car[3]\<close> and the compacted array shape \<open>n_dims[3]\<close> of the given \<open>rank\<close>,
  \<open>add_component\<close>, \<open>create_dft\<close> and \<open>create_dft_sphere\<close>, which ask the fields
  for one DFT point per array cell, and the flattening of \<open>pass_data\<close>.  The
  pointer array \<open>_dft_chunk_array_ptr[comp][n_0][n_1][n_2]\<close> is modelled by the
  requests written into it: the list of cells in loop order, each with the component
  and the point passed to \<open>fields::add_dft_pt\<close>.  The DFT data, the MPI transfers
  and the HDF5 output are not modelled.  A coordinate that the code computes as
  \<open>0.0/0.0\<close> (a NaN) makes the point \<open>None\<close>.
\<close>

section \<open>State and constructor\<close>

type_synonym cell = "nat \<times> nat \<times> nat \<times> nat"

record snapshot =
  sn_gdim :: ndim  \<comment> \<open>\<open>_f->v.dim\<close>\<close>
  sn_radius :: real
  sn_dir :: direction
  sn_freq :: real
  sn_res :: real
  sn_center :: vec
  sn_size :: vec
  sn_car :: "int list"
  sn_dims :: "int list"
  sn_rank :: int
  sn_comps :: "component list"
  sn_chunks :: "cell \<Rightarrow> (component \<times> vec option) option"
    \<comment> \<open>\<open>_dft_chunk_array_ptr\<close>: the request a written cell holds\<close>

text \<open>\<open>(int) ceil(s * resolution + 1.0)\<close>: the number of samples along an axis.\<close>

definition samples :: "real \<Rightarrow> real \<Rightarrow> int" where
  "samples s res = \<lceil>s * res + 1\<rceil>"

text \<open>The box of the snapshot by dimensionality: its centre, size and \<open>n_car\<close>.\<close>

definition snap_box :: "ndim \<Rightarrow> vec \<Rightarrow> vec \<Rightarrow> real \<Rightarrow> vec \<times> vec \<times> int list" where
  "snap_box dm center size_v res =
     (case dm of
        D1 \<Rightarrow> (vec3 0 0 (vv center Z), vec3 0 0 (vv size_v Z), [1, 1, samples (vv size_v Z) res])
      | D2 \<Rightarrow> (vec3 (vv center X) (vv center Y) 0, vec3 (vv size_v X) (vv size_v Y) 0,
               [samples (vv size_v X) res, samples (vv size_v Y) res, 1])
      | Dcyl \<Rightarrow> (vec3 (vv center R) 0 (vv center Z), vec3 (vv size_v R) 0 (vv size_v Z),
                 [samples (vv size_v R) res, 1, samples (vv size_v Z) res])
      | D3 \<Rightarrow> (vec3 (vv center X) (vv center Y) (vv center Z), vec3 (vv size_v X) (vv size_v Y) (vv size_v Z),
               [samples (vv size_v X) res, samples (vv size_v Y) res, samples (vv size_v Z) res]))"

text \<open>The loop of a box snapshot: every axis with more than one sample takes the next
  slot of \<open>n_dims\<close>, counted by \<open>rank\<close>.\<close>

definition compact_dims :: "int list \<Rightarrow> int list \<times> int" where
  "compact_dims ncar =
     fold (\<lambda>n (dims, rk). if ncar ! n > 1 then (dims[nat rk := ncar ! n], rk + 1) else (dims, rk))
          [0, 1, 2] ([1, 1, 1], 0)"

text \<open>A hemisphere: \<open>ceil(pi res / sqrt 2)\<close> azimuthal samples and half as many polar ones.\<close>

definition sphere_dims :: "real \<Rightarrow> int list \<times> int" where
  "sphere_dims res =
     (let n0 = \<lceil>pi * res / sqrt 2\<rceil> in ([n0, \<lceil>of_int n0 / (2 :: real)\<rceil>, 1], 2))"

definition snapshot_new ::
  "ndim \<Rightarrow> nat \<Rightarrow> vec \<Rightarrow> vec \<Rightarrow> real \<Rightarrow> direction \<Rightarrow> real \<Rightarrow> real \<Rightarrow> snapshot" where
  "snapshot_new dm ncomp center size_v r dir l res =
     (case snap_box dm center size_v res of
        (ctr, sz, ncar) \<Rightarrow>
          (case (if r = 0 then compact_dims ncar else sphere_dims res) of
             (dims, rk) \<Rightarrow>
               \<lparr>sn_gdim = dm, sn_radius = r, sn_dir = dir, sn_freq = l, sn_res = res,
                sn_center = ctr, sn_size = sz, sn_car = ncar, sn_dims = dims, sn_rank = rk,
                sn_comps = replicate ncomp Ex, sn_chunks = (\<lambda>_. None)\<rparr>))"

text \<open>\<open>add_component(c, num)\<close>: \<open>_c[num] = c\<close>; a write outside the array is \<open>None\<close>.\<close>

definition add_component :: "snapshot \<Rightarrow> component \<Rightarrow> int \<Rightarrow> snapshot option" where
  "add_component sn c num =
     (if 0 \<le> num \<and> nat num < length (sn_comps sn)
      then Some (sn\<lparr>sn_comps := (sn_comps sn)[nat num := c]\<rparr>) else None)"

section \<open>The sample requests\<close>

text \<open>The cells of an \<open>a \<times> b \<times> c\<close> array in the order of three nested loops.\<close>

definition box3 :: "nat \<Rightarrow> nat \<Rightarrow> nat \<Rightarrow> (nat \<times> nat \<times> nat) list" where
  "box3 a b c = List.product [0..<a] (List.product [0..<b] [0..<c])"

text \<open>The loop counter that \<open>create_dft\<close> (and \<open>mode_volume::local_calc\<close>) uses as the
  sample number along \<open>x\<close>, \<open>y\<close> and \<open>z\<close>: the three conditional expressions of
  lines 1690-1692.\<close>

definition snap_sel :: "int list \<Rightarrow> nat \<times> nat \<times> nat \<Rightarrow> nat \<times> nat \<times> nat" where
  "snap_sel ncar n =
     (case n of (n0, n1, n2) \<Rightarrow>
       ((if ncar ! 0 \<noteq> 1 \<or> (ncar ! 1 = 1 \<and> ncar ! 2 = 1) then n0
         else if ncar ! 1 \<noteq> 1 \<and> ncar ! 2 \<noteq> 1 then n2 else n1),
        (if ncar ! 0 \<noteq> 1 \<and> (ncar ! 1 \<noteq> 1 \<or> ncar ! 2 = 1) then n1
         else if ncar ! 0 = 1 \<and> (ncar ! 1 \<noteq> 1 \<or> ncar ! 2 = 1) then n0 else n2),
        (if ncar ! 0 = 1 \<and> ncar ! 1 = 1 \<and> ncar ! 2 \<noteq> 1 then n0
         else if ncar ! 2 \<noteq> 1 \<and> (ncar ! 0 = 1 \<or> ncar ! 1 = 1) then n1 else n2)))"

text \<open>\<open>x_loc, y_loc, z_loc\<close>: the low corner of the box plus the sample numbers over the
  resolution.\<close>

definition snap_loc :: "vec \<Rightarrow> vec \<Rightarrow> real \<Rightarrow> nat \<times> nat \<times> nat \<Rightarrow> real \<times> real \<times> real" where
  "snap_loc ctr sz res s =
     (case s of (i, j, k) \<Rightarrow>
       (vv ctr X - vv sz X / 2 + of_nat i / res,
        vv ctr Y - vv sz Y / 2 + of_nat j / res,
        vv ctr Z - vv sz Z / 2 + of_nat k / res))"

text \<open>The point handed to \<open>add_dft_pt\<close> for the fields' dimensionality.\<close>

definition snap_point :: "ndim \<Rightarrow> real \<times> real \<times> real \<Rightarrow> vec" where
  "snap_point dm p =
     (case p of (x, y, z) \<Rightarrow>
       (case dm of D1 \<Rightarrow> vec1 z | D2 \<Rightarrow> vec2 x y | Dcyl \<Rightarrow> veccyl x z | D3 \<Rightarrow> vec3 x y z))"

definition create_dft :: "snapshot \<Rightarrow> (cell \<times> component \<times> vec option) list" where
  "create_dft sn =
     map (\<lambda>(ci, n). ((ci, n), sn_comps sn ! ci,
              Some (snap_point (sn_gdim sn) (snap_loc (sn_center sn) (sn_size sn) (sn_res sn) (snap_sel (sn_car sn) n)))))
         (List.product [0..<length (sn_comps sn)] (box3 (nat (sn_dims sn ! 0)) (nat (sn_dims sn ! 1)) (nat (sn_dims sn ! 2))))"

text \<open>\<open>k / (n - 1.0)\<close> of \<open>create_dft_sphere\<close>: \<open>0.0 / 0.0\<close> when \<open>n = 1\<close>.\<close>

definition sphere_frac :: "nat \<Rightarrow> int \<Rightarrow> real option" where
  "sphere_frac k n = (if n = 1 then None else Some (of_nat k / (of_int n - 1)))"

text \<open>One point of the hemisphere about the axis \<open>d\<close>; the three branches of the code.\<close>

definition sphere_point :: "direction \<Rightarrow> real \<Rightarrow> vec \<Rightarrow> real \<Rightarrow> real \<Rightarrow> vec" where
  "sphere_point d r ctr phi theta =
     (if d = Z then
        vec3 (r * sin theta * cos phi + vv ctr X) (r * sin theta * sin phi + vv ctr Y) (r * cos theta + vv ctr Z)
      else if d = Y then
        vec3 (r * sin theta * sin phi + vv ctr Y) (r * cos theta + vv ctr Z) (r * sin theta * cos phi + vv ctr X)
      else
        vec3 (r * cos theta + vv ctr Z) (r * sin theta * cos phi + vv ctr X) (r * sin theta * sin phi + vv ctr Y))"

definition create_dft_sphere :: "snapshot \<Rightarrow> (cell \<times> component \<times> vec option) list" where
  "create_dft_sphere sn =
     concat (map (\<lambda>ci.
       concat (map (\<lambda>k.
         map (\<lambda>l. ((ci, k, l, 0), sn_comps sn ! ci,
                    (case (sphere_frac k (sn_dims sn ! 0), sphere_frac l (sn_dims sn ! 1)) of
                       (Some fk, Some fl) \<Rightarrow>
                         Some (sphere_point (sn_dir sn) (sn_radius sn) (sn_center sn)
                                 (fk * 2 * pi - pi) (fl * pi / 2))
                     | _ \<Rightarrow> None)))
             [0..<nat (sn_dims sn ! 1)])
         [0..<nat (sn_dims sn ! 0)]))
       [0..<length (sn_comps sn)])"

text \<open>Storing the requests in the array: \<open>_dft_chunk_array_ptr[comp][n_0][n_1][n_2] = ...\<close>
  in loop order.\<close>

definition store_chunks :: "snapshot \<Rightarrow> (cell \<times> component \<times> vec option) list \<Rightarrow> snapshot" where
  "store_chunks sn ws = sn\<lparr>sn_chunks := fold (\<lambda>(cl, v) f. f(cl := Some v)) ws (sn_chunks sn)\<rparr>"

text \<open>\<open>create()\<close>: a box or a hemisphere by the radius.\<close>

definition snapshot_create :: "snapshot \<Rightarrow> snapshot" where
  "snapshot_create sn = store_chunks sn (if sn_radius sn = 0 then create_dft sn else create_dft_sphere sn)"

text \<open>Reading a cell of the array: \<open>None\<close> outside the allocated shape
  \<open>[n_c][n_dims[0]][n_dims[1]][n_dims[2]]\<close> of \<open>allocate_memory\<close> and on a cell never
  written (both undefined behaviour in C).\<close>

definition snap_in_alloc :: "snapshot \<Rightarrow> cell \<Rightarrow> bool" where
  "snap_in_alloc sn cl =
     (case cl of (ci, n0, n1, n2) \<Rightarrow>
        ci < length (sn_comps sn) \<and> int n0 < sn_dims sn ! 0 \<and> int n1 < sn_dims sn ! 1 \<and> int n2 < sn_dims sn ! 2)"

definition snap_chunk :: "snapshot \<Rightarrow> cell \<Rightarrow> (component \<times> vec option) option" where
  "snap_chunk sn cl = (if snap_in_alloc sn cl then sn_chunks sn cl else None)"

text \<open>The position of a cell's value in the flat arrays \<open>_data_mag\<close>, \<open>_data_arg\<close> of
  \<open>pass_data\<close>.\<close>

definition snap_flat_index :: "int list \<Rightarrow> nat \<times> nat \<times> nat \<Rightarrow> int" where
  "snap_flat_index dims n =
     (case n of (n0, n1, n2) \<Rightarrow> int n0 * dims ! 1 * dims ! 2 + int n1 * dims ! 2 + int n2)"

text \<open>\<open>pass_data\<close> on one process: each cell \<open>[comp][n_0][n_1][n_2]\<close> of the chunk
  array is read, the averaged DFT value of its chunk (\<open>dftv\<close>) is taken, and its
  \<open>abs\<close> and \<open>arg\<close> are stored at the flat index in \<open>_data_mag[comp]\<close> and
  \<open>_data_arg[comp]\<close>, arrays of \<open>n_dims[0] n_dims[1] n_dims[2]\<close> entries.  The two
  arrays are one map from \<open>(comp, index)\<close> to \<open>(abs, arg)\<close>; a read of a cell never
  written or a write outside an array is \<open>None\<close>.\<close>

definition snap_cell_value ::
  "snapshot \<Rightarrow> (component \<Rightarrow> vec option \<Rightarrow> complex) \<Rightarrow> cell \<Rightarrow> ((nat \<times> int) \<times> real \<times> real) option" where
  "snap_cell_value sn dftv cl =
     (case cl of (ci, n) \<Rightarrow>
        (case snap_chunk sn (ci, n) of
           None \<Rightarrow> None
         | Some (cmp, p) \<Rightarrow>
             (let k = snap_flat_index (sn_dims sn) n; v = dftv cmp p
              in if 0 \<le> k \<and> k < sn_dims sn ! 0 * sn_dims sn ! 1 * sn_dims sn ! 2
                 then Some ((ci, k), cmod v, Arg v) else None)))"

definition snap_pass_data ::
  "snapshot \<Rightarrow> (component \<Rightarrow> vec option \<Rightarrow> complex) \<Rightarrow> (nat \<times> int \<Rightarrow> (real \<times> real) option) option" where
  "snap_pass_data sn dftv =
     fold (\<lambda>cl acc. Option.bind acc (\<lambda>dat. map_option (\<lambda>(k, v). dat(k \<mapsto> v)) (snap_cell_value sn dftv cl)))
          (List.product [0..<length (sn_comps sn)] (box3 (nat (sn_dims sn ! 0)) (nat (sn_dims sn ! 1)) (nat (sn_dims sn ! 2))))
          (Some Map.empty)"

section \<open>Specification: distance\<close>

text \<open>The squared Euclidean distance of two points, for the hemisphere samples.\<close>

definition vec_dist2 :: "vec \<Rightarrow> vec \<Rightarrow> real" where
  "vec_dist2 p q = (vv p X - vv q X)\<^sup>2 + (vv p Y - vv q Y)\<^sup>2 + (vv p Z - vv q Z)\<^sup>2"

section \<open>Lemmas\<close>

lemma compact_dims_filter:
  "compact_dims [a, b, c] =
     (filter (\<lambda>k. k > 1) [a, b, c] @ replicate (3 - length (filter (\<lambda>k. k > 1) [a, b, c])) 1,
      int (length (filter (\<lambda>k. k > 1) [a, b, c])))"
  by (simp add: compact_dims_def eval_nat_numeral)

lemma snap_sel_box:
  assumes "1 \<le> a" "1 \<le> b" "1 \<le> c"
  shows "map (snap_sel [a, b, c])
           (box3 (nat (fst (compact_dims [a, b, c]) ! 0)) (nat (fst (compact_dims [a, b, c]) ! 1))
                 (nat (fst (compact_dims [a, b, c]) ! 2)))
         = box3 (nat a) (nat b) (nat c)"
  using assms
  by (cases "a = 1"; cases "b = 1"; cases "c = 1")
     (simp_all add: compact_dims_def snap_sel_def box3_def product_concat_map map_concat comp_def)

lemma set_box3 [simp]: "set (box3 a b c) = {..<a} \<times> {..<b} \<times> {..<c}"
  by (auto simp: box3_def)

lemma distinct_box3 [simp]: "distinct (box3 a b c)"
  by (simp add: box3_def distinct_product)

lemma create_dft_keys: "distinct (map fst (create_dft sn))"
proof -
  have "map fst (create_dft sn) = List.product [0..<length (sn_comps sn)] (box3 (nat (sn_dims sn ! 0)) (nat (sn_dims sn ! 1)) (nat (sn_dims sn ! 2)))"
    unfolding create_dft_def by (simp add: comp_def case_prod_beta)
  then show ?thesis by (simp add: distinct_product)
qed

lemma snap_chunk_create_dft:
  assumes "sn_radius sn = 0" and "snap_in_alloc sn (ci, n)"
  shows "snap_chunk (snapshot_create sn) (ci, n) =
           Some (sn_comps sn ! ci,
                 Some (snap_point (sn_gdim sn) (snap_loc (sn_center sn) (sn_size sn) (sn_res sn) (snap_sel (sn_car sn) n))))"
proof -
  obtain n0 n1 n2 where n: "n = (n0, n1, n2)" by (cases n) auto
  have mem: "((ci, n), sn_comps sn ! ci,
                 Some (snap_point (sn_gdim sn) (snap_loc (sn_center sn) (sn_size sn) (sn_res sn) (snap_sel (sn_car sn) n))))
             \<in> set (create_dft sn)"
    using assms(2) unfolding create_dft_def n by (auto simp: snap_in_alloc_def image_iff)
  have "snap_in_alloc (snapshot_create sn) (ci, n)"
    using assms(2) by (simp add: snap_in_alloc_def snapshot_create_def store_chunks_def)
  then show ?thesis
    using fold_upd_in[OF create_dft_keys mem] assms(1)
    by (simp add: snap_chunk_def snapshot_create_def store_chunks_def)
qed

lemma snap_in_alloc_create [simp]: "snap_in_alloc (snapshot_create sn) = snap_in_alloc sn"
  by (simp add: snap_in_alloc_def snapshot_create_def store_chunks_def fun_eq_iff)

lemma samples_pos: "0 \<le> s \<Longrightarrow> 0 \<le> res \<Longrightarrow> 1 \<le> samples s res"
  by (simp add: samples_def) (smt (verit) mult_nonneg_nonneg)

lemma snap_box_car:
  assumes "0 \<le> res" "list_all (\<lambda>d. 0 \<le> vv size_v d) [X, Y, Z, R]"
  shows "\<exists>a b c. snd (snd (snap_box dm center size_v res)) = [a, b, c] \<and> 1 \<le> a \<and> 1 \<le> b \<and> 1 \<le> c"
  using assms by (cases dm) (simp_all add: snap_box_def samples_pos)

subsection \<open>The hemisphere and the flattened arrays\<close>

text \<open>About the \<open>Z\<close> axis every sample lies at distance \<open>radius\<close> from the centre.  About
  \<open>Y\<close> (and \<open>X\<close>) the code adds \<open>center.x()\<close> to the rotated \<open>z\<close> coordinate and so
  on: the samples lie on the sphere about the centre with permuted coordinates, so a
  hemisphere about \<open>Y\<close> centred at \<open>(1, 0, 0)\<close> has its pole at \<open>(0, 1, 1)\<close>, at distance
  \<open>sqrt 3\<close> from the centre instead of 1.  At a resolution below \<open>sqrt 2 / pi\<close> the
  hemisphere has one azimuthal and one polar sample, and \<open>k / (n_dims[0] - 1.0)\<close> is
  \<open>0.0 / 0.0\<close>.\<close>

lemma sphere_point_Z:
  "vec_dist2 (sphere_point Z r ctr phi theta) (vec3 (vv ctr X) (vv ctr Y) (vv ctr Z)) = r\<^sup>2"
  by (simp add: vec_dist2_def sphere_point_def power_mult_distrib cos_squared_eq algebra_simps)

lemma sphere_point_Y_off_centre:
  "sphere_point Y 1 (vec3 1 0 0) phi 0 = vec3 0 1 1 \<and> vec_dist2 (vec3 0 1 1) (vec3 1 0 0) = 3"
  by (simp add: sphere_point_def vec_dist2_def)

lemma sphere_dims_coarse: "sphere_dims (1 / 10) = ([1, 1, 1], 2)"
proof -
  have s: "1 \<le> sqrt 2" by simp
  have "pi \<le> 10 * sqrt 2" using pi_less_4 s by linarith
  then have "pi * (1 / 10) / sqrt 2 \<le> 1" by (simp add: divide_le_eq)
  moreover have "0 < pi * (1 / 10) / sqrt 2" by simp
  ultimately have c: "\<lceil>pi * (1 / 10) / sqrt 2\<rceil> = 1" by (simp add: ceiling_eq_iff)
  show ?thesis unfolding sphere_dims_def Let_def c by (simp add: ceiling_eq_iff)
qed

lemma flat_index_pairs: "map (\<lambda>(j, k). j * c + k) (List.product [0..<b] [0..<c]) = [0..<b * c]"
proof (induction b)
  case (Suc b)
  have last: "map (\<lambda>(j, k). j * c + k) (List.product [b] [0..<c]) = [b * c..<b * c + c]"
  proof -
    have "map (\<lambda>(j, k). j * c + k) (List.product [b] [0..<c]) = map (\<lambda>k. k + b * c) [0..<c]"
      by (simp add: comp_def add.commute)
    also have "\<dots> = [b * c..<c + b * c]" by (rule map_add_upt)
    finally show ?thesis by (simp add: add.commute)
  qed
  have "[0..<Suc b * c] = [0..<b * c] @ [b * c..<b * c + c]"
    using upt_add_eq_append[of 0 "b * c" c] by (simp add: add.commute)
  then show ?case using Suc last by (simp add: product_append_left)
qed simp

lemma snap_flat_index_box:
  "map (snap_flat_index [int a, int b, int c]) (box3 a b c) = map int [0..<a * b * c]"
proof -
  let ?P = "List.product [0..<b] [0..<c]"
  have flat: "map (\<lambda>(i, j, k). i * (b * c) + (j * c + k)) (List.product [0..<a] ?P) = [0..<a * (b * c)]"
  proof (induction a)
    case (Suc a)
    have "map (\<lambda>(j, k). a * (b * c) + (j * c + k)) ?P = map (\<lambda>x. x + a * (b * c)) (map (\<lambda>(j, k). j * c + k) ?P)"
      by (simp add: comp_def case_prod_beta add.commute)
    also have "\<dots> = [a * (b * c)..<b * c + a * (b * c)]" unfolding flat_index_pairs by (rule map_add_upt)
    finally have last: "map (\<lambda>(j, k). a * (b * c) + (j * c + k)) ?P = [a * (b * c)..<b * c + a * (b * c)]" .
    have "[0..<Suc a * (b * c)] = [0..<a * (b * c)] @ [a * (b * c)..<b * c + a * (b * c)]"
      using upt_add_eq_append[of 0 "a * (b * c)" "b * c"] by (simp add: add.commute)
    then show ?case using Suc last by (simp add: product_append_left comp_def)
  qed simp
  have f: "snap_flat_index [int a, int b, int c] = int \<circ> (\<lambda>(i, j, k). i * (b * c) + (j * c + k))"
    by (simp add: fun_eq_iff snap_flat_index_def algebra_simps)
  show ?thesis
    unfolding f box3_def map_map[symmetric] flat by (simp add: mult.assoc)
qed

lemma flat_index_box_range:
  "n \<in> set (box3 a b c) \<Longrightarrow> 0 \<le> snap_flat_index [int a, int b, int c] n \<and> snap_flat_index [int a, int b, int c] n < int (a * b * c)"
proof -
  assume "n \<in> set (box3 a b c)"
  then have "snap_flat_index [int a, int b, int c] n \<in> set (map int [0..<a * b * c])"
    unfolding snap_flat_index_box[symmetric] by simp
  then obtain x where "snap_flat_index [int a, int b, int c] n = int x" "x < a * b * c" by auto
  then show ?thesis by (metis of_nat_0_le_iff of_nat_less_iff)
qed

lemma flat_index_box_image:
  "snap_flat_index [int a, int b, int c] ` set (box3 a b c) = {k. 0 \<le> k \<and> k < int (a * b * c)}"
proof -
  have "snap_flat_index [int a, int b, int c] ` set (box3 a b c) = set (map int [0..<a * b * c])"
    unfolding snap_flat_index_box[symmetric] by simp
  also have "\<dots> = int ` {0..<a * b * c}" by simp
  also have "\<dots> = {0..<int (a * b * c)}" by (simp only: image_int_atLeastLessThan of_nat_0)
  also have "\<dots> = {k. 0 \<le> k \<and> k < int (a * b * c)}" by auto
  finally show ?thesis .
qed

section \<open>Properties\<close>

text \<open>C13: a box snapshot (\<open>radius = 0\<close>) of non-negative size asks for its samples
  correctly: \<open>create_dft\<close> writes every allocated cell of the chunk array exactly
  once, and the points it requests are, for each component, the Cartesian grid of
  \<open>n_car\<close> samples spaced \<open>1/resolution\<close> from the low corner, in lexicographic
  order, although the array is indexed by the compacted shape \<open>n_dims\<close>.\<close>

theorem create_dft_cells:
  assumes "0 \<le> res" and "list_all (\<lambda>d. 0 \<le> vv size_v d) [X, Y, Z, R]"
  shows "let sn = snapshot_new dm ncomp center size_v 0 dir l res in
           distinct (map fst (create_dft sn)) \<and> set (map fst (create_dft sn)) = Collect (snap_in_alloc sn)
           \<and> map (snd \<circ> snd) (create_dft sn)
             = concat (replicate ncomp (map (\<lambda>s. Some (snap_point dm (snap_loc (sn_center sn) (sn_size sn) res s)))
                                          (box3 (nat (sn_car sn ! 0)) (nat (sn_car sn ! 1)) (nat (sn_car sn ! 2)))))"
  unfolding Let_def
proof (intro conjI)
  let ?sn = "snapshot_new dm ncomp center size_v 0 dir l res"
  obtain a b c where abc: "snd (snd (snap_box dm center size_v res)) = [a, b, c]" "1 \<le> a" "1 \<le> b" "1 \<le> c"
    using snap_box_car[OF assms] by blast
  have car: "sn_car ?sn = [a, b, c]" and dims: "sn_dims ?sn = fst (compact_dims [a, b, c])"
    and misc: "sn_comps ?sn = replicate ncomp Ex" "sn_res ?sn = res" "sn_gdim ?sn = dm"
    using abc(1) by (simp_all add: snapshot_new_def case_prod_beta)
  show "distinct (map fst (create_dft ?sn))" by (rule create_dft_keys)
  show "set (map fst (create_dft ?sn)) = Collect (snap_in_alloc ?sn)"
    by (auto simp: create_dft_def snap_in_alloc_def image_iff)
  have sel: "map (snap_sel [a, b, c]) (box3 (nat (sn_dims ?sn ! 0)) (nat (sn_dims ?sn ! 1)) (nat (sn_dims ?sn ! 2)))
             = box3 (nat a) (nat b) (nat c)"
    unfolding dims by (rule snap_sel_box[OF abc(2-4)])
  show "map (snd \<circ> snd) (create_dft ?sn)
        = concat (replicate ncomp (map (\<lambda>s. Some (snap_point dm (snap_loc (sn_center ?sn) (sn_size ?sn) res s)))
                                     (box3 (nat (sn_car ?sn ! 0)) (nat (sn_car ?sn ! 1)) (nat (sn_car ?sn ! 2)))))"
    unfolding car
    by (simp add: create_dft_def misc car product_concat_map map_concat comp_def case_prod_beta
                  map_replicate_const flip: sel)
qed

theorem create_dft_cells_witness:
  "0 \<le> (1::real) \<and> list_all (\<lambda>d. 0 \<le> vv (vec3 2 1 0) d) [X, Y, Z, R]
   \<and> (let sn = snapshot_new D3 2 (vec3 0 0 0) (vec3 2 1 0) 0 NO_DIRECTION 1 1 in
           distinct (map fst (create_dft sn)) \<and> set (map fst (create_dft sn)) = Collect (snap_in_alloc sn)
           \<and> map (snd \<circ> snd) (create_dft sn)
             = concat (replicate 2 (map (\<lambda>s. Some (snap_point D3 (snap_loc (sn_center sn) (sn_size sn) 1 s)))
                                          (box3 (nat (sn_car sn ! 0)) (nat (sn_car sn ! 1)) (nat (sn_car sn ! 2))))))"
proof -
  have h: "list_all (\<lambda>d. 0 \<le> vv (vec3 2 1 0) d) [X, Y, Z, R]"
    by (simp add: vec3_def mk_vec_def has_direction_def)
  show ?thesis using create_dft_cells[OF _ h, of 1 D3 2 "vec3 0 0 0" NO_DIRECTION 1] h by simp
qed

text \<open>C30: \<open>pass_data\<close> of a box snapshot (\<open>radius = 0\<close>, shape \<open>n_dims = [a, b, c]\<close>)
  returns: every cell it reads was written by \<open>create_dft\<close>, and every flat index it
  computes lies in \<open>_data_mag[comp]\<close>; it writes every entry of the arrays of every
  component, and the entry of cell \<open>n\<close> holds \<open>abs\<close> and \<open>arg\<close> of the field at the
  point \<open>create_dft\<close> requested for that cell.\<close>

theorem snap_pass_data_fills:
  assumes r: "sn_radius sn = 0" and d: "sn_dims sn = [int a, int b, int c]"
  shows "\<exists>dat. snap_pass_data (snapshot_create sn) dftv = Some dat
           \<and> dom dat = {(ci, k). ci < length (sn_comps sn) \<and> 0 \<le> k \<and> k < int (a * b * c)}
           \<and> (\<forall>ci<length (sn_comps sn). \<forall>n\<in>set (box3 a b c).
                 let w = dftv (sn_comps sn ! ci)
                           (Some (snap_point (sn_gdim sn) (snap_loc (sn_center sn) (sn_size sn) (sn_res sn) (snap_sel (sn_car sn) n))))
                 in dat (ci, snap_flat_index (sn_dims sn) n) = Some (cmod w, Arg w))"
proof -
  let ?sn = "snapshot_create sn"
  let ?L = "List.product [0..<length (sn_comps sn)] (box3 a b c)"
  let ?fl = "snap_flat_index [int a, int b, int c]"
  let ?w = "\<lambda>ci n. dftv (sn_comps sn ! ci)
              (Some (snap_point (sn_gdim sn) (snap_loc (sn_center sn) (sn_size sn) (sn_res sn) (snap_sel (sn_car sn) n))))"
  let ?f = "\<lambda>(ci, n). ((ci, ?fl n), cmod (?w ci n), Arg (?w ci n))"
  have sn': "sn_dims ?sn = [int a, int b, int c]" "sn_comps ?sn = sn_comps sn"
    using d by (simp_all add: snapshot_create_def store_chunks_def)
  have val: "\<forall>cl\<in>set ?L. snap_cell_value ?sn dftv cl = Some (?f cl)"
  proof
    fix cl assume cl: "cl \<in> set ?L"
    obtain ci n where cin: "cl = (ci, n)" by (cases cl)
    have al: "snap_in_alloc sn (ci, n)" using cl cin d by (cases n) (auto simp: snap_in_alloc_def)
    show "snap_cell_value ?sn dftv cl = Some (?f cl)"
      using snap_chunk_create_dft[OF r al] flat_index_box_range[of n a b c] cl cin d
      by (simp add: snap_cell_value_def sn' Let_def)
  qed
  have "snap_pass_data ?sn dftv = Some (fold (\<lambda>cl dat. (\<lambda>(k, v). dat(k \<mapsto> v)) (?f cl)) ?L Map.empty)"
    unfolding snap_pass_data_def sn' using fold_bind_all_some[OF val] by simp
  also have "fold (\<lambda>cl dat. (\<lambda>(k, v). dat(k \<mapsto> v)) (?f cl)) ?L Map.empty
             = fold (\<lambda>(cl, v) f. f(cl := Some v)) (map ?f ?L) Map.empty"
    by (simp add: fold_map comp_def case_prod_beta)
  finally have pd: "snap_pass_data ?sn dftv = Some (fold (\<lambda>(cl, v) f. f(cl := Some v)) (map ?f ?L) Map.empty)" .
  have keys: "map fst (map ?f ?L) = List.product [0..<length (sn_comps sn)] (map ?fl (box3 a b c))"
    by (simp add: product_map_right comp_def case_prod_beta)
  have dk: "distinct (map fst (map ?f ?L))"
    unfolding keys snap_flat_index_box by (simp add: distinct_product distinct_map)
  have "dom (fold (\<lambda>(cl, v) f. f(cl := Some v)) (map ?f ?L) Map.empty)
        = {(ci, k). ci < length (sn_comps sn) \<and> 0 \<le> k \<and> k < int (a * b * c)}"
  proof -
    have "fst ` set (map ?f ?L) = set (map fst (map ?f ?L))" by (simp only: set_map)
    also have "\<dots> = {0..<length (sn_comps sn)} \<times> (?fl ` set (box3 a b c))"
      unfolding keys by simp
    finally show ?thesis unfolding fold_upd_dom flat_index_box_image by auto
  qed
  moreover have "fold (\<lambda>(cl, v) f. f(cl := Some v)) (map ?f ?L) Map.empty (ci, ?fl n) = Some (cmod (?w ci n), Arg (?w ci n))"
    if "ci < length (sn_comps sn)" "n \<in> set (box3 a b c)" for ci n
    by (rule fold_upd_in[OF dk]) (use that in force)
  ultimately show ?thesis using pd d by (auto simp: Let_def)
qed

theorem snap_pass_data_fills_witness:
  "sn_radius (snapshot_new D3 1 (vec3 0 0 0) (vec3 1 0 0) 0 NO_DIRECTION 1 1) = 0
   \<and> sn_dims (snapshot_new D3 1 (vec3 0 0 0) (vec3 1 0 0) 0 NO_DIRECTION 1 1) = [int 2, int 1, int 1]
   \<and> (\<exists>dat. snap_pass_data (snapshot_create (snapshot_new D3 1 (vec3 0 0 0) (vec3 1 0 0) 0 NO_DIRECTION 1 1))
                (\<lambda>_ _. 1) = Some dat
            \<and> dom dat = {(ci, k). ci < 1 \<and> 0 \<le> k \<and> k < 2})"
proof -
  have r: "sn_radius (snapshot_new D3 1 (vec3 0 0 0) (vec3 1 0 0) 0 NO_DIRECTION 1 1) = 0"
    and d: "sn_dims (snapshot_new D3 1 (vec3 0 0 0) (vec3 1 0 0) 0 NO_DIRECTION 1 1) = [int 2, int 1, int 1]"
    and c: "length (sn_comps (snapshot_new D3 1 (vec3 0 0 0) (vec3 1 0 0) 0 NO_DIRECTION 1 1)) = 1"
    by (simp_all add: snapshot_new_def snap_box_def samples_def compact_dims_def)
  show ?thesis using snap_pass_data_fills[OF r d, of "\<lambda>_ _. 1"] r d c by (simp; blast)
qed

end
