(* ===== verification/ModeVolume.thy ===== *)
theory ModeVolume
  imports Snapshot
begin

text \<open>
  \<open>mode_volume\<close> (\<open>src/vec.cpp\<close>, lines 2353-2466): a box snapshot of \<open>Ex, Ey, Ez\<close>
  whose samples are summed, weighted by the permittivity, into the modal volume.  The
  fields object enters through two functions: \<open>dftv c p\<close>, the average of the DFT
  chunk requested for component \<open>c\<close> at point \<open>p\<close> (0 for a null chunk), and
  \<open>eps p\<close>, \<open>fields::get_eps\<close>.  \<open>local_calc\<close> reads the snapshot's chunk array at
  the indices of its own loops; a read outside the allocated array is \<open>None\<close>.
  \<open>pass_data\<close> is modelled on the master, with the per-process results as a list.
\<close>

section \<open>State and operations\<close>

record mode_volume =
  mv_center :: vec
  mv_size :: vec
  mv_freq :: real
  mv_refr :: real  \<comment> \<open>\<open>refractive_index\<close>\<close>
  mv_res :: real
  mv_out :: bool
  mv_snap :: snapshot
  mv_max :: real  \<comment> \<open>\<open>max_val\<close>\<close>
  mv_vol :: real  \<comment> \<open>\<open>vol\<close>\<close>

text \<open>The constructor: the snapshot of three components, \<open>Ex, Ey, Ez\<close> added in
  slots 0-2, and \<open>create()\<close>.  \<open>max_val\<close> and \<open>vol\<close>, which the constructor leaves
  unset, start at 0; \<open>local_calc\<close> sets both before they are read.\<close>

definition mode_volume_new ::
  "ndim \<Rightarrow> vec \<Rightarrow> vec \<Rightarrow> real \<Rightarrow> real \<Rightarrow> real \<Rightarrow> bool \<Rightarrow> mode_volume option" where
  "mode_volume_new dm center size_v l n res out =
     (let c3 = vec3 (vv center X) (vv center Y) (vv center Z);
          s3 = vec3 (vv size_v X) (vv size_v Y) (vv size_v Z);
          s0 = snapshot_new dm 3 c3 s3 0 NO_DIRECTION l res
      in map_option (\<lambda>s. \<lparr>mv_center = c3, mv_size = s3, mv_freq = l, mv_refr = n, mv_res = res,
                          mv_out = out, mv_snap = snapshot_create s, mv_max = 0, mv_vol = 0\<rparr>)
           (Option.bind (add_component s0 Ex 0)
              (\<lambda>s. Option.bind (add_component s Ey 1) (\<lambda>s. add_component s Ez 2))))"

text \<open>\<open>n_car\<close> of \<open>local_calc\<close>, from the mode volume's own size.\<close>

definition mv_car :: "mode_volume \<Rightarrow> int list" where
  "mv_car mv = [samples (vv (mv_size mv) X) (mv_res mv), samples (vv (mv_size mv) Y) (mv_res mv),
                samples (vv (mv_size mv) Z) (mv_res mv)]"

text \<open>The body of the loop at \<open>(n_0, n_1, n_2)\<close>: the three chunks, \<open>|E|^2\<close> and the
  weighted \<open>local_val\<close> at \<open>(x_loc, y_loc, z_loc)\<close>.\<close>

definition mv_local_val ::
  "mode_volume \<Rightarrow> (component \<Rightarrow> vec option \<Rightarrow> complex) \<Rightarrow> (vec \<Rightarrow> real) \<Rightarrow> nat \<times> nat \<times> nat \<Rightarrow> real option" where
  "mv_local_val mv dftv eps n =
     (case (snap_chunk (mv_snap mv) (0, n), snap_chunk (mv_snap mv) (1, n), snap_chunk (mv_snap mv) (2, n)) of
        (Some (c0, p0), Some (c1, p1), Some (c2, p2)) \<Rightarrow>
          (case snap_loc (mv_center mv) (mv_size mv) (mv_res mv) (snap_sel (mv_car mv) n) of
             (x, y, z) \<Rightarrow>
               Some (Re (dftv c0 p0 * cnj (dftv c0 p0) + dftv c1 p1 * cnj (dftv c1 p1)
                         + dftv c2 p2 * cnj (dftv c2 p2)) * eps (vec3 x y z)))
      | _ \<Rightarrow> None)"

text \<open>The end of the loop body: \<open>max_val\<close> raised to \<open>local_val\<close>, \<open>vol += local_val\<close>.\<close>

fun mv_step :: "real \<times> real \<Rightarrow> real \<Rightarrow> real \<times> real" where
  "mv_step (mx, vol) v = (if v > mx then v else mx, vol + v)"

definition mv_local_calc ::
  "mode_volume \<Rightarrow> (component \<Rightarrow> vec option \<Rightarrow> complex) \<Rightarrow> (vec \<Rightarrow> real) \<Rightarrow> mode_volume option" where
  "mv_local_calc mv dftv eps =
     map_option (\<lambda>(mx, vol). mv\<lparr>mv_max := mx, mv_vol := vol\<rparr>)
       (fold (\<lambda>n acc. Option.bind acc (\<lambda>st. map_option (mv_step st) (mv_local_val mv dftv eps n)))
             (box3 (nat (mv_car mv ! 0)) (nat (mv_car mv ! 1)) (nat (mv_car mv ! 2))) (Some (0, 0)))"

text \<open>\<open>pass_data\<close> on the master: \<open>procs\<close> holds \<open>(vol, max_val)\<close> of every process in
  rank order; the volumes are summed, the maxima folded into \<open>max_val\<close>.\<close>

definition mv_pass_data :: "mode_volume \<Rightarrow> (real \<times> real) list \<Rightarrow> mode_volume" where
  "mv_pass_data mv procs =
     (let tot = sum_list (map fst procs);
          mx = fold (\<lambda>(_, m) mx. if m > mx then m else mx) procs (mv_max mv)
      in mv\<lparr>mv_max := mx,
            mv_vol := tot / (mx * ((1 / mv_freq mv) / mv_refr mv) ^ 3 * mv_res mv ^ 3)\<rparr>)"

text \<open>\<open>output()\<close> on a single process: \<open>local_calc\<close>, then \<open>pass_data\<close> with the
  process's own results.\<close>

definition mv_output ::
  "mode_volume \<Rightarrow> (component \<Rightarrow> vec option \<Rightarrow> complex) \<Rightarrow> (vec \<Rightarrow> real) \<Rightarrow> mode_volume option" where
  "mv_output mv dftv eps =
     map_option (\<lambda>m. mv_pass_data m [(mv_vol m, mv_max m)]) (mv_local_calc mv dftv eps)"

section \<open>Specification\<close>

text \<open>The energy density a mode volume sums at a sample point: \<open>eps |E|^2\<close>.\<close>

definition mode_energy :: "(component \<Rightarrow> vec option \<Rightarrow> complex) \<Rightarrow> (vec \<Rightarrow> real) \<Rightarrow> vec \<Rightarrow> real" where
  "mode_energy dftv eps p = (\<Sum>c\<leftarrow>[Ex, Ey, Ez]. (cmod (dftv c (Some p)))\<^sup>2) * eps p"

section \<open>Lemmas\<close>

lemma mode_volume_new_eq:
  "mode_volume_new dm center size_v l n res out =
     Some \<lparr>mv_center = vec3 (vv center X) (vv center Y) (vv center Z),
           mv_size = vec3 (vv size_v X) (vv size_v Y) (vv size_v Z), mv_freq = l, mv_refr = n, mv_res = res,
           mv_out = out,
           mv_snap = snapshot_create ((snapshot_new dm 3 (vec3 (vv center X) (vv center Y) (vv center Z))
                        (vec3 (vv size_v X) (vv size_v Y) (vv size_v Z)) 0 NO_DIRECTION l res)\<lparr>sn_comps := [Ex, Ey, Ez]\<rparr>),
           mv_max = 0, mv_vol = 0\<rparr>"
proof -
  have c: "sn_comps (snapshot_new dm 3 c s 0 NO_DIRECTION l res) = [Ex, Ex, Ex]" for c s
    by (simp add: snapshot_new_def case_prod_beta numeral_3_eq_3)
  show ?thesis by (simp add: mode_volume_new_def add_component_def c Let_def)
qed

lemma fold_mv_step_vol:
  "snd (fold (\<lambda>n p. mv_step p (f n)) xs p0) = snd p0 + sum_list (map f xs)"
  by (induction xs arbitrary: p0) (auto simp: algebra_simps)

lemma mode_volume_new_D3:
  assumes "mode_volume_new D3 center size_v l n res out = Some mv"
  obtains s where "mv_snap mv = snapshot_create s" "sn_car s = mv_car mv"
    "sn_dims s = fst (compact_dims (mv_car mv))" "sn_comps s = [Ex, Ey, Ez]" "sn_radius s = 0"
    "sn_gdim s = D3" "sn_center s = mv_center mv" "sn_size s = mv_size mv" "sn_res s = mv_res mv"
    "mv_res mv = res" "mv_size mv = vec3 (vv size_v X) (vv size_v Y) (vv size_v Z)"
  using assms unfolding mode_volume_new_eq
  by (auto intro!: that simp: snapshot_new_def snap_box_def mv_car_def case_prod_beta)


lemma cmod_mult_self: "cmod z * cmod z = Re z * Re z + Im z * Im z"
  by (simp add: cmod_power2 flip: power2_eq_square)

section \<open>Properties\<close>

text \<open>C21: on a 3D grid, when no axis with a single sample precedes one with several
  (the compacted shape \<open>n_dims\<close> of the snapshot equals \<open>n_car\<close>), \<open>local_calc\<close>
  reads only allocated cells, and \<open>vol\<close> is the sum of \<open>eps |E|^2\<close> over the
  Cartesian samples of the box.\<close>

theorem mode_volume_sums_energy:
  assumes mv: "mode_volume_new D3 center size_v l n res out = Some mv"
      and pos: "0 \<le> res" "0 \<le> vv size_v X" "0 \<le> vv size_v Y" "0 \<le> vv size_v Z"
      and ident: "fst (compact_dims (mv_car mv)) = mv_car mv"
  shows "\<exists>mv'. mv_local_calc mv dftv eps = Some mv'
           \<and> mv_vol mv' = sum_list (map (\<lambda>s. mode_energy dftv eps (snap_point D3 (snap_loc (mv_center mv) (mv_size mv) res s)))
                                    (box3 (nat (mv_car mv ! 0)) (nat (mv_car mv ! 1)) (nat (mv_car mv ! 2))))"
proof -
  obtain s where s: "mv_snap mv = snapshot_create s" "sn_car s = mv_car mv"
    "sn_dims s = fst (compact_dims (mv_car mv))" "sn_comps s = [Ex, Ey, Ez]" "sn_radius s = 0"
    "sn_gdim s = D3" "sn_center s = mv_center mv" "sn_size s = mv_size mv" "sn_res s = mv_res mv"
    "mv_res mv = res" "mv_size mv = vec3 (vv size_v X) (vv size_v Y) (vv size_v Z)"
    using mode_volume_new_D3[OF mv] by metis
  define a b c where "a = mv_car mv ! 0" "b = mv_car mv ! 1" "c = mv_car mv ! 2"
  have car: "mv_car mv = [a, b, c]" by (simp add: a_b_c_def mv_car_def)
  have ge: "1 \<le> a" "1 \<le> b" "1 \<le> c"
    using pos s(10,11) by (simp_all add: a_b_c_def mv_car_def samples_pos)
  let ?E = "\<lambda>m. mode_energy dftv eps (snap_point D3 (snap_loc (mv_center mv) (mv_size mv) res m))"
  have val: "mv_local_val mv dftv eps m = Some (?E (snap_sel (mv_car mv) m))"
    if m: "m \<in> set (box3 (nat a) (nat b) (nat c))" for m
  proof -
    have al: "snap_in_alloc s (ci, m)" if "ci < 3" for ci
      using m that ident s(3,4) car by (auto simp: snap_in_alloc_def)
    have ch: "snap_chunk (mv_snap mv) (ci, m) =
               Some ([Ex, Ey, Ez] ! ci, Some (snap_point D3 (snap_loc (mv_center mv) (mv_size mv) res (snap_sel (mv_car mv) m))))"
      if "ci < 3" for ci
      using snap_chunk_create_dft[OF s(5) al[OF that]] s by simp
    obtain x y z where xyz: "snap_loc (mv_center mv) (mv_size mv) res (snap_sel (mv_car mv) m) = (x, y, z)"
      by (cases "snap_loc (mv_center mv) (mv_size mv) res (snap_sel (mv_car mv) m)") auto
    show ?thesis
      using ch[of 0] ch[of 1] ch[of 2]
      by (simp add: mv_local_val_def mode_energy_def power2_eq_square cmod_mult_self snap_point_def xyz s(10) add.assoc)
  qed
  have sel: "map (snap_sel (mv_car mv)) (box3 (nat a) (nat b) (nat c)) = box3 (nat a) (nat b) (nat c)"
    using snap_sel_box[OF ge] ident unfolding car by simp
  have fold: "fold (\<lambda>n acc. Option.bind acc (\<lambda>st. map_option (mv_step st) (mv_local_val mv dftv eps n)))
                (box3 (nat a) (nat b) (nat c)) (Some (0, 0))
              = Some (fold (\<lambda>m p. mv_step p (?E (snap_sel (mv_car mv) m))) (box3 (nat a) (nat b) (nat c)) (0, 0))"
    by (rule fold_bind_all_some) (use val in blast)
  have "mv_local_calc mv dftv eps =
          Some (mv\<lparr>mv_max := fst (fold (\<lambda>m p. mv_step p (?E (snap_sel (mv_car mv) m))) (box3 (nat a) (nat b) (nat c)) (0, 0)),
                   mv_vol := snd (fold (\<lambda>m p. mv_step p (?E (snap_sel (mv_car mv) m))) (box3 (nat a) (nat b) (nat c)) (0, 0))\<rparr>)"
    unfolding mv_local_calc_def a_b_c_def[symmetric] fold by (simp add: case_prod_beta)
  moreover have "sum_list (map (\<lambda>m. ?E (snap_sel (mv_car mv) m)) (box3 (nat a) (nat b) (nat c)))
                 = sum_list (map ?E (box3 (nat a) (nat b) (nat c)))"
    using arg_cong[OF sel, of "\<lambda>xs. sum_list (map ?E xs)"] by (simp add: comp_def)
  ultimately show ?thesis unfolding car by (simp add: fold_mv_step_vol)
qed

theorem mode_volume_sums_energy_witness:
  "mode_volume_new D3 (vec3 0 0 0) (vec3 1 1 1) 1 1 1 False = Some (the (mode_volume_new D3 (vec3 0 0 0) (vec3 1 1 1) 1 1 1 False))
   \<and> 0 \<le> (1::real) \<and> 0 \<le> vv (vec3 1 1 1) X \<and> 0 \<le> vv (vec3 1 1 1) Y \<and> 0 \<le> vv (vec3 1 1 1) Z
   \<and> fst (compact_dims (mv_car (the (mode_volume_new D3 (vec3 0 0 0) (vec3 1 1 1) 1 1 1 False))))
       = mv_car (the (mode_volume_new D3 (vec3 0 0 0) (vec3 1 1 1) 1 1 1 False))
   \<and> (\<exists>mv'. mv_local_calc (the (mode_volume_new D3 (vec3 0 0 0) (vec3 1 1 1) 1 1 1 False)) (\<lambda>c p. 1) (\<lambda>p. 1) = Some mv'
        \<and> mv_vol mv' = sum_list (map (\<lambda>s. mode_energy (\<lambda>c p. 1) (\<lambda>p. 1)
                                          (snap_point D3 (snap_loc (mv_center (the (mode_volume_new D3 (vec3 0 0 0) (vec3 1 1 1) 1 1 1 False)))
                                                           (mv_size (the (mode_volume_new D3 (vec3 0 0 0) (vec3 1 1 1) 1 1 1 False))) 1 s)))
                                 (box3 (nat (mv_car (the (mode_volume_new D3 (vec3 0 0 0) (vec3 1 1 1) 1 1 1 False)) ! 0))
                                       (nat (mv_car (the (mode_volume_new D3 (vec3 0 0 0) (vec3 1 1 1) 1 1 1 False)) ! 1))
                                       (nat (mv_car (the (mode_volume_new D3 (vec3 0 0 0) (vec3 1 1 1) 1 1 1 False)) ! 2)))))"
proof -
  let ?m = "the (mode_volume_new D3 (vec3 0 0 0) (vec3 1 1 1) 1 1 1 False)"
  have m: "mode_volume_new D3 (vec3 0 0 0) (vec3 1 1 1) 1 1 1 False = Some ?m"
    by (simp add: mode_volume_new_eq)
  have car: "mv_car ?m = [2, 2, 2]"
    by (simp add: mode_volume_new_eq mv_car_def samples_def)
  have i: "fst (compact_dims (mv_car ?m)) = mv_car ?m"
    unfolding car by (simp add: compact_dims_def)
  show ?thesis using mode_volume_sums_energy[OF m _ _ _ _ i, of "\<lambda>c p. 1" "\<lambda>p. 1"] m i by simp
qed

text \<open>C18: for a plane normal to \<open>x\<close> (\<open>size.x() = 0\<close>) that has several samples along
  \<open>z\<close>, \<open>local_calc\<close> reads \<open>_dft_chunk_array_ptr[0][0][0][n_car[2]-1]\<close>, outside the
  array of \<open>n_dims[2] = 1\<close> cells that the snapshot allocated: it loops over the
  uncompacted \<open>n_car\<close> while the snapshot's arrays have the compacted shape.\<close>

theorem mode_volume_plane_reads_outside:
  assumes mv: "mode_volume_new D3 center size_v l n res out = Some mv"
      and pos: "0 < res" "vv size_v X = 0" "0 \<le> vv size_v Y" "0 < vv size_v Z"
  shows "mv_local_calc mv dftv eps = None"
proof -
  obtain s where s: "mv_snap mv = snapshot_create s" "sn_car s = mv_car mv"
    "sn_dims s = fst (compact_dims (mv_car mv))" "sn_comps s = [Ex, Ey, Ez]"
    "mv_res mv = res" "mv_size mv = vec3 (vv size_v X) (vv size_v Y) (vv size_v Z)"
    using mode_volume_new_D3[OF mv] by metis
  define b where "b = samples (vv size_v Y) res"
  define c where "c = samples (vv size_v Z) res"
  have car: "mv_car mv = [1, b, c]" using s(5,6) pos by (simp add: mv_car_def samples_def b_def c_def)
  have b1: "1 \<le> b" using pos by (simp add: b_def samples_pos)
  have c2: "2 \<le> c"
  proof -
    have "0 < vv size_v Z * res" using pos by simp
    then show ?thesis by (simp add: c_def samples_def)
  qed
  have d2: "sn_dims s ! 2 = 1" using b1 c2 unfolding s(3) car by (simp add: compact_dims_def)
  let ?n = "(0::nat, 0::nat, nat c - 1)"
  have "?n \<in> set (box3 (nat (mv_car mv ! 0)) (nat (mv_car mv ! 1)) (nat (mv_car mv ! 2)))"
    using b1 c2 car by simp
  moreover have "mv_local_val mv dftv eps ?n = None"
  proof -
    have "2 \<le> nat c" using c2 by simp
    then have "\<not> snap_in_alloc (mv_snap mv) (0, ?n)" using d2 s(1) by (simp add: snap_in_alloc_def)
    then show ?thesis by (simp add: mv_local_val_def snap_chunk_def)
  qed
  ultimately show ?thesis unfolding mv_local_calc_def by (subst fold_bind_some_none) (blast, simp)
qed


theorem mode_volume_plane_reads_outside_witness:
  "mode_volume_new D3 (vec3 0 0 0) (vec3 0 1 1) 1 1 1 False = Some (the (mode_volume_new D3 (vec3 0 0 0) (vec3 0 1 1) 1 1 1 False))
   \<and> 0 < (1::real) \<and> vv (vec3 0 1 1) X = 0 \<and> 0 \<le> vv (vec3 0 1 1) Y \<and> 0 < vv (vec3 0 1 1) Z
   \<and> mv_local_calc (the (mode_volume_new D3 (vec3 0 0 0) (vec3 0 1 1) 1 1 1 False)) (\<lambda>c p. 1) (\<lambda>p. 1) = None"
proof -
  have m: "mode_volume_new D3 (vec3 0 0 0) (vec3 0 1 1) 1 1 1 False
           = Some (the (mode_volume_new D3 (vec3 0 0 0) (vec3 0 1 1) 1 1 1 False))"
    by (simp add: mode_volume_new_eq)
  show ?thesis using mode_volume_plane_reads_outside[OF m, of "\<lambda>c p. 1" "\<lambda>p. 1"] m by simp
qed

end
