(* ===== verification/NF2FF.thy ===== *)
theory NF2FF
  imports Snapshot
begin

text \<open>
  The near-to-far-field transform \<open>nf2ff\<close> (\<open>src/vec.cpp\<close>, lines 1813-2352): a box
  whose faces (those normal to \<open>dir\<close>, or all six for \<open>NO_DIRECTION\<close>) are recorded
  by snapshots of the four tangential components; \<open>pass_data\<close> copies the averaged
  DFT values into the near-field array \<open>_near_data[dir][pos][comp][x][y]\<close>, and
  \<open>calculate\<close> sums the equivalent currents of every face sample, with a phase, into
  the far-field potentials on a grid of angles.  The fields enter through \<open>dftv c p\<close>,
  the averaged DFT value of the chunk requested for component \<open>c\<close> at \<open>p\<close> (0 for a null
  chunk).  \<open>pass_data\<close> is modelled on one process; the near-field array is a map from
  cells to values, a write outside its allocated shape or a read of a snapshot cell
  never written is \<open>None\<close>.  The HDF5 output and the destructor are not modelled.
\<close>

section \<open>State and constructor\<close>

type_synonym near_cell = "nat \<times> nat \<times> nat \<times> nat \<times> nat"

record nf2ff =
  nf_center :: vec
  nf_size :: vec
  nf_n :: "int list"  \<comment> \<open>\<open>size[3]\<close>\<close>
  nf_freq :: real
  nf_res :: real
  nf_dir :: direction
  nf_out :: bool
  nf_res_angle :: "int list"
  nf_snaps :: "nat \<times> nat \<Rightarrow> snapshot option"  \<comment> \<open>\<open>_snaps[dir][pos]\<close>\<close>
  nf_near :: "near_cell \<Rightarrow> complex option"  \<comment> \<open>\<open>_near_data\<close>\<close>

text \<open>The faces the loops visit: \<open>dir_index\<close> with \<open>d == dir_index || d == NO_DIRECTION\<close>,
  and \<open>pos < (d == NO_DIRECTION ? 2 : 1)\<close>; \<open>pos = 0\<close> is the face on the high side.\<close>

definition nf_sel :: "direction \<Rightarrow> nat \<Rightarrow> bool" where
  "nf_sel d i = (dir_num d = int i \<or> d = NO_DIRECTION)"

definition nf_npos :: "direction \<Rightarrow> nat" where
  "nf_npos d = (if d = NO_DIRECTION then 2 else 1)"

definition nf_faces :: "direction \<Rightarrow> (nat \<times> nat) list" where
  "nf_faces d = concat (map (\<lambda>i. if nf_sel d i then map (Pair i) [0..<nf_npos d] else []) [0, 1, 2])"

text \<open>\<open>return_component(dir, pos)\<close>: the tangential \<open>E\<close> and \<open>H\<close> components of a face;
  the aborts for a bad position or direction are \<open>None\<close>.\<close>

definition return_component :: "direction \<Rightarrow> int \<Rightarrow> component option" where
  "return_component d pos =
     (let cs = (case d of X \<Rightarrow> [Ey, Ez, Hy, Hz] | Y \<Rightarrow> [Ex, Ez, Hx, Hz] | Z \<Rightarrow> [Ex, Ey, Hx, Hy] | _ \<Rightarrow> [])
      in if 0 \<le> pos \<and> nat pos < length cs then Some (cs ! nat pos) else None)"

definition face_sign :: "nat \<Rightarrow> real" where
  "face_sign pos = (if pos = 0 then 1 else -1)"

text \<open>The centre and size of the snapshot of face \<open>(i, pos)\<close> in \<open>create_snaps\<close>.\<close>

definition face_center :: "vec \<Rightarrow> vec \<Rightarrow> nat \<Rightarrow> nat \<Rightarrow> vec" where
  "face_center c s i pos =
     vec3 (vv c X + face_sign pos * (if i = 0 then vv s X / 2 else 0))
          (vv c Y + face_sign pos * (if i = 1 then vv s Y / 2 else 0))
          (vv c Z + face_sign pos * (if i = 2 then vv s Z / 2 else 0))"

definition face_size :: "vec \<Rightarrow> nat \<Rightarrow> vec" where
  "face_size s i = vec3 (if i = 0 then 0 else vv s X) (if i = 1 then 0 else vv s Y) (if i = 2 then 0 else vv s Z)"

text \<open>One face: a snapshot of four components, the components of \<open>return_component\<close>
  added in slots 0-3, and \<open>create()\<close>.\<close>

definition face_snapshot :: "ndim \<Rightarrow> vec \<Rightarrow> vec \<Rightarrow> real \<Rightarrow> real \<Rightarrow> nat \<times> nat \<Rightarrow> snapshot option" where
  "face_snapshot dm c s l res f =
     (case f of (i, pos) \<Rightarrow>
        map_option snapshot_create
          (fold (\<lambda>k acc. Option.bind acc (\<lambda>sn. Option.bind (return_component (dir_of_num (int i)) k)
                                                   (\<lambda>cp. add_component sn cp k)))
                [0, 1, 2, 3]
                (Some (snapshot_new dm 4 (face_center c s i pos) (face_size s i) 0 NO_DIRECTION l res))))"

definition create_snaps ::
  "ndim \<Rightarrow> vec \<Rightarrow> vec \<Rightarrow> real \<Rightarrow> real \<Rightarrow> direction \<Rightarrow> (nat \<times> nat \<Rightarrow> snapshot option) option" where
  "create_snaps dm c s l res d =
     fold (\<lambda>f acc. Option.bind acc (\<lambda>m. map_option (\<lambda>sn. m(f := Some sn)) (face_snapshot dm c s l res f)))
          (nf_faces d) (Some (\<lambda>_. None))"

text \<open>\<open>res_angle[1] = (int) ceil(sqrt(size[0] size[1] + size[0] size[2] + size[1] size[2]))\<close>,
  \<open>res_angle[0]\<close> twice as many.\<close>

definition nf_res_angles :: "int list \<Rightarrow> int list" where
  "nf_res_angles n =
     (let r1 = \<lceil>sqrt (of_int (n ! 0 * n ! 1 + n ! 0 * n ! 2 + n ! 1 * n ! 2))\<rceil> in [2 * r1, r1])"

definition nf2ff_new ::
  "ndim \<Rightarrow> vec \<Rightarrow> vec \<Rightarrow> real \<Rightarrow> real \<Rightarrow> direction \<Rightarrow> bool \<Rightarrow> nf2ff option" where
  "nf2ff_new dm center v_size l res d out =
     (let c3 = vec3 (vv center X) (vv center Y) (vv center Z);
          s3 = vec3 (vv v_size X) (vv v_size Y) (vv v_size Z);
          n = [samples (vv s3 X) res, samples (vv s3 Y) res, samples (vv s3 Z) res]
      in map_option (\<lambda>snaps. \<lparr>nf_center = c3, nf_size = s3, nf_n = n, nf_freq = l, nf_res = res, nf_dir = d,
                              nf_out = out, nf_res_angle = nf_res_angles n, nf_snaps = snaps,
                              nf_near = (\<lambda>_. None)\<rparr>)
           (create_snaps dm c3 s3 l res d))"

section \<open>The near-field array\<close>

text \<open>\<open>allocate()\<close>: face \<open>dir_index\<close> holds \<open>size[dir_index == 0 ? 1 : 0]\<close> by
  \<open>size[dir_index == 2 ? 1 : 2]\<close> values per component.\<close>

definition near_shape :: "int list \<Rightarrow> nat \<Rightarrow> int \<times> int" where
  "near_shape n i = (n ! (if i = 0 then 1 else 0), n ! (if i = 2 then 1 else 2))"

definition near_alloc :: "nf2ff \<Rightarrow> near_cell \<Rightarrow> bool" where
  "near_alloc nf cl =
     (case cl of (i, pos, cp, x, y) \<Rightarrow>
        i < 3 \<and> nf_sel (nf_dir nf) i \<and> pos < nf_npos (nf_dir nf) \<and> cp < 4
        \<and> int x < fst (near_shape (nf_n nf) i) \<and> int y < snd (near_shape (nf_n nf) i))"

text \<open>\<open>pass_data\<close> for one cell \<open>[comp][n_0][n_1]\<close> of a face: the snapshot's chunk
  \<open>[comp][n_0][n_1][0]\<close> is read and its averaged value stored at
  \<open>_near_data[dir][pos][comp][n_0][n_1]\<close>.\<close>

definition near_cell_pass ::
  "nf2ff \<Rightarrow> (component \<Rightarrow> vec option \<Rightarrow> complex) \<Rightarrow> nat \<times> nat \<Rightarrow> snapshot \<Rightarrow> nat \<times> nat \<times> nat
   \<Rightarrow> (near_cell \<Rightarrow> complex option) \<Rightarrow> (near_cell \<Rightarrow> complex option) option" where
  "near_cell_pass nf dftv f sn c nr =
     (case (f, c) of ((i, pos), (cp, n0, n1)) \<Rightarrow>
        (case snap_chunk sn (cp, n0, n1, 0) of
           None \<Rightarrow> None
         | Some (cmp, p) \<Rightarrow>
             if near_alloc nf (i, pos, cp, n0, n1) then Some (nr((i, pos, cp, n0, n1) := Some (dftv cmp p)))
             else None))"

definition snap_cells :: "snapshot \<Rightarrow> (nat \<times> nat \<times> nat) list" where
  "snap_cells sn =
     List.product [0..<length (sn_comps sn)] (List.product [0..<nat (sn_dims sn ! 0)] [0..<nat (sn_dims sn ! 1)])"

definition near_face_pass ::
  "nf2ff \<Rightarrow> (component \<Rightarrow> vec option \<Rightarrow> complex) \<Rightarrow> nat \<times> nat
   \<Rightarrow> (near_cell \<Rightarrow> complex option) \<Rightarrow> (near_cell \<Rightarrow> complex option) option" where
  "near_face_pass nf dftv f nr =
     (case nf_snaps nf f of
        None \<Rightarrow> None
      | Some sn \<Rightarrow> fold (\<lambda>c acc. Option.bind acc (near_cell_pass nf dftv f sn c)) (snap_cells sn) (Some nr))"

definition nf_pass_data :: "nf2ff \<Rightarrow> (component \<Rightarrow> vec option \<Rightarrow> complex) \<Rightarrow> nf2ff option" where
  "nf_pass_data nf dftv =
     map_option (\<lambda>nr. nf\<lparr>nf_near := nr\<rparr>)
       (fold (\<lambda>f acc. Option.bind acc (near_face_pass nf dftv f)) (nf_faces (nf_dir nf)) (Some (\<lambda>_. None)))"

section \<open>The far field\<close>

text \<open>A value of the near-field array as \<open>calculate\<close> reads it (after \<open>pass_data\<close>
  the cells it reads are all written, C29).\<close>

definition near_val :: "nf2ff \<Rightarrow> near_cell \<Rightarrow> complex" where
  "near_val nf cl = (case nf_near nf cl of Some v \<Rightarrow> v | None \<Rightarrow> 0)"

text \<open>The equivalent currents \<open>Mx, My, Mz, Jx, Jy, Jz\<close> of sample \<open>(x, y)\<close> of face
  \<open>(dir, pos)\<close>: lines 2048-2054, each term present when \<open>dir\<close> matches, negated
  for \<open>pos = 1\<close>.\<close>

definition nf_currents :: "(near_cell \<Rightarrow> complex) \<Rightarrow> nat \<Rightarrow> nat \<Rightarrow> nat \<Rightarrow> nat \<Rightarrow> complex list" where
  "nf_currents nd dir pos x y =
     (let v = (\<lambda>k. complex_of_real (face_sign pos) * nd (dir, pos, k, x, y))
      in [(if dir = 1 then v 1 else 0) - (if dir = 2 then v 1 else 0),
          (if dir = 2 then v 0 else 0) - (if dir = 0 then v 1 else 0),
          (if dir = 0 then v 0 else 0) - (if dir = 1 then v 0 else 0),
          (if dir = 1 then v 3 else 0) - (if dir = 2 then v 3 else 0),
          (if dir = 2 then v 2 else 0) - (if dir = 0 then v 3 else 0),
          (if dir = 0 then v 2 else 0) - (if dir = 1 then v 2 else 0)])"

text \<open>The phase of \<open>C = polar(1, ...)\<close>: the sample's offset from the centre of the box in
  grid steps, over the resolution, projected on the direction \<open>(theta, phi)\<close>.\<close>

definition nf_phase :: "int list \<Rightarrow> real \<Rightarrow> nat \<Rightarrow> nat \<Rightarrow> nat \<Rightarrow> nat \<Rightarrow> real \<Rightarrow> real \<Rightarrow> real" where
  "nf_phase n res dir pos x y theta phi =
     (let half = (\<lambda>j. (of_int (n ! j) - 1) / 2)
      in (if dir = 0 then face_sign pos * half 0 else of_nat x - half 0) * (sin theta * cos phi) / res
         + (if dir = 1 then face_sign pos * half 1 else (if dir = 0 then of_nat x else of_nat y) - half 1)
             * (sin theta * sin phi) / res
         + (if dir = 2 then face_sign pos * half 2 else of_nat y - half 2) * cos theta / res)"

text \<open>The samples of face \<open>dir\<close> in the loops of \<open>calculate\<close>.\<close>

definition face_samples :: "int list \<Rightarrow> nat \<Rightarrow> (nat \<times> nat) list" where
  "face_samples n dir = List.product [0..<nat (fst (near_shape n dir))] [0..<nat (snd (near_shape n dir))]"

text \<open>\<open>L_phi, L_theta, N_phi, N_theta\<close> at angle \<open>(theta, phi)\<close>.\<close>

definition nf_potentials :: "nf2ff \<Rightarrow> real \<Rightarrow> real \<Rightarrow> complex \<times> complex \<times> complex \<times> complex" where
  "nf_potentials nf theta phi =
     fold (\<lambda>(dir, pos) acc.
             fold (\<lambda>(x, y) (lp, lt, np, nt).
                     (let mj = nf_currents (near_val nf) dir pos x y;
                          c = cis (nf_phase (nf_n nf) (nf_res nf) dir pos x y theta phi);
                          st = complex_of_real (sin theta); ct = complex_of_real (cos theta);
                          sp = complex_of_real (sin phi); cp = complex_of_real (cos phi)
                      in (lp + (- (mj ! 0) * sp + mj ! 1 * cp) * c,
                          lt + (mj ! 0 * ct * cp + mj ! 1 * ct * sp - mj ! 2 * st) * c,
                          np + (- (mj ! 3) * sp + mj ! 4 * cp) * c,
                          nt + (mj ! 3 * ct * cp + mj ! 4 * ct * sp - mj ! 5 * st) * c)))
                  (face_samples (nf_n nf) dir) acc)
          (nf_faces (nf_dir nf)) (0, 0, 0, 0)"

text \<open>The angles of sample \<open>(k, l)\<close>: \<open>phi = k/(res_angle[0]-1) 2 pi - pi\<close>,
  \<open>theta = l/(res_angle[1]-1) pi\<close>.\<close>

definition nf_angles :: "int list \<Rightarrow> nat \<Rightarrow> nat \<Rightarrow> real \<times> real" where
  "nf_angles ra k l =
     (of_nat l / (of_int (ra ! 1) - 1) * pi, of_nat k / (of_int (ra ! 0) - 1) * 2 * pi - pi)"

text \<open>The far fields \<open>E_phi, E_theta, H_phi, H_theta\<close> of sample \<open>(k, l)\<close>, before
  the division by \<open>norm\<close>.\<close>

definition nf_far :: "nf2ff \<Rightarrow> nat \<Rightarrow> nat \<Rightarrow> complex \<times> complex \<times> complex \<times> complex" where
  "nf_far nf k l =
     (case nf_angles (nf_res_angle nf) k l of (theta, phi) \<Rightarrow>
        (case nf_potentials nf theta phi of (lp, lt, np, nt) \<Rightarrow>
           (lt - np, - (lp + nt), - (nt + lp), np - lt)))"

text \<open>\<open>norm = size.x size.y size.z resolution^3\<close>; the magnitudes are divided by it
  (\<open>None\<close> when it is 0), the arguments are \<open>arg\<close> of the fields.\<close>

definition nf_norm :: "nf2ff \<Rightarrow> real" where
  "nf_norm nf = vv (nf_size nf) X * vv (nf_size nf) Y * vv (nf_size nf) Z * nf_res nf ^ 3"

definition nf_calculate :: "nf2ff \<Rightarrow> nat \<Rightarrow> nat \<Rightarrow> (real list \<times> real list) option" where
  "nf_calculate nf k l =
     (case nf_far nf k l of (ep, et, hp, ht) \<Rightarrow>
        if nf_norm nf = 0 then None
        else Some (map (\<lambda>z. cmod z / nf_norm nf) [ep, et, hp, ht], map Arg [ep, et, hp, ht]))"

section \<open>Freeing the near-field array\<close>

text \<open>The rows \<open>_near_data[dir][pos][comp][x]\<close> (arrays of \<open>complex\<close>) of the faces, in
  loop order, for a row count \<open>nx dir\<close> per face.  \<open>allocate\<close> creates
  \<open>size[dir == 0 ? 1 : 0]\<close> rows per component, \<open>calculate\<close> deletes as many at its
  end, and the destructor deletes \<open>size[dir == 0 ? 1 : 2]\<close>.  The heap is the set of
  live rows; deleting a row that is not live (a read past the end of
  \<open>_near_data[dir][pos][comp]\<close> or a double delete) is \<open>None\<close>, and rows still live
  at the end leak.  The arrays above the rows are created and deleted in the same
  loops in both places.\<close>

definition near_rows :: "nf2ff \<Rightarrow> (nat \<Rightarrow> int) \<Rightarrow> (nat \<times> nat \<times> nat \<times> nat) list" where
  "near_rows nf nx =
     concat (map (\<lambda>(i, pos). concat (map (\<lambda>cp. map (\<lambda>x. (i, pos, cp, x)) [0..<nat (nx i)]) [0..<4]))
                 (nf_faces (nf_dir nf)))"

definition near_alloc_rows :: "nf2ff \<Rightarrow> (nat \<times> nat \<times> nat \<times> nat) list" where
  "near_alloc_rows nf = near_rows nf (\<lambda>i. nf_n nf ! (if i = 0 then 1 else 0))"

definition calc_free_rows :: "nf2ff \<Rightarrow> (nat \<times> nat \<times> nat \<times> nat) list" where
  "calc_free_rows nf = near_rows nf (\<lambda>i. nf_n nf ! (if i = 0 then 1 else 0))"

definition destroy_rows :: "nf2ff \<Rightarrow> (nat \<times> nat \<times> nat \<times> nat) list" where
  "destroy_rows nf = near_rows nf (\<lambda>i. nf_n nf ! (if i = 0 then 1 else 2))"

definition free_rows :: "'a list \<Rightarrow> 'a set \<Rightarrow> 'a set option" where
  "free_rows rs heap = fold (\<lambda>r acc. Option.bind acc (\<lambda>h. if r \<in> h then Some (h - {r}) else None)) rs (Some heap)"

section \<open>Specification: equivalent surface currents\<close>

text \<open>The cross product of two complex 3-vectors, the outward normal of face
  \<open>(i, pos)\<close>, and the field the snapshot of face \<open>i\<close> records in slot \<open>k\<close>
  (\<open>return_component(i, k)\<close>) when the total field is \<open>fld\<close>.\<close>

definition cross3 :: "complex list \<Rightarrow> complex list \<Rightarrow> complex list" where
  "cross3 a b = [a ! 1 * b ! 2 - a ! 2 * b ! 1, a ! 2 * b ! 0 - a ! 0 * b ! 2, a ! 0 * b ! 1 - a ! 1 * b ! 0]"

definition face_normal :: "nat \<Rightarrow> nat \<Rightarrow> complex list" where
  "face_normal i pos = map (\<lambda>j. if j = i then complex_of_real (face_sign pos) else 0) [0, 1, 2]"

definition face_field :: "(component \<Rightarrow> complex) \<Rightarrow> nat \<Rightarrow> nat \<Rightarrow> complex" where
  "face_field fld i k = (case return_component (dir_of_num (int i)) (int k) of Some c \<Rightarrow> fld c | None \<Rightarrow> 0)"

section \<open>Face snapshots and the near-field array\<close>

lemma face_snapshot_eq:
  assumes "i < 3"
  shows "face_snapshot dm c s l res (i, pos) =
           Some (snapshot_create ((snapshot_new dm 4 (face_center c s i pos) (face_size s i) 0 NO_DIRECTION l res)
                   \<lparr>sn_comps := [[Ey, Ez, Hy, Hz], [Ex, Ez, Hx, Hz], [Ex, Ey, Hx, Hy]] ! i\<rparr>))"
proof -
  have c: "sn_comps (snapshot_new dm 4 c' s' 0 NO_DIRECTION l res) = [Ex, Ex, Ex, Ex]" for c' s'
    by (simp add: snapshot_new_def case_prod_beta numeral_eq_Suc)
  have "i = 0 \<or> i = 1 \<or> i = 2" using assms by auto
  then show ?thesis
    by (elim disjE) (simp_all add: face_snapshot_def return_component_def dir_of_num_def add_component_def c)
qed


lemma nf_faces_set: "set (nf_faces d) = {(i, pos). i < 3 \<and> nf_sel d i \<and> pos < nf_npos d}"
  unfolding nf_faces_def by (auto simp: less_Suc_eq numeral_3_eq_3 numeral_2_eq_2)

lemma samples_two: "0 < s \<Longrightarrow> 0 < res \<Longrightarrow> 2 \<le> samples s res"
proof -
  assume "0 < s" "0 < res"
  then have "0 < s * res" by simp
  then show ?thesis by (simp add: samples_def)
qed

lemma face_dims:
  assumes "i < 3" "2 \<le> a" "2 \<le> b" "2 \<le> c"
  shows "fst (compact_dims [if i = 0 then 1 else a, if i = 1 then 1 else b, if i = 2 then 1 else c])
         = [fst (near_shape [a, b, c] i), snd (near_shape [a, b, c] i), 1]"
proof -
  have "i = 0 \<or> i = 1 \<or> i = 2" using assms(1) by auto
  then show ?thesis using assms(2-4) by (elim disjE) (simp_all add: compact_dims_def near_shape_def)
qed

lemma snap_cells_create [simp]: "snap_cells (snapshot_create sn) = snap_cells sn"
  by (simp add: snap_cells_def snapshot_create_def store_chunks_def)

lemma snap_cells_alloc:
  "(cp, x, y) \<in> set (snap_cells sn) \<Longrightarrow> 0 < sn_dims sn ! 2 \<Longrightarrow> snap_in_alloc sn (cp, x, y, 0)"
  by (auto simp: snap_cells_def snap_in_alloc_def)

text \<open>In 3D with a positive size along each axis, the constructor builds every face
  snapshot, a box snapshot whose cells are the allocated near-field cells of the face.\<close>

lemma nf2ff_new_D3:
  assumes pos: "0 < res" "0 < vv v_size X" "0 < vv v_size Y" "0 < vv v_size Z"
  shows "\<exists>nf. nf2ff_new D3 center v_size l res d out = Some nf \<and> nf_dir nf = d \<and> nf_near nf = Map.empty
           \<and> nf_n nf = map (\<lambda>a. samples (vv v_size a) res) [X, Y, Z]
           \<and> (\<forall>f\<in>set (nf_faces d). \<exists>s0. nf_snaps nf f = Some (snapshot_create s0) \<and> sn_radius s0 = 0
                 \<and> 0 < sn_dims s0 ! 2
                 \<and> (\<forall>cp x y. (cp, x, y) \<in> set (snap_cells s0) \<longleftrightarrow> near_alloc nf (fst f, snd f, cp, x, y)))"
proof -
  define c3 where "c3 = vec3 (vv center X) (vv center Y) (vv center Z)"
  define s3 where "s3 = vec3 (vv v_size X) (vv v_size Y) (vv v_size Z)"
  define a b c where "a = samples (vv v_size X) res" "b = samples (vv v_size Y) res" "c = samples (vv v_size Z) res"
  have abc: "2 \<le> a" "2 \<le> b" "2 \<le> c" using pos by (simp_all add: a_b_c_def samples_two)
  let ?snaps = "\<lambda>x. if x \<in> set (nf_faces d) then face_snapshot D3 c3 s3 l res x else None"
  have cs: "create_snaps D3 c3 s3 l res d = Some ?snaps"
    unfolding create_snaps_def by (rule fold_map_upd) (auto simp: nf_faces_set face_snapshot_eq)
  define nf where "nf = \<lparr>nf_center = c3, nf_size = s3, nf_n = [a, b, c], nf_freq = l, nf_res = res, nf_dir = d,
                         nf_out = out, nf_res_angle = nf_res_angles [a, b, c], nf_snaps = ?snaps,
                         nf_near = Map.empty\<rparr>"
  have new: "nf2ff_new D3 center v_size l res d out = Some nf"
    unfolding nf2ff_new_def Let_def c3_def[symmetric] s3_def[symmetric] using cs
    by (simp add: nf_def s3_def a_b_c_def)
  have face: "\<exists>s0. nf_snaps nf (i, p) = Some (snapshot_create s0) \<and> sn_radius s0 = 0 \<and> 0 < sn_dims s0 ! 2
                \<and> (\<forall>cp x y. (cp, x, y) \<in> set (snap_cells s0) \<longleftrightarrow> near_alloc nf (i, p, cp, x, y))"
    if f: "(i, p) \<in> set (nf_faces d)" for i p
  proof -
    have i3: "i < 3" using f by (simp add: nf_faces_set)
    have car: "snd (snd (snap_box D3 (face_center c3 s3 i p) (face_size s3 i) res))
               = [if i = 0 then 1 else a, if i = 1 then 1 else b, if i = 2 then 1 else c]"
      by (simp add: snap_box_def face_size_def s3_def a_b_c_def samples_def)
    define s0 where "s0 = (snapshot_new D3 4 (face_center c3 s3 i p) (face_size s3 i) 0 NO_DIRECTION l res)
                 \<lparr>sn_comps := [[Ey, Ez, Hy, Hz], [Ex, Ez, Hx, Hz], [Ex, Ey, Hx, Hy]] ! i\<rparr>"
    have snap: "nf_snaps nf (i, p) = Some (snapshot_create s0)"
      using f face_snapshot_eq[OF i3] by (simp add: nf_def s0_def)
    have dims: "sn_dims s0 = [fst (near_shape [a, b, c] i), snd (near_shape [a, b, c] i), 1]"
      using face_dims[OF i3 abc] car by (simp add: s0_def snapshot_new_def case_prod_beta)
    have len: "length (sn_comps s0) = 4"
    proof -
      have "i = 0 \<or> i = 1 \<or> i = 2" using i3 by auto
      then show ?thesis by (auto simp: s0_def)
    qed
    have "(cp, x, y) \<in> set (snap_cells s0) \<longleftrightarrow> near_alloc nf (i, p, cp, x, y)" for cp x y
      using f len dims by (auto simp: snap_cells_def near_alloc_def nf_faces_set nf_def)
    moreover have "sn_radius s0 = 0" by (simp add: s0_def snapshot_new_def case_prod_beta)
    ultimately show ?thesis using snap dims by auto
  qed
  show ?thesis using new face by (auto simp: nf_def a_b_c_def)
qed

text \<open>\<open>pass_data\<close> on one face whose snapshot cells are the face's allocated cells
  writes exactly those cells.\<close>

lemma near_face_pass_dom:
  assumes snap: "nf_snaps nf (i, p) = Some (snapshot_create s0)" "sn_radius s0 = 0" "0 < sn_dims s0 ! 2"
    and cells: "\<forall>cp x y. (cp, x, y) \<in> set (snap_cells s0) \<longleftrightarrow> near_alloc nf (i, p, cp, x, y)"
  shows "\<exists>m'. near_face_pass nf dftv (i, p) m = Some m'
           \<and> dom m' = dom m \<union> {cl. fst cl = i \<and> fst (snd cl) = p \<and> near_alloc nf cl}"
proof -
  have step: "\<forall>ce\<in>set (snap_cells s0). \<forall>m. \<exists>m'. near_cell_pass nf dftv (i, p) (snapshot_create s0) ce m = Some m'
                 \<and> dom m' = dom m \<union> {(i, p, ce)}"
  proof (intro ballI allI)
    fix ce m assume ce: "ce \<in> set (snap_cells s0)"
    obtain cp x y where cxy: "ce = (cp, x, y)" by (cases ce) auto
    have al: "snap_in_alloc s0 (cp, x, y, 0)" using ce cxy snap(3) by (simp add: snap_cells_alloc)
    have "near_alloc nf (i, p, cp, x, y)" using cells ce cxy by simp
    then show "\<exists>m'. near_cell_pass nf dftv (i, p) (snapshot_create s0) ce m = Some m' \<and> dom m' = dom m \<union> {(i, p, ce)}"
      using snap_chunk_create_dft[OF snap(2) al] by (auto simp: near_cell_pass_def cxy)
  qed
  have "(\<Union>ce\<in>set (snap_cells s0). {(i, p, ce)}) = {cl. fst cl = i \<and> fst (snd cl) = p \<and> near_alloc nf cl}"
  proof (intro set_eqI iffI)
    fix cl assume "cl \<in> {cl. fst cl = i \<and> fst (snd cl) = p \<and> near_alloc nf cl}"
    moreover obtain i' p' cp x y where "cl = (i', p', cp, x, y)" by (cases cl) auto
    ultimately show "cl \<in> (\<Union>ce\<in>set (snap_cells s0). {(i, p, ce)})" using cells by auto
  qed (use cells in auto)
  then show ?thesis
    using fold_bind_dom[OF step, where ma = m] unfolding near_face_pass_def snap(1) by simp
qed


text \<open>The cells \<open>calculate\<close> reads on a face are allocated cells.\<close>

lemma face_samples_alloc:
  "(i, p) \<in> set (nf_faces (nf_dir nf)) \<Longrightarrow> k < 4 \<Longrightarrow> (x, y) \<in> set (face_samples (nf_n nf) i)
   \<Longrightarrow> near_alloc nf (i, p, k, x, y)"
  by (auto simp: face_samples_def near_alloc_def nf_faces_set)

lemma free_rows_distinct:
  "distinct rs \<Longrightarrow> free_rows rs h = (if set rs \<subseteq> h then Some (h - set rs) else None)"
proof (induction rs arbitrary: h)
  case (Cons r rs)
  show ?case
  proof (cases "r \<in> h")
    case True
    then have "free_rows (r # rs) h = free_rows rs (h - {r})" by (simp add: free_rows_def)
    then show ?thesis using Cons True by auto
  next
    case False
    have "fold (\<lambda>r acc. Option.bind acc (\<lambda>h. if r \<in> h then Some (h - {r}) else None)) rs None = None"
      by (induction rs) simp_all
    then show ?thesis using False by (simp add: free_rows_def)
  qed
qed (simp add: free_rows_def)

lemma nf_faces_product: "nf_faces d = List.product (filter (nf_sel d) [0, 1, 2]) [0..<nf_npos d]"
  by (simp add: nf_faces_def)

lemma distinct_near_rows: "distinct (near_rows nf nx)"
  unfolding near_rows_def
proof (rule distinct_concat_map_disj)
  show "distinct (nf_faces (nf_dir nf))" by (simp add: nf_faces_product distinct_product)
  show "\<forall>f\<in>set (nf_faces (nf_dir nf)). distinct ((\<lambda>(i, pos). concat (map (\<lambda>cp. map (\<lambda>x. (i, pos, cp, x)) [0..<nat (nx i)]) [0..<4])) f)"
    by (auto intro!: distinct_concat_map_disj simp: distinct_map inj_on_def)
  show "\<forall>f\<in>set (nf_faces (nf_dir nf)). \<forall>g\<in>set (nf_faces (nf_dir nf)). f \<noteq> g \<longrightarrow>
          set ((\<lambda>(i, pos). concat (map (\<lambda>cp. map (\<lambda>x. (i, pos, cp, x)) [0..<nat (nx i)]) [0..<4])) f)
          \<inter> set ((\<lambda>(i, pos). concat (map (\<lambda>cp. map (\<lambda>x. (i, pos, cp, x)) [0..<nat (nx i)]) [0..<4])) g) = {}"
    by auto
qed

lemma set_near_rows:
  "set (near_rows nf nx) = {(i, pos, cp, x). (i, pos) \<in> set (nf_faces (nf_dir nf)) \<and> cp < 4 \<and> x < nat (nx i)}"
proof (intro set_eqI iffI)
  fix r assume "r \<in> {(i, pos, cp :: nat, x). (i, pos) \<in> set (nf_faces (nf_dir nf)) \<and> cp < 4 \<and> x < nat (nx i)}"
  then obtain i pos cp x where r: "r = (i, pos, cp, x)" "(i, pos) \<in> set (nf_faces (nf_dir nf))" "cp < 4" "x < nat (nx i)"
    by blast
  then show "r \<in> set (near_rows nf nx)" unfolding near_rows_def by (force simp: image_iff)
qed (auto simp: near_rows_def)

lemma near_rows_eq_iff:
  "set (near_rows nf nx) = set (near_rows nf ny)
   \<longleftrightarrow> (\<forall>(i, pos)\<in>set (nf_faces (nf_dir nf)). nat (nx i) = nat (ny i))"
proof
  assume eq: "set (near_rows nf nx) = set (near_rows nf ny)"
  show "\<forall>(i, pos)\<in>set (nf_faces (nf_dir nf)). nat (nx i) = nat (ny i)"
  proof (clarify)
    fix i pos assume f: "(i, pos) \<in> set (nf_faces (nf_dir nf))"
    have x: "x < nat (nx i) \<longleftrightarrow> x < nat (ny i)" for x
    proof -
      have "(i, pos, 0, x) \<in> set (near_rows nf nx) \<longleftrightarrow> (i, pos, 0, x) \<in> set (near_rows nf ny)" using eq by simp
      then show ?thesis using f by (simp add: set_near_rows)
    qed
    show "nat (nx i) = nat (ny i)"
      using x[of "nat (nx i)"] x[of "nat (ny i)"] by (meson linorder_neqE_nat less_irrefl)
  qed
next
  assume "\<forall>(i, pos)\<in>set (nf_faces (nf_dir nf)). nat (nx i) = nat (ny i)"
  then show "set (near_rows nf nx) = set (near_rows nf ny)" unfolding set_near_rows by fastforce
qed

lemma all_faces_iff:
  "(\<forall>(i, pos)\<in>set (nf_faces d). Q i) \<longleftrightarrow> (nf_sel d 0 \<longrightarrow> Q 0) \<and> (nf_sel d 1 \<longrightarrow> Q 1) \<and> (nf_sel d 2 \<longrightarrow> Q 2)"
proof -
  have "0 < nf_npos d" by (simp add: nf_npos_def)
  then have "(\<forall>(i, pos)\<in>set (nf_faces d). Q i) \<longleftrightarrow> (\<forall>i<3. nf_sel d i \<longrightarrow> Q i)"
    by (auto simp: nf_faces_set)
  then show ?thesis by (simp only: all_less_3)
qed

section \<open>Properties\<close>

text \<open>C29: in 3D, with a positive resolution and a positive size along each axis, the
  constructor builds every face snapshot, \<open>pass_data\<close> returns (every snapshot
  chunk it reads is in its array, every write is in the allocated near-field array),
  it writes exactly the cells \<open>allocate\<close> allocates, and every cell \<open>calculate\<close>
  reads is written.\<close>

theorem nf_pass_data_fills:
  assumes "0 < res" "0 < vv v_size X" "0 < vv v_size Y" "0 < vv v_size Z"
  shows "\<exists>nf nf'. nf2ff_new D3 center v_size l res d out = Some nf \<and> nf_pass_data nf dftv = Some nf'
           \<and> dom (nf_near nf') = Collect (near_alloc nf)
           \<and> (\<forall>(i, p)\<in>set (nf_faces d). \<forall>k<4. \<forall>(x, y)\<in>set (face_samples (nf_n nf') i).
                 nf_near nf' (i, p, k, x, y) \<noteq> None)"
proof -
  obtain nf where nf: "nf2ff_new D3 center v_size l res d out = Some nf" "nf_dir nf = d" "nf_near nf = Map.empty"
      and faces: "\<forall>f\<in>set (nf_faces d). \<exists>s0. nf_snaps nf f = Some (snapshot_create s0) \<and> sn_radius s0 = 0
                 \<and> 0 < sn_dims s0 ! 2
                 \<and> (\<forall>cp x y. (cp, x, y) \<in> set (snap_cells s0) \<longleftrightarrow> near_alloc nf (fst f, snd f, cp, x, y))"
    using nf2ff_new_D3[OF assms] by blast
  let ?D = "\<lambda>f. {cl. fst cl = fst f \<and> fst (snd cl) = snd f \<and> near_alloc nf cl}"
  have "\<forall>f\<in>set (nf_faces d). \<forall>m. \<exists>m'. near_face_pass nf dftv f m = Some m' \<and> dom m' = dom m \<union> ?D f"
  proof (intro ballI allI)
    fix f m assume "f \<in> set (nf_faces d)"
    then obtain s0 where "nf_snaps nf (fst f, snd f) = Some (snapshot_create s0)" "sn_radius s0 = 0"
        "0 < sn_dims s0 ! 2" "\<forall>cp x y. (cp, x, y) \<in> set (snap_cells s0) \<longleftrightarrow> near_alloc nf (fst f, snd f, cp, x, y)"
      using faces by auto
    from near_face_pass_dom[OF this, of dftv m]
    show "\<exists>m'. near_face_pass nf dftv f m = Some m' \<and> dom m' = dom m \<union> ?D f" by simp
  qed
  from fold_bind_dom[OF this, where ma = Map.empty]
  obtain nr where nr: "fold (\<lambda>f acc. Option.bind acc (near_face_pass nf dftv f)) (nf_faces d) (Some Map.empty)
                           = Some nr" "dom nr = (\<Union>f\<in>set (nf_faces d). ?D f)"
    by auto
  have dom: "(\<Union>f\<in>set (nf_faces d). ?D f) = Collect (near_alloc nf)"
  proof (intro set_eqI iffI)
    fix cl assume "cl \<in> Collect (near_alloc nf)"
    moreover obtain i p cp x y where "cl = (i, p, cp, x, y)" by (cases cl) auto
    ultimately show "cl \<in> (\<Union>f\<in>set (nf_faces d). ?D f)"
      using nf(2) by (auto simp: near_alloc_def nf_faces_set)
  qed auto
  have pass: "nf_pass_data nf dftv = Some (nf\<lparr>nf_near := nr\<rparr>)"
    using nr(1) nf(2) by (simp add: nf_pass_data_def)
  have alld: "dom (nf_near (nf\<lparr>nf_near := nr\<rparr>)) = Collect (near_alloc nf)"
    using nr(2) dom by simp
  have "nf_near (nf\<lparr>nf_near := nr\<rparr>) (i, p, k, x, y) \<noteq> None"
    if "(i, p) \<in> set (nf_faces d)" "k < 4" "(x, y) \<in> set (face_samples (nf_n nf) i)" for i p k x y
  proof -
    have "near_alloc nf (i, p, k, x, y)" using face_samples_alloc[of i p nf k x y] that nf(2) by simp
    then show ?thesis using alld by auto
  qed
  then have "\<forall>(i, p)\<in>set (nf_faces d). \<forall>k<4. \<forall>(x, y)\<in>set (face_samples (nf_n (nf\<lparr>nf_near := nr\<rparr>)) i).
          nf_near (nf\<lparr>nf_near := nr\<rparr>) (i, p, k, x, y) \<noteq> None"
    by (simp add: case_prod_unfold) (metis prod.collapse)
  then show ?thesis using nf(1) pass alld by blast
qed

theorem nf_pass_data_fills_witness:
  "\<exists>nf nf'. nf2ff_new D3 (vec3 0 0 0) (vec3 1 1 1) 1 1 NO_DIRECTION False = Some nf
     \<and> nf_pass_data nf (\<lambda>_ _. 0) = Some nf' \<and> dom (nf_near nf') = Collect (near_alloc nf)"
  using nf_pass_data_fills[of 1 "vec3 1 1 1" "vec3 0 0 0" 1 NO_DIRECTION False "\<lambda>_ _. 0"] by auto

text \<open>C33: on face \<open>(i, pos)\<close> the currents of \<open>calculate\<close> are \<open>(Mx, My, Mz) = n \<times> E\<close>
  and \<open>(Jx, Jy, Jz) = n \<times> H\<close>, with \<open>n\<close> the outward normal, when the near-field
  array holds the tangential fields that \<open>return_component\<close> names.\<close>

theorem nf_currents_cross:
  assumes "i < 3" and "\<forall>k<4. nd (i, pos, k, x, y) = face_field fld i k"
  shows "nf_currents nd i pos x y
           = cross3 (face_normal i pos) (map fld [Ex, Ey, Ez]) @ cross3 (face_normal i pos) (map fld [Hx, Hy, Hz])"
proof -
  have nd: "nd (i, pos, 0, x, y) = face_field fld i 0" "nd (i, pos, 1, x, y) = face_field fld i 1"
      "nd (i, pos, 2, x, y) = face_field fld i 2" "nd (i, pos, 3, x, y) = face_field fld i 3"
    using assms(2) by simp_all
  have "i = 0 \<or> i = 1 \<or> i = 2" using assms(1) by auto
  then show ?thesis using nd
    by (elim disjE) (simp_all add: nf_currents_def cross3_def face_normal_def face_field_def
                       return_component_def dir_of_num_def)
qed

theorem nf_currents_cross_witness:
  "nf_currents (\<lambda>(i, pos, k, x, y). face_field (\<lambda>c. if c = Ey then 1 else 0) i k) 0 0 0 0 = [0, 0, 1, 0, 0, 0]"
proof -
  have "nf_currents (\<lambda>(i, pos, k, x, y). face_field (\<lambda>c. if c = Ey then 1 else 0) i k) 0 0 0 0
        = cross3 (face_normal 0 0) (map (\<lambda>c. if c = Ey then 1 else 0) [Ex, Ey, Ez])
          @ cross3 (face_normal 0 0) (map (\<lambda>c. if c = Ey then 1 else 0) [Hx, Hy, Hz])"
    by (rule nf_currents_cross) simp_all
  then show ?thesis by (simp add: cross3_def face_normal_def face_sign_def)
qed

text \<open>C8: the rows of the near-field array that \<open>calculate\<close> deletes are exactly those
  \<open>allocate\<close> created, so it frees them all once; the destructor, which deletes
  \<open>size[dir == 0 ? 1 : 2]\<close> rows per component, frees exactly the allocated rows only
  when no face normal to \<open>y\<close> or \<open>z\<close> is recorded or \<open>size[0] = size[2]\<close>: otherwise
  it leaks rows or deletes past the end of the row array.\<close>

theorem near_data_free:
  "free_rows (calc_free_rows nf) (set (near_alloc_rows nf)) = Some {}
   \<and> (free_rows (destroy_rows nf) (set (near_alloc_rows nf)) = Some {}
      \<longleftrightarrow> (nf_sel (nf_dir nf) 1 \<or> nf_sel (nf_dir nf) 2 \<longrightarrow> nat (nf_n nf ! 0) = nat (nf_n nf ! 2)))"
proof
  show "free_rows (calc_free_rows nf) (set (near_alloc_rows nf)) = Some {}"
    by (simp add: free_rows_distinct distinct_near_rows calc_free_rows_def near_alloc_rows_def)
  have "free_rows (destroy_rows nf) (set (near_alloc_rows nf)) = Some {}
        \<longleftrightarrow> set (destroy_rows nf) = set (near_alloc_rows nf)"
    by (auto simp: free_rows_distinct destroy_rows_def distinct_near_rows)
  also have "\<dots> \<longleftrightarrow> (\<forall>(i, pos)\<in>set (nf_faces (nf_dir nf)).
                    nat (nf_n nf ! (if i = 0 then 1 else 2)) = nat (nf_n nf ! (if i = 0 then 1 else 0)))"
    unfolding destroy_rows_def near_alloc_rows_def by (rule near_rows_eq_iff)
  also have "\<dots> \<longleftrightarrow> (nf_sel (nf_dir nf) 1 \<or> nf_sel (nf_dir nf) 2 \<longrightarrow> nat (nf_n nf ! 0) = nat (nf_n nf ! 2))"
    unfolding all_faces_iff by auto
  finally show "free_rows (destroy_rows nf) (set (near_alloc_rows nf)) = Some {}
      \<longleftrightarrow> (nf_sel (nf_dir nf) 1 \<or> nf_sel (nf_dir nf) 2 \<longrightarrow> nat (nf_n nf ! 0) = nat (nf_n nf ! 2))" .
qed

theorem near_data_free_witness:
  "free_rows (calc_free_rows \<lparr>nf_center = vec3 0 0 0, nf_size = vec3 2 1 1, nf_n = [3, 2, 2], nf_freq = 1, nf_res = 1,
                nf_dir = NO_DIRECTION, nf_out = False, nf_res_angle = [8, 4], nf_snaps = (\<lambda>_. None),
                nf_near = (\<lambda>_. None)\<rparr>)
     (set (near_alloc_rows \<lparr>nf_center = vec3 0 0 0, nf_size = vec3 2 1 1, nf_n = [3, 2, 2], nf_freq = 1, nf_res = 1,
                nf_dir = NO_DIRECTION, nf_out = False, nf_res_angle = [8, 4], nf_snaps = (\<lambda>_. None),
                nf_near = (\<lambda>_. None)\<rparr>)) = Some {}
   \<and> free_rows (destroy_rows \<lparr>nf_center = vec3 0 0 0, nf_size = vec3 2 1 1, nf_n = [3, 2, 2], nf_freq = 1, nf_res = 1,
                nf_dir = NO_DIRECTION, nf_out = False, nf_res_angle = [8, 4], nf_snaps = (\<lambda>_. None),
                nf_near = (\<lambda>_. None)\<rparr>)
     (set (near_alloc_rows \<lparr>nf_center = vec3 0 0 0, nf_size = vec3 2 1 1, nf_n = [3, 2, 2], nf_freq = 1, nf_res = 1,
                nf_dir = NO_DIRECTION, nf_out = False, nf_res_angle = [8, 4], nf_snaps = (\<lambda>_. None),
                nf_near = (\<lambda>_. None)\<rparr>)) \<noteq> Some {}"
  using near_data_free[of "\<lparr>nf_center = vec3 0 0 0, nf_size = vec3 2 1 1, nf_n = [3, 2, 2], nf_freq = 1, nf_res = 1,
                nf_dir = NO_DIRECTION, nf_out = False, nf_res_angle = [8, 4], nf_snaps = (\<lambda>_. None),
                nf_near = (\<lambda>_. None)\<rparr>"]
  by (simp add: nf_sel_def)

end
