(* ===== verification/Lifetimes.thy ===== *)
theory Lifetimes
  imports NF2FF
begin

text \<open>
  The memory the diagnostics allocate and free: the chunk and data arrays of a
  \<open>snapshot\<close> (constructor, \<open>allocate_memory\<close>, \<open>pass_data\<close>, \<open>output_snapshot\<close>,
  destructor) and the near-field, far-field, snapshot and file objects of an
  \<open>nf2ff\<close> (constructor, \<open>create_snaps\<close>, \<open>allocate\<close>, \<open>pass_data\<close>, \<open>process\<close>,
  \<open>output_snaps\<close>, \<open>calculate\<close>, \<open>output\<close>, destructor).  The heap is a map from the
  blocks the code names (\<open>_near_data[dir][pos][comp][x]\<close> is \<open>NearRow dir pos comp x\<close>)
  to their number of entries; a pointer field is uninitialised, \<open>NULL\<close> or live.  A
  \<open>delete\<close> of a block that is not live, a read through such a block, a read past the
  end of an array and a read of an uninitialised pointer are faults, values of
  \<open>mem_fault\<close>; an allocation through a pointer that still holds a live block counts
  that block as leaked.  The values stored are those of \<open>Snapshot\<close> and \<open>NF2FF\<close>; here
  only which blocks are live and which entries are touched.  The temporary name
  strings and the \<open>vec\<close> objects of the constructors are left out: each is freed in
  the function or destructor that allocates it.
\<close>

section \<open>Heap, faults, and loops that may fault\<close>

datatype block =
    NearTop | NearDir nat | NearPos nat nat | NearComp nat nat nat | NearRow nat nat nat nat
  | SnapTop | SnapDir nat | SnapObj nat nat | FarArr nat | H5File | OSData nat
  | ChunkTop | ChunkComp nat | ChunkN0 nat nat | ChunkN1 nat nat nat | DataTop nat | DataComp nat nat

datatype mem_fault = BadDelete block | BadRead block | OutOfBounds block nat | UninitRead

datatype pstate = Uninit | Null | Live

record mem =
  heap :: "block \<rightharpoonup> nat"
  leaked :: nat

fun ebind :: "'e + 'a \<Rightarrow> ('a \<Rightarrow> 'e + 'b) \<Rightarrow> 'e + 'b" where
  "ebind (Inl e) f = Inl e"
| "ebind (Inr a) f = f a"

text \<open>A loop whose body may fault: the first fault ends it.\<close>

primrec efold :: "('x \<Rightarrow> 'a \<Rightarrow> 'e + 'a) \<Rightarrow> 'x list \<Rightarrow> 'a \<Rightarrow> 'e + 'a" where
  "efold f [] a = Inr a"
| "efold f (x # xs) a = ebind (f x a) (efold f xs)"

text \<open>\<open>p = new T[k]\<close>: the block is live with \<open>k\<close> entries; the block \<open>p\<close> held before, if
  live, is no longer reachable.\<close>

definition new_blk :: "block \<Rightarrow> nat \<Rightarrow> mem \<Rightarrow> mem" where
  "new_blk b k m = m\<lparr>heap := (heap m)(b \<mapsto> k), leaked := leaked m + (if b \<in> dom (heap m) then 1 else 0)\<rparr>"

definition new_blks :: "(block \<times> nat) list \<Rightarrow> mem \<Rightarrow> mem" where
  "new_blks bs m = fold (\<lambda>(b, k). new_blk b k) bs m"

definition del_blk :: "block \<Rightarrow> mem \<Rightarrow> mem_fault + mem" where
  "del_blk b m = (if b \<in> dom (heap m) then Inr (m\<lparr>heap := (heap m)(b := None)\<rparr>) else Inl (BadDelete b))"

text \<open>A read of entry \<open>k\<close> of block \<open>b\<close>.\<close>

definition chk :: "block \<times> nat \<Rightarrow> mem \<Rightarrow> mem_fault + mem" where
  "chk bk m = (case bk of (b, k) \<Rightarrow>
                 (case heap m b of None \<Rightarrow> Inl (BadRead b) | Some len \<Rightarrow> if k < len then Inr m else Inl (OutOfBounds b k)))"

text \<open>The heap when the program starts.\<close>

definition mem0 :: mem where
  "mem0 = \<lparr>heap = Map.empty, leaked = 0\<rparr>"

section \<open>The snapshot's arrays\<close>

text \<open>\<open>allocate_memory()\<close>, called by the constructor: \<open>[n_c]\<close>, then \<open>[n_dims[0]]\<close>,
  \<open>[n_dims[1]]\<close> and \<open>[n_dims[2]]\<close> arrays of pointers, in loop order.\<close>

definition chunk_blocks :: "snapshot \<Rightarrow> (block \<times> nat) list" where
  "chunk_blocks sn =
     (let d0 = nat (sn_dims sn ! 0); d1 = nat (sn_dims sn ! 1); d2 = nat (sn_dims sn ! 2); nc = length (sn_comps sn)
      in (ChunkTop, nc) #
         concat (map (\<lambda>ci. (ChunkComp ci, d0) #
           concat (map (\<lambda>n0. (ChunkN0 ci n0, d1) # map (\<lambda>n1. (ChunkN1 ci n0 n1, d2)) [0..<d1]) [0..<d0]))
           [0..<nc]))"

record snap_obj =
  so_data :: pstate  \<comment> \<open>\<open>_data_mag\<close>, \<open>_data_arg\<close>, set together\<close>
  so_mem :: mem

definition snap_construct_mem :: "snapshot \<Rightarrow> mem \<Rightarrow> snap_obj" where
  "snap_construct_mem sn m = \<lparr>so_data = Null, so_mem = new_blks (chunk_blocks sn) m\<rparr>"

text \<open>\<open>pass_data\<close>: the master allocates \<open>_data_mag\<close>, \<open>_data_arg\<close> (\<open>[n_c]\<close>), then per
  component the two arrays of \<open>n_dims[0] n_dims[1] n_dims[2]\<close> values, reads every
  cell of the chunk array and writes its flat index in both.\<close>

definition snap_cell_reads :: "snapshot \<Rightarrow> nat \<Rightarrow> nat \<times> nat \<times> nat \<Rightarrow> (block \<times> nat) list" where
  "snap_cell_reads sn ci n =
     (case n of (n0, n1, n2) \<Rightarrow>
        [(ChunkTop, ci), (ChunkComp ci, n0), (ChunkN0 ci n0, n1), (ChunkN1 ci n0 n1, n2),
         (DataTop 0, ci), (DataComp 0 ci, nat (snap_flat_index (sn_dims sn) n)),
         (DataTop 1, ci), (DataComp 1 ci, nat (snap_flat_index (sn_dims sn) n))])"

definition snap_pass_mem :: "snapshot \<Rightarrow> snap_obj \<Rightarrow> mem_fault + snap_obj" where
  "snap_pass_mem sn so =
     (let d0 = nat (sn_dims sn ! 0); d1 = nat (sn_dims sn ! 1); d2 = nat (sn_dims sn ! 2); nc = length (sn_comps sn);
          m = new_blks [(DataTop 0, nc), (DataTop 1, nc)] (so_mem so)
      in map_sum id (\<lambda>m'. so\<lparr>so_data := Live, so_mem := m'\<rparr>)
           (efold (\<lambda>ci m. efold chk (concat (map (snap_cell_reads sn ci) (box3 (d0) (d1) (d2))))
                            (new_blks [(DataComp 0 ci, d0 * d1 * d2), (DataComp 1 ci, d0 * d1 * d2)] m))
                  [0..<nc] m))"

text \<open>\<open>output_snapshot()\<close>: a file is opened, the \<open>2 n_c\<close> data arrays are written from,
  the file is closed, and \<open>delete _data_mag; delete _data_arg\<close> frees the two arrays of
  pointers only.\<close>

definition snap_write_mem :: "snapshot \<Rightarrow> snap_obj \<Rightarrow> mem_fault + snap_obj" where
  "snap_write_mem sn so =
     (let d0 = nat (sn_dims sn ! 0); d1 = nat (sn_dims sn ! 1); d2 = nat (sn_dims sn ! 2); nc = length (sn_comps sn)
      in map_sum id (\<lambda>m'. so\<lparr>so_data := Null, so_mem := m'\<rparr>)
           (ebind (efold chk (concat (map (\<lambda>ci. [(DataTop 0, ci), (DataTop 1, ci)]
                                  @ (if 0 < d0 * d1 * d2
                                     then [(DataComp 0 ci, d0 * d1 * d2 - 1),
                                           (DataComp 1 ci, d0 * d1 * d2 - 1)] else [])) [0..<nc]))
                          (new_blk H5File 0 (so_mem so)))
              (efold del_blk [H5File, DataTop 0, DataTop 1])))"

definition snap_output_mem :: "snapshot \<Rightarrow> snap_obj \<Rightarrow> mem_fault + snap_obj" where
  "snap_output_mem sn so = ebind (snap_pass_mem sn so) (snap_write_mem sn)"

text \<open>The destructor: the chunk arrays innermost first, then \<open>_data_mag\<close>,
  \<open>_data_arg\<close> when not \<open>NULL\<close>.\<close>

definition chunk_free_order :: "snapshot \<Rightarrow> block list" where
  "chunk_free_order sn =
     (let d0 = nat (sn_dims sn ! 0); d1 = nat (sn_dims sn ! 1); d2 = nat (sn_dims sn ! 2); nc = length (sn_comps sn)
      in concat (map (\<lambda>ci. concat (map (\<lambda>n0. map (\<lambda>n1. ChunkN1 ci n0 n1) [0..<d1] @ [ChunkN0 ci n0]) [0..<d0])
                           @ [ChunkComp ci]) [0..<nc]) @ [ChunkTop])"

definition snap_destroy_mem :: "snapshot \<Rightarrow> snap_obj \<Rightarrow> mem_fault + mem" where
  "snap_destroy_mem sn so =
     ebind (efold del_blk (chunk_free_order sn) (so_mem so))
       (\<lambda>m. if so_data so = Live then efold del_blk [DataTop 0, DataTop 1] m else Inr m)"

section \<open>The nf2ff object\<close>

record nf_obj =
  no_near :: pstate   \<comment> \<open>\<open>_near_data\<close>\<close>
  no_snaps :: pstate  \<comment> \<open>\<open>_snaps\<close>\<close>
  no_far :: pstate    \<comment> \<open>the eight \<open>_far_data_*\<close> arrays, set together\<close>
  no_h5 :: pstate     \<comment> \<open>\<open>_h5file\<close>\<close>
  no_mem :: mem

text \<open>The constructor sets \<open>_near_data\<close>, \<open>_snaps\<close> and the far-field pointers to
  \<open>NULL\<close> but not \<open>_h5file\<close>; \<open>create_snaps\<close> allocates \<open>_snaps[3]\<close>, then for each
  recorded direction \<open>_snaps[dir][2]\<close> and one snapshot per face (the snapshot's own
  arrays are those of \<open>chunk_blocks\<close>, owned by it).\<close>

definition snaps_blocks :: "nf2ff \<Rightarrow> (block \<times> nat) list" where
  "snaps_blocks nf =
     (SnapTop, 3) # concat (map (\<lambda>i. if nf_sel (nf_dir nf) i
                                     then (SnapDir i, 2) # map (\<lambda>pos. (SnapObj i pos, 1)) [0..<nf_npos (nf_dir nf)]
                                     else []) [0, 1, 2])"

definition nf_construct_mem :: "nf2ff \<Rightarrow> mem \<Rightarrow> nf_obj" where
  "nf_construct_mem nf m =
     \<lparr>no_near = Null, no_snaps = Live, no_far = Null, no_h5 = Uninit, no_mem = new_blks (snaps_blocks nf) m\<rparr>"

text \<open>\<open>allocate()\<close>: \<open>_near_data[3]\<close>, then per recorded direction \<open>[2]\<close>, per face
  \<open>[4]\<close>, per component the \<open>size[dir == 0 ? 1 : 0]\<close> rows of
  \<open>size[dir == 2 ? 1 : 2]\<close> values.\<close>

definition near_blocks :: "nf2ff \<Rightarrow> (block \<times> nat) list" where
  "near_blocks nf =
     (let n = nf_n nf; d = nf_dir nf
      in (NearTop, 3) #
         concat (map (\<lambda>i. if nf_sel d i then
           (NearDir i, 2) # concat (map (\<lambda>pos. (NearPos i pos, 4) # concat (map (\<lambda>cp.
              (NearComp i pos cp, nat (fst (near_shape n i))) #
              map (\<lambda>x. (NearRow i pos cp x, nat (snd (near_shape n i)))) [0..<nat (fst (near_shape n i))])
              [0..<4])) [0..<nf_npos d])
           else []) [0, 1, 2]))"

definition nf_allocate_mem :: "nf2ff \<Rightarrow> nf_obj \<Rightarrow> nf_obj" where
  "nf_allocate_mem nf ob = ob\<lparr>no_near := Live, no_mem := new_blks (near_blocks nf) (no_mem ob)\<rparr>"

text \<open>The pointers followed by \<open>_near_data[i][pos][cp][x][y]\<close>.\<close>

definition near_reads :: "nat \<Rightarrow> nat \<Rightarrow> nat \<Rightarrow> nat \<Rightarrow> nat \<Rightarrow> (block \<times> nat) list" where
  "near_reads i pos cp x y =
     [(NearTop, i), (NearDir i, pos), (NearPos i pos, cp), (NearComp i pos cp, x), (NearRow i pos cp x, y)]"

text \<open>\<open>pass_data\<close>: per face the snapshot \<open>_snaps[dir][pos]\<close> is read, and for each cell
  \<open>[comp][n_0][n_1]\<close> of its shape the value is stored in
  \<open>_near_data[dir][pos][comp][n_0][n_1]\<close>.\<close>

definition pass_reads :: "nf2ff \<Rightarrow> (block \<times> nat) list" where
  "pass_reads nf =
     concat (map (\<lambda>(i, pos). [(SnapTop, i), (SnapDir i, pos), (SnapObj i pos, 0)] @
                   (case nf_snaps nf (i, pos) of
                      None \<Rightarrow> []
                    | Some sn \<Rightarrow> concat (map (\<lambda>(cp, n0, n1). near_reads i pos cp n0 n1) (snap_cells sn))))
                 (nf_faces (nf_dir nf)))"

definition nf_pass_mem :: "nf2ff \<Rightarrow> nf_obj \<Rightarrow> mem_fault + nf_obj" where
  "nf_pass_mem nf ob = map_sum id (\<lambda>m. ob\<lparr>no_mem := m\<rparr>) (efold chk (pass_reads nf) (no_mem ob))"

text \<open>The deletion of the snapshots in \<open>process()\<close> (the \<open>_snaps[dir]\<close> of the recorded
  directions only) and in the destructor (\<open>delete _snaps[dir_index]\<close> for every
  \<open>dir_index\<close>).\<close>

definition snaps_free_process :: "nf2ff \<Rightarrow> block list" where
  "snaps_free_process nf =
     concat (map (\<lambda>i. if nf_sel (nf_dir nf) i then map (SnapObj i) [0..<nf_npos (nf_dir nf)] @ [SnapDir i] else [])
                 [0, 1, 2]) @ [SnapTop]"

definition snaps_free_destroy :: "nf2ff \<Rightarrow> block list" where
  "snaps_free_destroy nf =
     concat (map (\<lambda>i. (if nf_sel (nf_dir nf) i then map (SnapObj i) [0..<nf_npos (nf_dir nf)] else []) @ [SnapDir i])
                 [0, 1, 2]) @ [SnapTop]"

text \<open>The deletion of the near-field array below \<open>_near_data\<close>, with \<open>rows dir\<close> rows
  per component: \<open>calculate\<close> deletes \<open>size[dir == 0 ? 1 : 0]\<close>, the destructor
  \<open>size[dir == 0 ? 1 : 2]\<close>.\<close>

definition near_free_blocks :: "nf2ff \<Rightarrow> (nat \<Rightarrow> int) \<Rightarrow> block list" where
  "near_free_blocks nf rows =
     concat (map (\<lambda>i. if nf_sel (nf_dir nf) i then
        concat (map (\<lambda>pos. concat (map (\<lambda>cp. map (NearRow i pos cp) [0..<nat (rows i)] @ [NearComp i pos cp]) [0..<4])
                           @ [NearPos i pos]) [0..<nf_npos (nf_dir nf)]) @ [NearDir i]
        else []) [0, 1, 2])"

text \<open>\<open>output_snaps()\<close> (with \<open>out\<close>): per recorded direction two arrays of
  \<open>n_dims[0] n_dims[1]\<close> values, per face a file, the four components read from
  \<open>_near_data\<close> into the arrays and written, the file closed; then the arrays are
  deleted and \<open>_h5file = NULL\<close>.\<close>

definition osnap_reads :: "nf2ff \<Rightarrow> nat \<Rightarrow> nat \<Rightarrow> (block \<times> nat) list" where
  "osnap_reads nf i pos =
     (let nd0 = nat (fst (near_shape (nf_n nf) i)); nd1 = nat (snd (near_shape (nf_n nf) i))
      in concat (map (\<lambda>cp. concat (map (\<lambda>(n0, n1). near_reads i pos cp n0 n1 @ [(OSData 0, n0 * nd1 + n1)]
                                                    @ near_reads i pos cp n0 n1 @ [(OSData 1, n0 * nd1 + n1)])
                                   (List.product [0..<nd0] [0..<nd1]))) [0..<4]))"

definition nf_output_snaps_mem :: "nf2ff \<Rightarrow> nf_obj \<Rightarrow> mem_fault + nf_obj" where
  "nf_output_snaps_mem nf ob =
     map_sum id (\<lambda>m. ob\<lparr>no_h5 := (if nf_sel (nf_dir nf) 0 \<or> nf_sel (nf_dir nf) 1 \<or> nf_sel (nf_dir nf) 2 then Null else no_h5 ob), no_mem := m\<rparr>)
       (efold (\<lambda>i m. if nf_sel (nf_dir nf) i then
                 (let k = nat (fst (near_shape (nf_n nf) i)) * nat (snd (near_shape (nf_n nf) i))
                  in ebind (efold (\<lambda>pos m. ebind (efold chk (osnap_reads nf i pos) (new_blk H5File 0 m)) (del_blk H5File))
                                  [0..<nf_npos (nf_dir nf)] (new_blks [(OSData 0, k), (OSData 1, k)] m))
                       (efold del_blk [OSData 0, OSData 1]))
               else Inr m) [0, 1, 2] (no_mem ob))"

text \<open>\<open>calculate()\<close>: the eight far-field arrays of \<open>res_angle[0] res_angle[1]\<close> values;
  for every angle \<open>(k, l)\<close> and every face sample the components \<open>1, 0, 3, 2\<close> are
  read (\<open>Mx \<dots> Jz\<close>) and the eight values stored at \<open>k res_angle[1] + l\<close>; then the
  near-field array is deleted and \<open>_near_data = NULL\<close>.\<close>

definition far_blocks :: "nf2ff \<Rightarrow> (block \<times> nat) list" where
  "far_blocks nf = map (\<lambda>j. (FarArr j, nat (nf_res_angle nf ! 0 * nf_res_angle nf ! 1))) [0..<8]"

definition calc_reads :: "nf2ff \<Rightarrow> (block \<times> nat) list" where
  "calc_reads nf =
     (let ra1 = nat (nf_res_angle nf ! 1)
      in concat (map (\<lambda>(k, l).
           concat (map (\<lambda>(i, pos). concat (map (\<lambda>(x, y). concat (map (\<lambda>cp. near_reads i pos cp x y) [1, 0, 3, 2]))
                                                (face_samples (nf_n nf) i))) (nf_faces (nf_dir nf)))
           @ map (\<lambda>j. (FarArr j, k * ra1 + l)) [0, 2, 1, 3, 4, 6, 5, 7])
         (List.product [0..<nat (nf_res_angle nf ! 0)] [0..<ra1])))"

definition nf_calc_mem :: "nf2ff \<Rightarrow> nf_obj \<Rightarrow> mem_fault + nf_obj" where
  "nf_calc_mem nf ob =
     map_sum id (\<lambda>m. ob\<lparr>no_near := Null, no_far := Live, no_mem := m\<rparr>)
       (ebind (efold chk (calc_reads nf) (new_blks (far_blocks nf) (no_mem ob)))
          (\<lambda>m. ebind (efold del_blk (near_free_blocks nf (\<lambda>i. nf_n nf ! (if i = 0 then 1 else 0))) m)
                 (\<lambda>m. if no_near ob = Live then del_blk NearTop m else Inr m)))"

text \<open>\<open>output()\<close>: a file is opened, the eight arrays written from and deleted.\<close>

definition nf_output_mem :: "nf2ff \<Rightarrow> nf_obj \<Rightarrow> mem_fault + nf_obj" where
  "nf_output_mem nf ob =
     (let sz = nat (nf_res_angle nf ! 0 * nf_res_angle nf ! 1)
      in map_sum id (\<lambda>m. ob\<lparr>no_far := Null, no_h5 := Null, no_mem := m\<rparr>)
           (ebind (efold chk (if 0 < sz then map (\<lambda>j. (FarArr j, sz - 1)) [0..<8] else map (\<lambda>j. (FarArr j, 0)) [])
                             (new_blk H5File 0 (no_mem ob)))
              (efold del_blk (H5File # map FarArr [0..<8]))))"

text \<open>\<open>process()\<close>: \<open>allocate\<close>, \<open>pass_data\<close>, delete the snapshots, \<open>output_snaps\<close>
  when \<open>out\<close>, \<open>calculate\<close>, \<open>output\<close>.\<close>

definition nf_process_mem :: "nf2ff \<Rightarrow> nf_obj \<Rightarrow> mem_fault + nf_obj" where
  "nf_process_mem nf ob =
     ebind (nf_pass_mem nf (nf_allocate_mem nf ob)) (\<lambda>ob.
     ebind (map_sum id (\<lambda>m. ob\<lparr>no_snaps := Null, no_mem := m\<rparr>) (efold del_blk (snaps_free_process nf) (no_mem ob))) (\<lambda>ob.
     ebind (if nf_out nf then nf_output_snaps_mem nf ob else Inr ob) (\<lambda>ob.
     ebind (nf_calc_mem nf ob) (nf_output_mem nf))))"

text \<open>The destructor: \<open>if (_h5file) delete _h5file\<close> reads the pointer; the far-field
  arrays when not \<open>NULL\<close>; the near-field array with the destructor's row count; the
  snapshots.\<close>

definition nf_destroy_mem :: "nf2ff \<Rightarrow> nf_obj \<Rightarrow> mem_fault + mem" where
  "nf_destroy_mem nf ob =
     ebind (case no_h5 ob of Uninit \<Rightarrow> Inl UninitRead | Null \<Rightarrow> Inr (no_mem ob) | Live \<Rightarrow> del_blk H5File (no_mem ob)) (\<lambda>m.
     ebind (if no_far ob = Live then efold del_blk (map FarArr [0..<8]) m else Inr m) (\<lambda>m.
     ebind (if no_near ob = Live
            then efold del_blk (near_free_blocks nf (\<lambda>i. nf_n nf ! (if i = 0 then 1 else 2)) @ [NearTop]) m
            else Inr m) (\<lambda>m.
     if no_snaps ob = Live then efold del_blk (snaps_free_destroy nf) m else Inr m)))"

section \<open>Lemmas on the heap and the loops\<close>

lemma ebind_assoc: "ebind (ebind x f) g = ebind x (\<lambda>a. ebind (f a) g)"
  by (cases x) simp_all

lemma efold_append_fun: "efold f (xs @ ys) = (\<lambda>a. ebind (efold f xs a) (efold f ys))"
proof (induction xs)
  case Nil
  show ?case by (rule ext) simp
next
  case (Cons x xs)
  show ?case by (rule ext) (simp add: Cons.IH ebind_assoc)
qed

lemma efold_append: "efold f (xs @ ys) a = ebind (efold f xs a) (efold f ys)"
  by (simp add: efold_append_fun)

lemma ebind_Inr [simp]: "ebind x Inr = x"
  by (cases x) simp_all

lemma heap_new_blk [simp]: "heap (new_blk b k m) = (heap m)(b \<mapsto> k)"
  by (simp add: new_blk_def)

lemma heap_new_blks: "distinct (map fst bs) \<Longrightarrow> heap (new_blks bs m) = heap m ++ map_of bs"
proof (induction bs arbitrary: m)
  case (Cons bk bs)
  obtain b k where bk: "bk = (b, k)" by (cases bk)
  have "heap (new_blks (bk # bs) m) = (heap m)(b \<mapsto> k) ++ map_of bs"
    using Cons bk by (simp add: new_blks_def)
  also have "\<dots> = heap m ++ map_of (bk # bs)"
    using Cons.prems bk by (simp add: map_add_upd_left dom_map_of_conv_image_fst)
  finally show ?case .
qed (simp add: new_blks_def)

lemma leaked_new_blks:
  "distinct (map fst bs) \<Longrightarrow> fst ` set bs \<inter> dom (heap m) = {} \<Longrightarrow> leaked (new_blks bs m) = leaked m"
proof (induction bs arbitrary: m)
  case (Cons bk bs)
  obtain b k where bk: "bk = (b, k)" by (cases bk)
  have "leaked (new_blks bs (new_blk b k m)) = leaked (new_blk b k m)"
    by (rule Cons.IH) (use Cons.prems bk in \<open>fastforce simp: image_iff\<close>)+
  then show ?case using Cons.prems bk by (simp add: new_blks_def new_blk_def)
qed (simp add: new_blks_def)

lemma new_blks_append: "new_blks (xs @ ys) m = new_blks ys (new_blks xs m)"
  by (simp add: new_blks_def)

lemma efold_del_blks:
  "distinct bs \<Longrightarrow> set bs \<subseteq> dom (heap m) \<Longrightarrow>
   efold del_blk bs m = Inr (m\<lparr>heap := heap m |` (- set bs)\<rparr>)"
proof (induction bs arbitrary: m)
  case (Cons b bs)
  have "efold del_blk bs (m\<lparr>heap := (heap m)(b := None)\<rparr>)
        = Inr (m\<lparr>heap := (heap m)(b := None) |` (- set bs)\<rparr>)"
  proof -
    have "distinct bs" "set bs \<subseteq> dom (heap (m\<lparr>heap := (heap m)(b := None)\<rparr>))" using Cons.prems by auto
    from Cons.IH[OF this] show ?thesis by (simp del: fun_upd_apply add: restrict_map_def)
  qed
  moreover have "(heap m)(b := None) |` (- set bs) = heap m |` (- set (b # bs))"
    by (auto simp: restrict_map_def fun_eq_iff)
  moreover have "del_blk b m = Inr (m\<lparr>heap := (heap m)(b := None)\<rparr>)"
    using Cons.prems by (simp add: del_blk_def)
  ultimately show ?case by (simp del: fun_upd_apply)
qed (simp add: restrict_map_def)

lemma efold_chk_ok:
  "\<forall>(b, k)\<in>set xs. \<exists>l. heap m b = Some l \<and> k < l \<Longrightarrow> efold chk xs m = Inr m"
  by (induction xs) (auto simp: chk_def)

text \<open>A loop that allocates blocks and reads, each round succeeding in every heap that
  keeps a given part: it allocates the blocks of every round.\<close>

lemma efold_new_chk:
  assumes "\<forall>x\<in>set xs. \<forall>m. Q m \<longrightarrow> efold chk (rd x) (new_blks (bl x) m) = Inr (new_blks (bl x) m) \<and> Q (new_blks (bl x) m)"
  shows "Q m \<Longrightarrow> efold (\<lambda>x m. efold chk (rd x) (new_blks (bl x) m)) xs m = Inr (new_blks (concat (map bl xs)) m)"
  using assms by (induction xs arbitrary: m) (simp_all add: new_blks_append, simp add: new_blks_def)

lemma restrict_add_disj: "dom A \<inter> dom B = {} \<Longrightarrow> (A ++ B) |` (- dom A) = B"
  by (auto simp: restrict_map_def map_add_def fun_eq_iff split: option.splits)

lemma efold_Nil_fun [simp]: "efold f [] = Inr"
  by (rule ext) simp

lemma efold_single: "efold f [x] a = f x a"
  by simp

lemma new_del_restore:
  assumes "distinct (map fst bs)" "fst ` set bs \<inter> dom (heap m) = {}" "distinct ds" "set ds = fst ` set bs"
  shows "efold del_blk ds (new_blks bs m) = Inr m"
proof -
  have h: "heap (new_blks bs m) = heap m ++ map_of bs" using assms(1) by (rule heap_new_blks)
  have l: "leaked (new_blks bs m) = leaked m" using assms(1,2) by (rule leaked_new_blks)
  have "efold del_blk ds (new_blks bs m) = Inr ((new_blks bs m)\<lparr>heap := heap (new_blks bs m) |` (- set ds)\<rparr>)"
    by (rule efold_del_blks) (use assms(3,4) h in \<open>auto simp: dom_map_of_conv_image_fst\<close>)
  moreover have "(heap m ++ map_of bs) |` (- set ds) = heap m"
  proof -
    have "(map_of bs ++ heap m) |` (- dom (map_of bs)) = heap m"
      by (rule restrict_add_disj) (use assms(2) in \<open>auto simp: dom_map_of_conv_image_fst\<close>)
    moreover have "heap m ++ map_of bs = map_of bs ++ heap m"
      by (rule map_add_comm) (use assms(2) in \<open>auto simp: dom_map_of_conv_image_fst\<close>)
    ultimately show ?thesis using assms(4) by (simp add: dom_map_of_conv_image_fst)
  qed
  ultimately show ?thesis using h l by simp
qed

lemma efold_const: "\<forall>x\<in>set xs. f x a = Inr a \<Longrightarrow> efold f xs a = Inr a"
  by (induction xs) simp_all

lemma idx_bound: "n0 < (a :: nat) \<Longrightarrow> n1 < b \<Longrightarrow> n0 * b + n1 < a * b"
proof -
  assume a: "n0 < a" and b: "n1 < b"
  have "n0 * b + n1 < Suc n0 * b" using b by simp
  moreover have "Suc n0 * b \<le> a * b" using a by (intro mult_le_mono1) simp
  ultimately show ?thesis by linarith
qed

lemma far_index_bound:
  "k < nat r0 \<Longrightarrow> l < nat r1 \<Longrightarrow> k * nat r1 + l < nat (r0 * r1)"
proof -
  assume k: "k < nat r0" and l: "l < nat r1"
  have "k * nat r1 + l < Suc k * nat r1" using l by simp
  also have "\<dots> \<le> nat r0 * nat r1" using k by (intro mult_le_mono1) simp
  also have "\<dots> = nat (r0 * r1)" using k l by (simp add: nat_mult_distrib)
  finally show ?thesis .
qed

lemma new_del_one: "b \<notin> dom (heap m) \<Longrightarrow> del_blk b (new_blk b k m) = Inr m"
  using new_del_restore[of "[(b, k)]" m "[b]"] by (simp add: new_blks_def)

lemma efold_single_fun: "efold f [x] = f x"
  by (rule ext) simp

lemma efold_del_snoc: "ebind (efold del_blk xs m) (del_blk b) = efold del_blk (xs @ [b]) m"
  by (simp add: efold_append efold_single_fun)

section \<open>Lemmas on the snapshot's arrays\<close>

lemma chunk_keys:
  "map fst (chunk_blocks sn) =
     ChunkTop # concat (map (\<lambda>ci. ChunkComp ci # concat (map (\<lambda>n0. ChunkN0 ci n0 # map (ChunkN1 ci n0)
        [0..<nat (sn_dims sn ! 1)]) [0..<nat (sn_dims sn ! 0)])) [0..<length (sn_comps sn)])"
  by (simp add: chunk_blocks_def Let_def map_concat comp_def)

lemma distinct_chunk_keys: "distinct (map fst (chunk_blocks sn))"
  unfolding chunk_keys
  by (auto intro!: distinct_concat_map_disj simp: distinct_map inj_on_def)

lemma distinct_chunk_free: "distinct (chunk_free_order sn)"
  unfolding chunk_free_order_def Let_def
  by (auto intro!: distinct_concat_map_disj simp: distinct_map inj_on_def)

lemma set_chunk_free: "set (chunk_free_order sn) = fst ` set (chunk_blocks sn)"
  unfolding chunk_free_order_def image_set chunk_keys by auto

lemma chunk_mem: "(k, v) \<in> set (chunk_blocks sn) \<Longrightarrow> map_of (chunk_blocks sn) k = Some v"
  by (rule map_of_is_SomeI[OF distinct_chunk_keys])

lemma chunk_lookup:
  assumes "sn_dims sn = [int a, int b, int c]" "ci < length (sn_comps sn)"
  shows "map_of (chunk_blocks sn) ChunkTop = Some (length (sn_comps sn))"
    and "map_of (chunk_blocks sn) (ChunkComp ci) = Some a"
    and "n0 < a \<Longrightarrow> map_of (chunk_blocks sn) (ChunkN0 ci n0) = Some b"
    and "n0 < a \<Longrightarrow> n1 < b \<Longrightarrow> map_of (chunk_blocks sn) (ChunkN1 ci n0 n1) = Some c"
  by (rule chunk_mem; use assms in \<open>force simp: chunk_blocks_def Let_def\<close>)+

lemma leaked_new_blk: "b \<notin> dom (heap m) \<Longrightarrow> leaked (new_blk b k m) = leaked m"
  by (simp add: new_blk_def)

lemma restrict_dom_empty: "h |` (- dom h) = Map.empty"
  by (auto simp: restrict_map_def fun_eq_iff)

text \<open>The snapshot's memory without \<open>output()\<close>: the destructor frees exactly the chunk
  array.\<close>

lemma snap_construct_heap:
  "heap (so_mem (snap_construct_mem sn mem0)) = map_of (chunk_blocks sn)
   \<and> leaked (so_mem (snap_construct_mem sn mem0)) = 0 \<and> so_data (snap_construct_mem sn mem0) = Null"
  by (simp add: snap_construct_mem_def mem0_def heap_new_blks distinct_chunk_keys leaked_new_blks)

lemma snap_destroy_fresh:
  "snap_destroy_mem sn (snap_construct_mem sn mem0) = Inr (mem0)"
proof -
  have "efold del_blk (chunk_free_order sn) (so_mem (snap_construct_mem sn mem0))
        = Inr ((so_mem (snap_construct_mem sn mem0))\<lparr>heap := map_of (chunk_blocks sn) |` (- dom (map_of (chunk_blocks sn)))\<rparr>)"
    using efold_del_blks[OF distinct_chunk_free, where m = "so_mem (snap_construct_mem sn mem0)"] snap_construct_heap[of sn]
    by (simp add: set_chunk_free dom_map_of_conv_image_fst)
  then show ?thesis using snap_construct_heap[of sn]
    by (simp add: snap_destroy_mem_def restrict_dom_empty mem0_def)
qed

lemma chunk_key_cases:
  "x \<in> fst ` set (chunk_blocks sn) \<Longrightarrow> x = ChunkTop \<or> (\<exists>ci. x = ChunkComp ci) \<or> (\<exists>ci n0. x = ChunkN0 ci n0)
   \<or> (\<exists>ci n0 n1. x = ChunkN1 ci n0 n1)"
  unfolding image_set chunk_keys by auto

lemma chunk_no_data: "map_of (chunk_blocks sn) (DataTop k) = None" "map_of (chunk_blocks sn) (DataComp k j) = None"
    "map_of (chunk_blocks sn) H5File = None"
  by (simp_all add: map_of_eq_None_iff image_set chunk_keys image_iff)

text \<open>\<open>pass_data\<close> after the constructor: it allocates the two arrays of pointers and
  the \<open>2 n_c\<close> data arrays, and every read is in bounds.\<close>

lemma snap_pass_fresh:
  assumes d: "sn_dims sn = [int a, int b, int c]"
  shows "snap_pass_mem sn (snap_construct_mem sn mem0)
         = Inr \<lparr>so_data = Live, so_mem =
              new_blks (concat (map (\<lambda>ci. [(DataComp 0 ci, a * b * c), (DataComp 1 ci, a * b * c)]) [0..<length (sn_comps sn)]))
                (new_blks [(DataTop 0, length (sn_comps sn)), (DataTop 1, length (sn_comps sn))]
                   (so_mem (snap_construct_mem sn mem0)))\<rparr>"
proof -
  let ?nc = "length (sn_comps sn)"
  let ?m2 = "new_blks [(DataTop 0, ?nc), (DataTop 1, ?nc)] (so_mem (snap_construct_mem sn mem0))"
  let ?bl = "\<lambda>ci. [(DataComp 0 ci, a * b * c), (DataComp 1 ci, a * b * c)]"
  let ?rd = "\<lambda>ci. concat (map (snap_cell_reads sn ci) (box3 a b c))"
  let ?Q = "\<lambda>m :: mem. \<forall>x l. heap ?m2 x = Some l \<longrightarrow> heap m x = Some l"
  have h2: "heap ?m2 = map_of (chunk_blocks sn) ++ map_of [(DataTop 0, ?nc), (DataTop 1, ?nc)]"
    using snap_construct_heap[of sn] by (simp add: heap_new_blks)
  have nodc: "heap ?m2 (DataComp k j) = None" for k j unfolding h2 by (simp add: chunk_no_data)
  have step: "\<forall>ci\<in>set [0..<?nc]. \<forall>m. ?Q m \<longrightarrow>
                efold chk (?rd ci) (new_blks (?bl ci) m) = Inr (new_blks (?bl ci) m) \<and> ?Q (new_blks (?bl ci) m)"
  proof (intro ballI allI impI)
    fix ci m assume ci: "ci \<in> set [0..<?nc]" and q: "?Q m"
    let ?H = "heap (new_blks (?bl ci) m)"
    have hb: "?H = heap m ++ map_of (?bl ci)" by (simp add: heap_new_blks)
    have keep: "?H x = Some l" if "heap ?m2 x = Some l" for x l
    proof -
      have "\<forall>k. x \<noteq> DataComp k ci" using that nodc by auto
      then show ?thesis using q that unfolding hb by (simp add: map_add_def)
    qed
    have q': "?Q (new_blks (?bl ci) m)" using keep by blast
    have ci': "ci < ?nc" using ci by simp
    have m2: "heap ?m2 ChunkTop = Some ?nc" "heap ?m2 (ChunkComp ci) = Some a"
      "n0 < a \<Longrightarrow> heap ?m2 (ChunkN0 ci n0) = Some b" "n0 < a \<Longrightarrow> n1 < b \<Longrightarrow> heap ?m2 (ChunkN1 ci n0 n1) = Some c"
      "heap ?m2 (DataTop 0) = Some ?nc" "heap ?m2 (DataTop 1) = Some ?nc" for n0 n1
      unfolding h2 using chunk_lookup[OF d ci'] by (simp_all add: map_add_def chunk_no_data)
    have dc: "?H (DataComp 0 ci) = Some (a * b * c)" "?H (DataComp 1 ci) = Some (a * b * c)"
      unfolding hb by simp_all
    note cl = keep[OF m2(1)] keep[OF m2(2)] keep[OF m2(3)] keep[OF m2(4)] keep[OF m2(5)] keep[OF m2(6)] dc
    have "\<forall>(x, k)\<in>set (snap_cell_reads sn ci n). \<exists>l. ?H x = Some l \<and> k < l" if n: "n \<in> set (box3 a b c)" for n
    proof -
      obtain n0 n1 n2 where n3: "n = (n0, n1, n2)" by (rule prod_cases3)
      then have nn: "n = (n0, n1, n2)" "n0 < a" "n1 < b" "n2 < c" using n by simp_all
      have "nat (snap_flat_index (sn_dims sn) n) < a * b * c"
        using flat_index_box_range[OF n] d by (simp add: nat_less_iff)
      then show ?thesis using nn ci cl by (auto simp: snap_cell_reads_def)
    qed
    then have "efold chk (?rd ci) (new_blks (?bl ci) m) = Inr (new_blks (?bl ci) m)"
      by (intro efold_chk_ok) auto
    then show "efold chk (?rd ci) (new_blks (?bl ci) m) = Inr (new_blks (?bl ci) m) \<and> ?Q (new_blks (?bl ci) m)"
      using q' by blast
  qed
  have "efold (\<lambda>ci m. efold chk (?rd ci) (new_blks (?bl ci) m)) [0..<?nc] ?m2 = Inr (new_blks (concat (map ?bl [0..<?nc])) ?m2)"
    by (rule efold_new_chk[OF step]) simp
  then show ?thesis using d by (simp add: snap_pass_mem_def Let_def snap_construct_mem_def)
qed

lemma distinct_data_keys:
  "distinct (map fst (concat (map (\<lambda>ci. [(DataComp 0 ci, p), (DataComp 1 ci, p)]) [0..<nc])))"
  by (induction nc) (auto simp: map_concat)

section \<open>Lemmas on the nf2ff object\<close>

lemma upt_0_2: "[0..<2] = [0, 1 :: nat]"
  by (simp add: eval_nat_numeral)

lemma snaps_keys_distinct: "distinct (map fst (snaps_blocks nf))"
  by (cases "nf_dir nf") (simp_all add: snaps_blocks_def nf_sel_def nf_npos_def upt_0_2)

lemma near_keys_distinct: "distinct (map fst (near_blocks nf))"
  unfolding near_blocks_def Let_def
  by (auto simp: map_concat distinct_map inj_on_def intro!: distinct_concat_map_disj)

lemma near_mem: "(k, v) \<in> set (near_blocks nf) \<Longrightarrow> map_of (near_blocks nf) k = Some v"
  by (rule map_of_is_SomeI[OF near_keys_distinct])

lemma near_lookup:
  assumes f: "(i, pos) \<in> set (nf_faces (nf_dir nf))"
  shows "map_of (near_blocks nf) NearTop = Some 3"
    and "map_of (near_blocks nf) (NearDir i) = Some 2"
    and "map_of (near_blocks nf) (NearPos i pos) = Some 4"
    and "cp < 4 \<Longrightarrow> map_of (near_blocks nf) (NearComp i pos cp) = Some (nat (fst (near_shape (nf_n nf) i)))"
    and "cp < 4 \<Longrightarrow> x < nat (fst (near_shape (nf_n nf) i)) \<Longrightarrow>
         map_of (near_blocks nf) (NearRow i pos cp x) = Some (nat (snd (near_shape (nf_n nf) i)))"
proof -
  have i: "i \<in> set [0, 1, 2]" "nf_sel (nf_dir nf) i" "pos \<in> set [0..<nf_npos (nf_dir nf)]"
    using f by (auto simp: nf_faces_set)
  show "map_of (near_blocks nf) NearTop = Some 3"
    by (rule near_mem) (simp add: near_blocks_def Let_def)
  show "map_of (near_blocks nf) (NearDir i) = Some 2"
    by (rule near_mem) (unfold near_blocks_def Let_def, use i in \<open>simp only: set_concat set_map set_simps, fastforce\<close>)
  show "map_of (near_blocks nf) (NearPos i pos) = Some 4"
    by (rule near_mem) (unfold near_blocks_def Let_def, use i in \<open>simp only: set_concat set_map set_simps, fastforce\<close>)
  show "map_of (near_blocks nf) (NearComp i pos cp) = Some (nat (fst (near_shape (nf_n nf) i)))" if "cp < 4"
    by (rule near_mem) (unfold near_blocks_def Let_def, use i that in \<open>simp only: set_concat set_map set_simps, fastforce\<close>)
  show "map_of (near_blocks nf) (NearRow i pos cp x) = Some (nat (snd (near_shape (nf_n nf) i)))"
    if "cp < 4" "x < nat (fst (near_shape (nf_n nf) i))"
    by (rule near_mem) (unfold near_blocks_def Let_def, use i that in \<open>simp only: set_concat set_map set_simps, fastforce\<close>)
qed

section \<open>Lemmas on the nf2ff lifecycle\<close>

lemma snaps_mem: "(k, v) \<in> set (snaps_blocks nf) \<Longrightarrow> map_of (snaps_blocks nf) k = Some v"
  by (rule map_of_is_SomeI[OF snaps_keys_distinct])

lemma snaps_lookup:
  assumes f: "(i, pos) \<in> set (nf_faces (nf_dir nf))"
  shows "map_of (snaps_blocks nf) SnapTop = Some 3"
    and "map_of (snaps_blocks nf) (SnapDir i) = Some 2"
    and "map_of (snaps_blocks nf) (SnapObj i pos) = Some 1"
proof -
  have i: "i \<in> set [0, 1, 2]" "nf_sel (nf_dir nf) i" "pos \<in> set [0..<nf_npos (nf_dir nf)]"
    using f by (auto simp: nf_faces_set)
  show "map_of (snaps_blocks nf) SnapTop = Some 3"
    by (rule snaps_mem) (simp add: snaps_blocks_def)
  show "map_of (snaps_blocks nf) (SnapDir i) = Some 2"
    by (rule snaps_mem) (unfold snaps_blocks_def, use i in \<open>simp only: set_concat set_map set_simps, fastforce\<close>)
  show "map_of (snaps_blocks nf) (SnapObj i pos) = Some 1"
    by (rule snaps_mem) (unfold snaps_blocks_def, use i in \<open>simp only: set_concat set_map set_simps, fastforce\<close>)
qed

lemma near_reads_ok:
  assumes a: "near_alloc nf (i, pos, cp, x, y)" and le: "map_of (near_blocks nf) \<subseteq>\<^sub>m heap m"
  shows "\<forall>(b, k)\<in>set (near_reads i pos cp x y). \<exists>l. heap m b = Some l \<and> k < l"
proof -
  have f: "(i, pos) \<in> set (nf_faces (nf_dir nf))" and b: "i < 3" "pos < nf_npos (nf_dir nf)" "cp < 4"
    "x < nat (fst (near_shape (nf_n nf) i))" "y < nat (snd (near_shape (nf_n nf) i))"
    using a by (auto simp: near_alloc_def nf_faces_set)
  have np: "nf_npos (nf_dir nf) \<le> 2" by (simp add: nf_npos_def)
  have h: "heap m b = Some l" if "map_of (near_blocks nf) b = Some l" for b l
    using le that by (auto simp: map_le_def dom_def)
  show ?thesis using b np near_lookup[OF f] by (auto simp: near_reads_def intro!: h)
qed

lemma near_keys:
  "map fst (near_blocks nf) =
     NearTop # concat (map (\<lambda>i. if nf_sel (nf_dir nf) i then
       NearDir i # concat (map (\<lambda>pos. NearPos i pos # concat (map (\<lambda>cp.
          NearComp i pos cp # map (NearRow i pos cp) [0..<nat (fst (near_shape (nf_n nf) i))]) [0..<4]))
          [0..<nf_npos (nf_dir nf)])
       else []) [0, 1, 2])"
  by (simp add: near_blocks_def Let_def map_concat comp_def)

lemma snaps_keys:
  "map fst (snaps_blocks nf) =
     SnapTop # concat (map (\<lambda>i. if nf_sel (nf_dir nf) i then SnapDir i # map (SnapObj i) [0..<nf_npos (nf_dir nf)] else [])
                          [0, 1, 2])"
  by (simp add: snaps_blocks_def map_concat comp_def)

lemma near_none:
  "map_of (near_blocks nf) SnapTop = None" "map_of (near_blocks nf) (SnapDir i) = None"
  "map_of (near_blocks nf) (SnapObj i p) = None" "map_of (near_blocks nf) (FarArr j) = None"
  "map_of (near_blocks nf) H5File = None" "map_of (near_blocks nf) (OSData k) = None"
  by (auto simp: map_of_eq_None_iff image_set near_keys)

lemma snaps_none:
  "map_of (snaps_blocks nf) NearTop = None" "map_of (snaps_blocks nf) (NearDir i) = None"
  "map_of (snaps_blocks nf) (NearPos i p) = None" "map_of (snaps_blocks nf) (NearComp i p c) = None"
  "map_of (snaps_blocks nf) (NearRow i p c x) = None"
  "map_of (snaps_blocks nf) (FarArr j) = None"
  "map_of (snaps_blocks nf) H5File = None" "map_of (snaps_blocks nf) (OSData k) = None"
  by (auto simp: map_of_eq_None_iff image_set snaps_keys)

lemma snaps_free_process_set:
  "distinct (snaps_free_process nf) \<and> set (snaps_free_process nf) = fst ` set (snaps_blocks nf)"
  by (cases "nf_dir nf") (simp_all add: snaps_free_process_def image_set snaps_keys nf_sel_def nf_npos_def upt_0_2 insert_commute)

lemma near_free_calc_set:
  "distinct (near_free_blocks nf (\<lambda>i. nf_n nf ! (if i = 0 then 1 else 0)) @ [NearTop])
   \<and> set (near_free_blocks nf (\<lambda>i. nf_n nf ! (if i = 0 then 1 else 0)) @ [NearTop]) = fst ` set (near_blocks nf)"
proof
  show "distinct (near_free_blocks nf (\<lambda>i. nf_n nf ! (if i = 0 then 1 else 0)) @ [NearTop])"
    unfolding near_free_blocks_def
    by (auto intro!: distinct_concat_map_disj simp: distinct_map inj_on_def)
  show "set (near_free_blocks nf (\<lambda>i. nf_n nf ! (if i = 0 then 1 else 0)) @ [NearTop]) = fst ` set (near_blocks nf)"
    unfolding image_set near_keys near_free_blocks_def near_shape_def by auto
qed

lemma snaps_near_disj: "dom (map_of (snaps_blocks nf)) \<inter> dom (map_of (near_blocks nf)) = {}"
  unfolding dom_map_of_conv_image_fst image_set near_keys snaps_keys by auto

lemma nf_allocate_fresh:
  "heap (no_mem (nf_allocate_mem nf (nf_construct_mem nf mem0))) = map_of (snaps_blocks nf) ++ map_of (near_blocks nf)
   \<and> leaked (no_mem (nf_allocate_mem nf (nf_construct_mem nf mem0))) = 0"
proof -
  let ?m1 = "new_blks (snaps_blocks nf) mem0"
  have h1: "heap ?m1 = map_of (snaps_blocks nf)" by (simp add: heap_new_blks snaps_keys_distinct mem0_def)
  have l1: "leaked ?m1 = 0" by (simp add: leaked_new_blks snaps_keys_distinct mem0_def)
  have "leaked (new_blks (near_blocks nf) ?m1) = leaked ?m1"
    by (rule leaked_new_blks[OF near_keys_distinct]) (use snaps_near_disj[of nf] h1 in \<open>auto simp: dom_map_of_conv_image_fst\<close>)
  then show ?thesis using h1 l1
    by (simp add: nf_allocate_mem_def nf_construct_mem_def heap_new_blks near_keys_distinct)
qed

text \<open>The faces' snapshots have the faces' allocated near-field cells as cells.\<close>

lemma nf_pass_ok:
  assumes g: "\<forall>f\<in>set (nf_faces (nf_dir nf)). \<exists>s0. nf_snaps nf f = Some (snapshot_create s0)
                 \<and> (\<forall>cp x y. (cp, x, y) \<in> set (snap_cells s0) \<longleftrightarrow> near_alloc nf (fst f, snd f, cp, x, y))"
    and h: "heap (no_mem ob) = map_of (snaps_blocks nf) ++ map_of (near_blocks nf)"
  shows "nf_pass_mem nf ob = Inr ob"
proof -
  have le: "map_of (near_blocks nf) \<subseteq>\<^sub>m heap (no_mem ob)" unfolding h by (rule map_le_map_add)
  have sn: "heap (no_mem ob) b = Some l" if "map_of (snaps_blocks nf) b = Some l" "map_of (near_blocks nf) b = None" for b l
    using that unfolding h by (simp add: map_add_def)
  have "\<exists>l. heap (no_mem ob) b = Some l \<and> k < l" if bk: "(b, k) \<in> set (pass_reads nf)" for b k
  proof -
    obtain fc where fc: "fc \<in> set (nf_faces (nf_dir nf))"
      and bk0: "(b, k) \<in> set ((\<lambda>(i, pos). [(SnapTop, i), (SnapDir i, pos), (SnapObj i pos, 0)] @
                   (case nf_snaps nf (i, pos) of None \<Rightarrow> []
                    | Some sn \<Rightarrow> concat (map (\<lambda>(cp, n0, n1). near_reads i pos cp n0 n1) (snap_cells sn)))) fc)"
      using bk unfolding pass_reads_def set_concat set_map by blast
    obtain i pos where ip0: "fc = (i, pos)" by (cases fc)
    have f: "(i, pos) \<in> set (nf_faces (nf_dir nf))" using fc ip0 by simp
    have bk': "(b, k) \<in> set ([(SnapTop, i), (SnapDir i, pos), (SnapObj i pos, 0)] @
                   (case nf_snaps nf (i, pos) of None \<Rightarrow> []
                    | Some sn \<Rightarrow> concat (map (\<lambda>(cp, n0, n1). near_reads i pos cp n0 n1) (snap_cells sn))))"
      using bk0 unfolding ip0 prod.case .
    obtain s0 where s0: "nf_snaps nf (i, pos) = Some (snapshot_create s0)"
      and c: "\<forall>cp x y. (cp, x, y) \<in> set (snap_cells s0) \<longleftrightarrow> near_alloc nf (i, pos, cp, x, y)"
      using g f by fastforce
    have ip: "i < 3" "pos < nf_npos (nf_dir nf)" "nf_npos (nf_dir nf) \<le> 2" using f by (auto simp: nf_faces_set nf_npos_def)
    consider "(b, k) \<in> {(SnapTop, i), (SnapDir i, pos), (SnapObj i pos, 0)}"
      | cp x y where "near_alloc nf (i, pos, cp, x, y)" "(b, k) \<in> set (near_reads i pos cp x y)"
      using bk' s0 c by auto
    then show ?thesis
    proof cases
      case 1
      then show ?thesis using snaps_lookup[OF f] near_none ip by (auto intro!: sn)
    next
      case 2
      then show ?thesis using near_reads_ok[OF 2(1) le] by auto
    qed
  qed
  then have "efold chk (pass_reads nf) (no_mem ob) = Inr (no_mem ob)" by (intro efold_chk_ok) auto
  then show ?thesis by (simp add: nf_pass_mem_def)
qed

lemma nf_free_snaps:
  assumes h: "heap m = map_of (snaps_blocks nf) ++ map_of (near_blocks nf)"
  shows "efold del_blk (snaps_free_process nf) m = Inr (m\<lparr>heap := map_of (near_blocks nf)\<rparr>)"
proof -
  have "efold del_blk (snaps_free_process nf) m = Inr (m\<lparr>heap := heap m |` (- set (snaps_free_process nf))\<rparr>)"
    by (rule efold_del_blks) (use snaps_free_process_set[of nf] h in \<open>auto simp: dom_map_of_conv_image_fst\<close>)
  moreover have "heap m |` (- set (snaps_free_process nf)) = map_of (near_blocks nf)"
    unfolding h using snaps_free_process_set[of nf] restrict_add_disj[OF snaps_near_disj[of nf]]
    by (simp add: dom_map_of_conv_image_fst)
  ultimately show ?thesis by simp
qed

lemma nf_output_snaps_keep:
  assumes h: "heap (no_mem ob) = map_of (near_blocks nf)"
  shows "\<exists>h5. nf_output_snaps_mem nf ob = Inr (ob\<lparr>no_h5 := h5\<rparr>)"
proof -
  let ?m = "no_mem ob"
  have step: "(if nf_sel (nf_dir nf) i then
                 (let k = nat (fst (near_shape (nf_n nf) i)) * nat (snd (near_shape (nf_n nf) i))
                  in ebind (efold (\<lambda>pos m. ebind (efold chk (osnap_reads nf i pos) (new_blk H5File 0 m)) (del_blk H5File))
                                  [0..<nf_npos (nf_dir nf)] (new_blks [(OSData 0, k), (OSData 1, k)] ?m))
                       (efold del_blk [OSData 0, OSData 1]))
               else Inr ?m) = Inr ?m" if i3: "i \<in> set [0, 1, 2]" for i
  proof (cases "nf_sel (nf_dir nf) i")
    case sel: True
    define nd0 where "nd0 = nat (fst (near_shape (nf_n nf) i))"
    define nd1 where "nd1 = nat (snd (near_shape (nf_n nf) i))"
    define m' where "m' = new_blks [(OSData 0, nd0 * nd1), (OSData 1, nd0 * nd1)] ?m"
    have osd: "OSData 0 \<notin> dom (heap ?m)" "OSData 1 \<notin> dom (heap ?m)" "H5File \<notin> dom (heap ?m)"
      unfolding h by (simp_all add: near_none domIff)
    have hm': "heap m' = heap ?m ++ map_of [(OSData 0, nd0 * nd1), (OSData 1, nd0 * nd1)]"
      unfolding m'_def by (simp add: heap_new_blks)
    have h5: "H5File \<notin> dom (heap m')" using osd(3) unfolding hm' by simp
    have le: "map_of (near_blocks nf) \<subseteq>\<^sub>m heap (new_blk H5File 0 m')"
      unfolding heap_new_blk hm' h by (auto simp: map_le_def near_none map_add_def)
    have os: "heap (new_blk H5File 0 m') (OSData j) = Some (nd0 * nd1)" if "j < 2" for j
      using that unfolding heap_new_blk hm' by (auto simp: less_2_cases_iff)
    have pos_step: "ebind (efold chk (osnap_reads nf i pos) (new_blk H5File 0 m')) (del_blk H5File) = Inr m'"
      if p: "pos \<in> set [0..<nf_npos (nf_dir nf)]" for pos
    proof -
      have al: "near_alloc nf (i, pos, cp, n0, n1)" if "cp < 4" "n0 < nd0" "n1 < nd1" for cp n0 n1
        using that i3 sel p by (auto simp: near_alloc_def nd0_def nd1_def)
      have "\<exists>l. heap (new_blk H5File 0 m') b = Some l \<and> kk < l" if bk: "(b, kk) \<in> set (osnap_reads nf i pos)" for b kk
      proof -
        obtain cp n0 n1 where c: "cp < 4" "n0 < nd0" "n1 < nd1"
          and bk': "(b, kk) \<in> set (near_reads i pos cp n0 n1) \<or> (b, kk) = (OSData 0, n0 * nd1 + n1) \<or> (b, kk) = (OSData 1, n0 * nd1 + n1)"
          using bk unfolding osnap_reads_def Let_def nd0_def[symmetric] nd1_def[symmetric] by auto
        show ?thesis using bk' near_reads_ok[OF al[OF c] le] os idx_bound[OF c(2,3)] by auto
      qed
      then have "efold chk (osnap_reads nf i pos) (new_blk H5File 0 m') = Inr (new_blk H5File 0 m')"
        by (intro efold_chk_ok) auto
      then show ?thesis using new_del_one[OF h5] by simp
    qed
    have "efold (\<lambda>pos m. ebind (efold chk (osnap_reads nf i pos) (new_blk H5File 0 m)) (del_blk H5File))
            [0..<nf_npos (nf_dir nf)] m' = Inr m'"
      by (rule efold_const) (use pos_step in blast)
    moreover have "efold del_blk [OSData 0, OSData 1] m' = Inr ?m"
      unfolding m'_def by (rule new_del_restore) (use osd in auto)
    ultimately show ?thesis using sel by (simp add: Let_def m'_def nd0_def nd1_def)
  qed simp
  have "efold (\<lambda>i m. if nf_sel (nf_dir nf) i then
                 (let k = nat (fst (near_shape (nf_n nf) i)) * nat (snd (near_shape (nf_n nf) i))
                  in ebind (efold (\<lambda>pos m. ebind (efold chk (osnap_reads nf i pos) (new_blk H5File 0 m)) (del_blk H5File))
                                  [0..<nf_npos (nf_dir nf)] (new_blks [(OSData 0, k), (OSData 1, k)] m))
                       (efold del_blk [OSData 0, OSData 1]))
               else Inr m) [0, 1, 2] ?m = Inr ?m"
    by (rule efold_const) (use step in blast)
  then have "nf_output_snaps_mem nf ob = Inr (ob\<lparr>no_h5 := (if nf_sel (nf_dir nf) 0 \<or> nf_sel (nf_dir nf) 1 \<or> nf_sel (nf_dir nf) 2
                                                then Null else no_h5 ob)\<rparr>)"
    unfolding nf_output_snaps_mem_def by simp
  then show ?thesis by blast
qed

lemma far_keys: "map fst (far_blocks nf) = map FarArr [0..<8]"
  by (simp add: far_blocks_def)

lemma far_keys_distinct: "distinct (map fst (far_blocks nf))"
  by (simp add: far_keys distinct_map inj_on_def)

lemma far_lookup: "j < 8 \<Longrightarrow> map_of (far_blocks nf) (FarArr j) = Some (nat (nf_res_angle nf ! 0 * nf_res_angle nf ! 1))"
  by (rule map_of_is_SomeI[OF far_keys_distinct]) (simp add: far_blocks_def)

lemma near_far_disj: "dom (map_of (near_blocks nf)) \<inter> dom (map_of (far_blocks nf)) = {}"
proof -
  have "dom (map_of (far_blocks nf)) = FarArr ` {0..<8}"
    by (simp add: dom_map_of_conv_image_fst image_set far_keys)
  then show ?thesis by (auto simp: near_none domIff)
qed

lemma nf_calc_ok:
  assumes h: "heap (no_mem ob) = map_of (near_blocks nf)" and nl: "no_near ob = Live"
  shows "nf_calc_mem nf ob = Inr (ob\<lparr>no_near := Null, no_far := Live, no_mem := (no_mem ob)\<lparr>heap := map_of (far_blocks nf)\<rparr>\<rparr>)"
proof -
  let ?m = "no_mem ob"
  let ?m1 = "new_blks (far_blocks nf) ?m"
  let ?ra0 = "nf_res_angle nf ! 0" and ?ra1 = "nf_res_angle nf ! 1"
  have h1: "heap ?m1 = map_of (near_blocks nf) ++ map_of (far_blocks nf)"
    unfolding heap_new_blks[OF far_keys_distinct] h ..
  have l1: "leaked ?m1 = leaked ?m"
    by (rule leaked_new_blks[OF far_keys_distinct]) (use near_far_disj[of nf] h in \<open>auto simp: dom_map_of_conv_image_fst\<close>)
  have "map_of (near_blocks nf) ++ map_of (far_blocks nf) = map_of (far_blocks nf) ++ map_of (near_blocks nf)"
    by (rule map_add_comm) (use near_far_disj[of nf] in blast)
  then have le: "map_of (near_blocks nf) \<subseteq>\<^sub>m heap ?m1" unfolding h1 by (simp add: map_le_map_add)
  have fa: "heap ?m1 (FarArr j) = Some (nat (?ra0 * ?ra1))" if "j < 8" for j
    unfolding h1 using far_lookup[OF that] by simp
  have "\<exists>l. heap ?m1 b = Some l \<and> kk < l" if bk: "(b, kk) \<in> set (calc_reads nf)" for b kk
  proof -
    obtain k l where kl: "k < nat ?ra0" "l < nat ?ra1"
      and bk': "(\<exists>i pos x y cp. (i, pos) \<in> set (nf_faces (nf_dir nf)) \<and> (x, y) \<in> set (face_samples (nf_n nf) i)
                    \<and> cp < 4 \<and> (b, kk) \<in> set (near_reads i pos cp x y))
                \<or> (\<exists>j<8. (b, kk) = (FarArr j, k * nat ?ra1 + l))"
      using bk unfolding calc_reads_def Let_def by fastforce
    show ?thesis
      using bk' near_reads_ok[OF face_samples_alloc le] fa far_index_bound[OF kl] by blast
  qed
  then have rd: "efold chk (calc_reads nf) ?m1 = Inr ?m1" by (intro efold_chk_ok) auto
  have "efold del_blk (near_free_blocks nf (\<lambda>i. nf_n nf ! (if i = 0 then 1 else 0)) @ [NearTop]) ?m1
        = Inr (?m1\<lparr>heap := heap ?m1 |` (- set (near_free_blocks nf (\<lambda>i. nf_n nf ! (if i = 0 then 1 else 0)) @ [NearTop]))\<rparr>)"
    by (rule efold_del_blks) (use near_free_calc_set[of nf] h1 in \<open>auto simp: dom_map_of_conv_image_fst\<close>)
  moreover have "heap ?m1 |` (- set (near_free_blocks nf (\<lambda>i. nf_n nf ! (if i = 0 then 1 else 0)) @ [NearTop]))
                 = map_of (far_blocks nf)"
    unfolding h1 using near_free_calc_set[of nf] restrict_add_disj[OF near_far_disj[of nf]]
    by (simp add: dom_map_of_conv_image_fst)
  ultimately have del: "ebind (efold del_blk (near_free_blocks nf (\<lambda>i. nf_n nf ! (if i = 0 then 1 else 0))) ?m1) (del_blk NearTop)
              = Inr (?m\<lparr>heap := map_of (far_blocks nf)\<rparr>)"
    unfolding efold_del_snoc using l1 by simp
  show ?thesis unfolding nf_calc_mem_def using rd del nl by simp
qed

lemma nf_output_ok:
  assumes h: "heap (no_mem ob) = map_of (far_blocks nf)"
  shows "nf_output_mem nf ob = Inr (ob\<lparr>no_far := Null, no_h5 := Null, no_mem := (no_mem ob)\<lparr>heap := Map.empty\<rparr>\<rparr>)"
proof -
  let ?m = "no_mem ob"
  let ?sz = "nat (nf_res_angle nf ! 0 * nf_res_angle nf ! 1)"
  let ?m1 = "new_blk H5File 0 ?m"
  have h5: "H5File \<notin> dom (heap ?m)" unfolding h dom_map_of_conv_image_fst image_set far_keys by auto
  have fa: "heap ?m1 (FarArr j) = Some ?sz" if "j < 8" for j
    using far_lookup[OF that] unfolding heap_new_blk h by simp
  have rd: "efold chk (if 0 < ?sz then map (\<lambda>j. (FarArr j, ?sz - 1)) [0..<8] else map (\<lambda>j. (FarArr j, 0)) []) ?m1 = Inr ?m1"
    by (rule efold_chk_ok) (use fa in auto)
  have dm: "dom (heap ?m1) = set (H5File # map FarArr [0..<8])"
    unfolding heap_new_blk h dom_fun_upd dom_map_of_conv_image_fst image_set far_keys by simp
  have "efold del_blk (H5File # map FarArr [0..<8]) ?m1 = Inr (?m1\<lparr>heap := heap ?m1 |` (- set (H5File # map FarArr [0..<8]))\<rparr>)"
  proof (rule efold_del_blks)
    show "distinct (H5File # map FarArr [0..<8])" by (auto simp: distinct_map inj_on_def)
    show "set (H5File # map FarArr [0..<8]) \<subseteq> dom (heap ?m1)" unfolding dm ..
  qed
  then have del: "efold del_blk (H5File # map FarArr [0..<8]) ?m1 = Inr (?m\<lparr>heap := Map.empty\<rparr>)"
    unfolding dm[symmetric] restrict_dom_empty using h5 by (simp add: new_blk_def)
  show ?thesis unfolding nf_output_mem_def Let_def using rd del by simp
qed

section \<open>Leaks and faults\<close>

text \<open>C37: after \<open>snapshot::output()\<close> the destructor frees the chunk array and the
  two arrays of pointers \<open>_data_mag\<close>, \<open>_data_arg\<close>, but the \<open>2 n_c\<close> data arrays they
  pointed to stay allocated with nothing left pointing to them; without \<open>output()\<close>
  the destructor frees exactly what the constructor allocated.\<close>

theorem snap_output_leaks:
  assumes d: "sn_dims sn = [int a, int b, int c]"
  shows "snap_destroy_mem sn (snap_construct_mem sn mem0) = Inr mem0
         \<and> (\<exists>so m. snap_output_mem sn (snap_construct_mem sn mem0) = Inr so \<and> snap_destroy_mem sn so = Inr m
               \<and> dom (heap m) = {DataComp k ci | k ci. k < 2 \<and> ci < length (sn_comps sn)} \<and> leaked m = 0)"
proof -
  let ?nc = "length (sn_comps sn)"
  let ?m1 = "so_mem (snap_construct_mem sn mem0)"
  let ?DT = "[(DataTop 0, ?nc), (DataTop 1, ?nc)]"
  let ?DC = "concat (map (\<lambda>ci. [(DataComp 0 ci, a * b * c), (DataComp 1 ci, a * b * c)]) [0..<?nc])"
  define m3 where "m3 = new_blks ?DC (new_blks ?DT ?m1)"
  define C where "C = fst ` set (chunk_blocks sn)"
  define D where "D = {DataComp k ci | k ci. k < 2 \<and> ci < ?nc}"
  have setDC: "fst ` set ?DC = D"
    unfolding D_def by (auto simp: less_2_cases_iff) (force intro: rev_image_eqI)+
  have nc: "DataTop k \<notin> C" "H5File \<notin> C" "DataComp k j \<notin> C" for k j
    using chunk_no_data[of sn] unfolding C_def by (simp_all add: map_of_eq_None_iff)
  have nd: "DataTop k \<notin> D" "H5File \<notin> D" for k
    unfolding D_def by auto
  have h1: "heap ?m1 = map_of (chunk_blocks sn)" "leaked ?m1 = 0" using snap_construct_heap[of sn] by simp_all
  have h2: "heap (new_blks ?DT ?m1) = map_of (chunk_blocks sn) ++ map_of ?DT"
    using h1 by (simp add: heap_new_blks)
  have h3: "heap m3 = map_of (chunk_blocks sn) ++ map_of ?DT ++ map_of ?DC"
    unfolding m3_def heap_new_blks[OF distinct_data_keys] h2 ..
  have l3: "leaked m3 = 0"
  proof -
    have l2: "leaked (new_blks ?DT ?m1) = 0" using h1 by (simp add: leaked_new_blks chunk_no_data domIff)
    have "fst ` set ?DC \<inter> dom (heap (new_blks ?DT ?m1)) = {}"
      unfolding h2 setDC dom_map_add dom_map_of_conv_image_fst C_def[symmetric] using nc nd
      by (auto simp: D_def)
    then have "leaked (new_blks ?DC (new_blks ?DT ?m1)) = leaked (new_blks ?DT ?m1)"
      by (rule leaked_new_blks[OF distinct_data_keys])
    then show ?thesis using l2 unfolding m3_def by simp
  qed
  have dom3: "dom (heap m3) = C \<union> {DataTop 0, DataTop 1} \<union> D"
    unfolding h3 dom_map_add dom_map_of_conv_image_fst setDC C_def by auto
  let ?m3' = "new_blk H5File 0 m3"
  have h5: "H5File \<notin> dom (heap m3)" unfolding dom3 using nc nd by auto
  have dcl: "map_of ?DC (DataComp k ci) = Some (a * b * c)" if "k < 2" "ci < ?nc" for k ci
    by (rule map_of_is_SomeI[OF distinct_data_keys]) (use that in \<open>auto simp: less_2_cases_iff\<close>)
  have dtn: "map_of ?DC (DataTop k) = None" for k by (auto simp: map_of_eq_None_iff)
  have lk: "heap m3 (DataTop k) = Some ?nc" "heap m3 (DataComp k ci) = Some (a * b * c)"
    if "k < 2" "ci < ?nc" for k ci
    unfolding h3 using that dcl[OF that] dtn by (auto simp: map_add_def less_2_cases_iff)
  have reads: "efold chk (concat (map (\<lambda>ci. [(DataTop 0, ci), (DataTop 1, ci)]
                 @ (if 0 < a * b * c then [(DataComp 0 ci, a * b * c - 1), (DataComp 1 ci, a * b * c - 1)] else []))
                 [0..<?nc])) ?m3' = Inr ?m3'"
    by (rule efold_chk_ok) (auto simp: lk split: if_splits)
  let ?m4 = "?m3'\<lparr>heap := heap ?m3' |` (- set [H5File, DataTop 0, DataTop 1])\<rparr>"
  have del4: "efold del_blk [H5File, DataTop 0, DataTop 1] ?m3' = Inr ?m4"
    by (rule efold_del_blks) (auto simp: dom3)
  have wr: "snap_write_mem sn \<lparr>so_data = Live, so_mem = m3\<rparr> = Inr \<lparr>so_data = Null, so_mem = ?m4\<rparr>"
    using reads del4 d by (simp add: snap_write_mem_def Let_def)
  have out: "snap_output_mem sn (snap_construct_mem sn mem0) = Inr \<lparr>so_data = Null, so_mem = ?m4\<rparr>"
    unfolding snap_output_mem_def snap_pass_fresh[OF d, folded m3_def] ebind.simps by (rule wr)
  have dom4: "dom (heap ?m4) = C \<union> D"
  proof -
    have hm4: "heap ?m4 = (heap m3)(H5File \<mapsto> 0) |` (- {H5File, DataTop 0, DataTop 1})" by (simp del: fun_upd_apply)
    have e: "dom (heap ?m4) = - {H5File, DataTop 0, DataTop 1} \<inter> insert H5File (dom (heap m3))"
      unfolding hm4 by (simp add: Int_commute)
    show ?thesis unfolding e dom3 using nc nd by auto
  qed
  let ?m5 = "?m4\<lparr>heap := heap ?m4 |` (- set (chunk_free_order sn))\<rparr>"
  have del5: "efold del_blk (chunk_free_order sn) ?m4 = Inr ?m5"
    by (rule efold_del_blks[OF distinct_chunk_free]) (unfold set_chunk_free C_def[symmetric] dom4, blast)
  have dest: "snap_destroy_mem sn \<lparr>so_data = Null, so_mem = ?m4\<rparr> = Inr ?m5"
    using del5 by (simp add: snap_destroy_mem_def)
  have "dom (heap ?m5) = D"
  proof -
    have hm5: "heap ?m5 = heap ?m4 |` (- C)" by (simp add: set_chunk_free C_def)
    have "dom (heap ?m5) = dom (heap ?m4) \<inter> - C" unfolding hm5 dom_restrict ..
    then show ?thesis unfolding dom4 using nc(3) by (auto simp: D_def)
  qed
  moreover have "leaked ?m5 = 0" using l3 h5 by (simp add: leaked_new_blk)
  ultimately show ?thesis using out dest snap_destroy_fresh[of sn] unfolding D_def by blast
qed

theorem snap_output_leaks_witness:
  "\<exists>so m. snap_output_mem \<lparr>sn_gdim = D3, sn_radius = 0, sn_dir = NO_DIRECTION, sn_freq = 1, sn_res = 1,
                              sn_center = vec3 0 0 0, sn_size = vec3 1 0 0, sn_car = [2, 1, 1], sn_dims = [2, 1, 1],
                              sn_rank = 1, sn_comps = [Ex], sn_chunks = Map.empty\<rparr>
            (snap_construct_mem \<lparr>sn_gdim = D3, sn_radius = 0, sn_dir = NO_DIRECTION, sn_freq = 1, sn_res = 1,
                              sn_center = vec3 0 0 0, sn_size = vec3 1 0 0, sn_car = [2, 1, 1], sn_dims = [2, 1, 1],
                              sn_rank = 1, sn_comps = [Ex], sn_chunks = Map.empty\<rparr> mem0) = Inr so
          \<and> snap_destroy_mem \<lparr>sn_gdim = D3, sn_radius = 0, sn_dir = NO_DIRECTION, sn_freq = 1, sn_res = 1,
                              sn_center = vec3 0 0 0, sn_size = vec3 1 0 0, sn_car = [2, 1, 1], sn_dims = [2, 1, 1],
                              sn_rank = 1, sn_comps = [Ex], sn_chunks = Map.empty\<rparr> so = Inr m
          \<and> dom (heap m) = {DataComp 0 0, DataComp 1 0} \<and> leaked m = 0"
proof -
  have e: "{DataComp k 0 | k. k < (2::nat)} = {DataComp 0 0, DataComp 1 0}"
    by (auto simp: less_2_cases_iff)
  show ?thesis
    using snap_output_leaks[of "\<lparr>sn_gdim = D3, sn_radius = 0, sn_dir = NO_DIRECTION, sn_freq = 1, sn_res = 1,
                              sn_center = vec3 0 0 0, sn_size = vec3 1 0 0, sn_car = [2, 1, 1], sn_dims = [2, 1, 1],
                              sn_rank = 1, sn_comps = [Ex], sn_chunks = Map.empty\<rparr>" 2 1 1]
    by (simp add: e)
qed

text \<open>C35: an nf2ff destroyed before \<open>process()\<close> reads the \<open>_h5file\<close> pointer the
  constructor never set; and even with \<open>_h5file = NULL\<close> its destructor deletes
  \<open>_snaps[dir]\<close> for the directions \<open>create_snaps\<close> did not record, so it frees exactly
  what the constructor allocated only when every direction is recorded
  (\<open>NO_DIRECTION\<close>).\<close>

theorem nf_destroy_unprocessed:
  "nf_destroy_mem nf (nf_construct_mem nf mem0) = Inl UninitRead
   \<and> ((\<exists>m. nf_destroy_mem nf ((nf_construct_mem nf mem0)\<lparr>no_h5 := Null\<rparr>) = Inr m \<and> heap m = Map.empty)
      \<longleftrightarrow> nf_dir nf = NO_DIRECTION)"
proof (intro conjI)
  show "nf_destroy_mem nf (nf_construct_mem nf mem0) = Inl UninitRead"
    by (simp add: nf_destroy_mem_def nf_construct_mem_def)
  show "(\<exists>m. nf_destroy_mem nf ((nf_construct_mem nf mem0)\<lparr>no_h5 := Null\<rparr>) = Inr m \<and> heap m = Map.empty)
      \<longleftrightarrow> nf_dir nf = NO_DIRECTION"
    by (cases "nf_dir nf")
       (simp_all add: nf_destroy_mem_def nf_construct_mem_def snaps_free_destroy_def snaps_blocks_def nf_sel_def
                      nf_npos_def upt_0_2 new_blks_def new_blk_def del_blk_def mem0_def fun_eq_iff)
qed

theorem nf_destroy_unprocessed_witness:
  "nf_destroy_mem \<lparr>nf_center = vec3 0 0 0, nf_size = vec3 1 1 1, nf_n = [2, 2, 2], nf_freq = 1, nf_res = 1,
                nf_dir = X, nf_out = False, nf_res_angle = [4, 2], nf_snaps = (\<lambda>_. None),
                nf_near = (\<lambda>_. None)\<rparr> (nf_construct_mem \<lparr>nf_center = vec3 0 0 0, nf_size = vec3 1 1 1, nf_n = [2, 2, 2], nf_freq = 1, nf_res = 1,
                nf_dir = X, nf_out = False, nf_res_angle = [4, 2], nf_snaps = (\<lambda>_. None),
                nf_near = (\<lambda>_. None)\<rparr> mem0) = Inl UninitRead
   \<and> \<not> (\<exists>m. nf_destroy_mem \<lparr>nf_center = vec3 0 0 0, nf_size = vec3 1 1 1, nf_n = [2, 2, 2], nf_freq = 1, nf_res = 1,
                nf_dir = X, nf_out = False, nf_res_angle = [4, 2], nf_snaps = (\<lambda>_. None),
                nf_near = (\<lambda>_. None)\<rparr> ((nf_construct_mem \<lparr>nf_center = vec3 0 0 0, nf_size = vec3 1 1 1, nf_n = [2, 2, 2], nf_freq = 1, nf_res = 1,
                nf_dir = X, nf_out = False, nf_res_angle = [4, 2], nf_snaps = (\<lambda>_. None),
                nf_near = (\<lambda>_. None)\<rparr> mem0)\<lparr>no_h5 := Null\<rparr>) = Inr m \<and> heap m = Map.empty)"
  using nf_destroy_unprocessed[of "\<lparr>nf_center = vec3 0 0 0, nf_size = vec3 1 1 1, nf_n = [2, 2, 2], nf_freq = 1, nf_res = 1,
                nf_dir = X, nf_out = False, nf_res_angle = [4, 2], nf_snaps = (\<lambda>_. None),
                nf_near = (\<lambda>_. None)\<rparr>"]
  by simp

text \<open>C15: in 3D with a positive resolution and positive sizes, for every direction and
  either value of \<open>out\<close>, the nf2ff the constructor builds runs \<open>process()\<close>
  (\<open>allocate\<close>, \<open>pass_data\<close>, the snapshots deleted, \<open>output_snaps\<close>, \<open>calculate\<close>,
  \<open>output\<close>) to its end without a bad read, bad delete or out-of-bounds access, and its
  destructor then returns with every block it allocated freed and none leaked.\<close>

theorem nf_lifecycle_releases:
  assumes pos: "0 < res" "0 < vv v_size X" "0 < vv v_size Y" "0 < vv v_size Z"
  shows "\<exists>nf ob m. nf2ff_new D3 center v_size l res d out = Some nf
           \<and> nf_process_mem nf (nf_construct_mem nf mem0) = Inr ob
           \<and> nf_destroy_mem nf ob = Inr m \<and> heap m = Map.empty \<and> leaked m = 0"
proof -
  obtain nf where new: "nf2ff_new D3 center v_size l res d out = Some nf" and dir: "nf_dir nf = d"
    and fc: "\<forall>f\<in>set (nf_faces d). \<exists>s0. nf_snaps nf f = Some (snapshot_create s0) \<and> sn_radius s0 = 0
                 \<and> 0 < sn_dims s0 ! 2
                 \<and> (\<forall>cp x y. (cp, x, y) \<in> set (snap_cells s0) \<longleftrightarrow> near_alloc nf (fst f, snd f, cp, x, y))"
    using nf2ff_new_D3[OF pos, of center l d out] by blast
  have g: "\<forall>f\<in>set (nf_faces (nf_dir nf)). \<exists>s0. nf_snaps nf f = Some (snapshot_create s0)
             \<and> (\<forall>cp x y. (cp, x, y) \<in> set (snap_cells s0) \<longleftrightarrow> near_alloc nf (fst f, snd f, cp, x, y))"
    using fc unfolding dir by blast
  define ob1 where "ob1 = nf_allocate_mem nf (nf_construct_mem nf mem0)"
  have h1: "heap (no_mem ob1) = map_of (snaps_blocks nf) ++ map_of (near_blocks nf)" "leaked (no_mem ob1) = 0"
    using nf_allocate_fresh[of nf] unfolding ob1_def by simp_all
  have f1: "no_near ob1 = Live" "no_snaps ob1 = Live"
    by (simp_all add: ob1_def nf_allocate_mem_def nf_construct_mem_def)
  have pass: "nf_pass_mem nf ob1 = Inr ob1" by (rule nf_pass_ok[OF g h1(1)])
  define ob2 where "ob2 = ob1\<lparr>no_snaps := Null, no_mem := (no_mem ob1)\<lparr>heap := map_of (near_blocks nf)\<rparr>\<rparr>"
  have snaps: "map_sum id (\<lambda>m. ob1\<lparr>no_snaps := Null, no_mem := m\<rparr>) (efold del_blk (snaps_free_process nf) (no_mem ob1))
               = Inr ob2"
    using nf_free_snaps[OF h1(1)] by (simp add: ob2_def)
  obtain ob3 where o3: "(if nf_out nf then nf_output_snaps_mem nf ob2 else Inr ob2) = Inr ob3"
    and m3: "no_mem ob3 = no_mem ob2" "no_near ob3 = Live" "no_snaps ob3 = Null"
  proof (cases "nf_out nf")
    case True
    obtain h5 where "nf_output_snaps_mem nf ob2 = Inr (ob2\<lparr>no_h5 := h5\<rparr>)"
      using nf_output_snaps_keep[of ob2 nf] by (auto simp: ob2_def)
    then show ?thesis using that True f1 by (simp add: ob2_def)
  next
    case False
    then show ?thesis using that f1 by (simp add: ob2_def)
  qed
  have h3: "heap (no_mem ob3) = map_of (near_blocks nf)" "leaked (no_mem ob3) = 0"
    using m3(1) h1(2) by (simp_all add: ob2_def)
  define ob4 where "ob4 = ob3\<lparr>no_near := Null, no_far := Live, no_mem := (no_mem ob3)\<lparr>heap := map_of (far_blocks nf)\<rparr>\<rparr>"
  have calc: "nf_calc_mem nf ob3 = Inr ob4" unfolding ob4_def by (rule nf_calc_ok[OF h3(1) m3(2)])
  define ob5 where "ob5 = ob4\<lparr>no_far := Null, no_h5 := Null, no_mem := (no_mem ob4)\<lparr>heap := Map.empty\<rparr>\<rparr>"
  have outp: "nf_output_mem nf ob4 = Inr ob5" unfolding ob5_def by (rule nf_output_ok) (simp add: ob4_def)
  have proc: "nf_process_mem nf (nf_construct_mem nf mem0) = Inr ob5"
    unfolding nf_process_mem_def ob1_def[symmetric] pass ebind.simps snaps o3 calc outp ..
  have dest: "nf_destroy_mem nf ob5 = Inr (no_mem ob5)"
    using m3(3) by (simp add: nf_destroy_mem_def ob5_def ob4_def)
  have "heap (no_mem ob5) = Map.empty" "leaked (no_mem ob5) = 0"
    using h3(2) by (simp_all add: ob5_def ob4_def)
  then show ?thesis using new proc dest by blast
qed

theorem nf_lifecycle_releases_witness:
  "\<exists>nf ob m. nf2ff_new D3 (vec3 0 0 0) (vec3 1 1 1) 1 1 NO_DIRECTION True = Some nf
     \<and> nf_process_mem nf (nf_construct_mem nf mem0) = Inr ob
     \<and> nf_destroy_mem nf ob = Inr m \<and> heap m = Map.empty \<and> leaked m = 0"
  using nf_lifecycle_releases[where res = 1 and v_size = "vec3 1 1 1" and center = "vec3 0 0 0" and l = 1
                                and d = NO_DIRECTION and out = True]
  by simp

end
