(* ===== verification/Spec2Isabelle.thy ===== *)
theory Spec2Isabelle
  imports Split Intersect EffortSplit Symmetry SymmetryOps Reduce Derived Interpolate ModeVolume NF2FF Lifetimes
begin

text \<open>
  \<^bold>\<open>A verification development of the geometry core of MEEP (\<open>src/1.2.1/src/vec.cpp\<close>).\<close>

  \<^bold>\<open>The program.\<close>  \<open>vec.cpp\<close> holds the lattice geometry beneath the finite-difference
  time-domain simulator: the coordinate algebra (\<open>vec\<close>, \<open>ivec\<close> in half-grid units),
  continuous boxes (\<open>volume\<close>), the discretised domain descriptor (\<open>grid_volume\<close>:
  extents, origin, strides, ownership, flattened indexing, intersection), the domain
  splitter (\<open>split\<close>, \<open>split_by_effort\<close>, \<open>split_at_fraction\<close>), the point-group
  symmetry engine (\<open>symmetry\<close>: chained generators, transforms of directions, points,
  volumes and components, phases, canonical points, and the reduction of weighted
  region lists) and the derived field components (Poynting flux, energy density).
  The splitter and the symmetry engine read and build \<open>grid_volume\<close>s; the reduction
  calls the transforms and phases; \<open>split_by_effort\<close> calls \<open>intersect_with\<close>.  The
  class declarations live in \<open>meep/vec.hpp\<close>, which is not part of the sources: the
  header functions the model needs (the enumerations, \<open>LOOP_OVER_DIRECTIONS\<close>,
  \<open>iyee_shift\<close>, \<open>num_changed\<close>, \<open>shift_origin\<close>, \<open>has_field\<close>, \<open>little_corner\<close>,
  \<open>round_float\<close>, \<open>operator==\<close>) are modelled from their definitions there and
  marked \<open>spec_modelled\<close> in the manifest.

  \<^bold>\<open>Theories and what their lemmas show.\<close>
  \<^item> \<open>Prelude\<close>: C conversions (\<open>c_trunc\<close> for \<open>(int)\<close> of a double, \<open>my_round\<close>;
    \<open>sdiv\<close>/\<open>smod\<close> of \<open>HOL-Library.Signed_Division\<close> for C's \<open>/\<close> and \<open>%\<close>), the
    collections \<open>geom_simps\<close> and \<open>wf_intros\<close>, and shared lemmas on rounding,
    mixed-radix decomposition, interval sums, lists updated in place, arrays filled
    by loops of writes, and loops whose body may fail.
  \<^item> \<open>Coords\<close>: enumerations, active directions in loop order, \<open>ivec\<close>/\<open>vec\<close> as
    records of a dimensionality and a coordinate function, the point operations,
    \<open>project_to_boundary\<close>, the loop order \<open>yucky_dir\<close>, and the name tables.
  \<^item> \<open>GridVolume\<close>: the record \<open>grid_volume\<close> (fields \<open>dim, a, inva, num[3], io,
    origin, the_stride[5], the_ntot\<close>), constructor and mutators, \<open>owns\<close>,
    \<open>contains\<close>, \<open>index\<close>, \<open>iloc\<close>, \<open>icenter\<close>, \<open>halve\<close>, \<open>yucky_num\<close>, the
    invariant \<open>gv_wf\<close>.
    C1 index/iloc round trip, C2 the mutators keep \<open>gv_wf\<close>, C3 owning implies
    containing, C11 indices of owned points are in range.
  \<^item> \<open>Volume\<close>: the class \<open>volume\<close> and the members of \<open>grid_volume\<close> producing
    volumes.  C14, C16 \<open>intersect_with\<close>/\<open>intersects\<close> are the greatest lower bound
    and the common-point test (a lemma: disjoint volumes give the degenerate box), C17 \<open>normal_direction\<close> of codimension-1 volumes,
    C20 owned points lie in \<open>surroundings()\<close>.
  \<^item> \<open>Lattice\<close>: Yee offsets, boundary patches, extents, constructors \<open>volone\<close> ...
    \<open>volcyl\<close>.  C22 \<open>yee2cent_offsets\<close> aborts exactly on the cylindrical E/D
    components along R or P, C23 the constructors build well-formed grids of the
    requested dimensionality whose extents are the sizes times the resolution rounded,
    C24-C25 the boundary patches.
  \<^item> \<open>Intersect\<close>: \<open>grid_volume::intersect_with\<close>; C39 for aligned overlapping grids it
    never aborts, and the intersection and the shaved slabs conserve the points.
  \<^item> \<open>Split\<close> and \<open>EffortSplit\<close>: \<open>split_at_fraction\<close>, \<open>split\<close>, \<open>split_by_effort\<close>.
    C4 \<open>split\<close> returns, C5 its parts conserve the owned points, C10 a cut partitions
    ownership; a lemma shows \<open>split_by_effort\<close> without a table does not reproduce
    \<open>split\<close>.
  \<^item> \<open>Symmetry\<close>: the chain of generator links, constructors, \<open>multiplicity\<close>,
    \<open>operator+\<close>, \<open>operator*\<close>, copy and assignment, and \<open>transform(d, n)\<close>, refined
    against the composed generator action \<open>sym_act\<close>.  C6 \<open>transform\<close> returns in
    range, C7 it refines \<open>sym_act\<close> (a lemma shows a chained transform loses a
    phase without its hypothesis), C9 it
    fails at \<open>n = multiplicity()\<close>, C38 symmetries built by the program are
    well-formed and every generator of order \<open>g\<close> returns each direction after \<open>g\<close> steps (a
    quarter turn being no half turn), and a lemma shows they are copied faithfully (rule
    induction on \<open>constructible\<close>).
  \<^item> \<open>SymmetryOps\<close>: transforms of points, volumes and components, \<open>phase_shift\<close>,
    \<open>is_primitive\<close>, \<open>operator==\<close>.  C26-C27 the phases of vector and pseudovector
    components under mirrors and rotations (their values asserted), C28 a mirror maps a
    point to its reflection about the centre and is an involution; a lemma shows \<open>is_primitive\<close> is not
    unique per orbit in cylindrical coordinates.
  \<^item> \<open>Reduce\<close>: \<open>symmetry::reduce\<close>.  A lemma checks the example of the specification (the
    code keeps the lower half); C31 weight conservation under the identity, C32
    \<open>reduce\<close> returns for well-formed symmetries.
  \<^item> \<open>Derived\<close>: \<open>poynting_fun\<close>, \<open>energy_fun\<close>, \<open>derived_component_func\<close>.  C34 the
    Poynting components are \<open>Re(conj(E) \<times> H)\<close>, a lemma shows the energy component lists fit
    in 12 entries, C36 the electric and magnetic energy densities are half the sums
    of \<open>Re(conj(E_d) D_d)\<close> and \<open>Re(conj(H_d) B_d)\<close> over the stored directions, and the
    total is their sum; a lemma shows \<open>Sz\<close> uses Cartesian components in cylindrical coordinates.
  \<^item> \<open>Interp\<close>: the compaction \<open>stupidsort\<close>, proved equal to a functional reference
    \<open>seg_sort\<close>; C12 it compacts (a lemma shows it reorders the kept entries).
  \<^item> \<open>Interpolate\<close>: the two \<open>interpolate\<close> overloads: the lattice one
    (\<open>interpolate_locs\<close>: the doubling loop \<open>interp_expand\<close>, renormalisation, the clamp
    \<open>interp_clamp\<close> with its abort, \<open>stupidsort\<close>, the \<open>all_same\<close> correction
    \<open>even_out\<close>) and the index one (\<open>interpolate\<close>: ownership filter, indices, range
    filter, the containment aborts).  C19: on a well-formed grid the lattice version
    never aborts, and its weights are a non-empty prefix of values at least
    \<open>SMALL = 1e-13\<close> followed by zeros, summing to 1 within \<open>8 SMALL\<close>; the proof
    bounds the multilinear factors by the floor of the scaled point and carries the sum
    through the compaction as a multiset.
  \<^item> \<open>Snapshot\<close>: the sampling geometry of \<open>snapshot\<close> (lines 1493-1811): the
    constructor's sample counts \<open>n_car\<close> and compacted array shape \<open>n_dims\<close>,
    \<open>add_component\<close>, the allocated shape, \<open>create_dft\<close> and \<open>create_dft_sphere\<close>
    as the point requests written into the chunk array (a map from cells to
    requests), \<open>create()\<close>, and \<open>pass_data\<close> on one process (the arrays
    \<open>_data_mag\<close>, \<open>_data_arg\<close> as one map).  C13: a box snapshot writes
    every allocated cell once and requests exactly the Cartesian grid of the box;
    lemmas show the hemisphere about \<open>Z\<close> is centred, the one about \<open>Y\<close> is not, and
    the flat index enumerates the data arrays in order; C30: \<open>pass_data\<close> of a box
    snapshot returns and fills every entry of the data arrays with the field at the
    requested point.
  \<^item> \<open>ModeVolume\<close>: \<open>mode_volume\<close> (lines 2353-2466) over a snapshot of \<open>Ex, Ey,
    Ez\<close>, with the fields as two functions (the averaged DFT value of a chunk and
    \<open>get_eps\<close>).  C21: when the snapshot's shape is not compacted, \<open>local_calc\<close>
    sums \<open>eps |E|^2\<close> over the Cartesian samples (refinement of \<open>mode_energy\<close>);
    C18: for a plane normal to \<open>x\<close> it reads outside the snapshot's array.
  \<^item> \<open>NF2FF\<close>: the near-to-far-field transform \<open>nf2ff\<close> (lines 1813-2352): the
    constructor and \<open>create_snaps\<close> (one snapshot of the four tangential components
    per face, \<open>return_component\<close>), \<open>allocate\<close>'s shape of the near-field array
    \<open>_near_data[dir][pos][comp][x][y]\<close> (a map from cells to values),
    \<open>pass_data\<close> as a loop of writes that fails on a read outside a snapshot or a
    write outside the allocation, and \<open>calculate\<close>: the currents, the phase, the
    potentials \<open>L, N\<close>, the far fields and their normalisation.  C29: in 3D
    \<open>pass_data\<close> returns and fills exactly the allocated cells, which include every
    cell \<open>calculate\<close> reads; C33: the currents are \<open>n \<times> E\<close> and \<open>n \<times> H\<close>;
    the phase \<open>nf_phase\<close> takes no wavenumber \<open>2 pi freq\<close>; C8: \<open>calculate\<close> frees the
    rows \<open>allocate\<close> created, the destructor does only when \<open>size[0] = size[2]\<close>
    or no face normal to \<open>y\<close>, \<open>z\<close> is recorded (the heap as the set of live rows).
  \<^item> \<open>Lifetimes\<close>: the memory of the two diagnostics that own arrays.  The heap is a
    map from the blocks the code allocates (\<open>datatype block\<close>: \<open>NearRow dir pos comp x\<close>
    is \<open>_near_data[dir][pos][comp][x]\<close>, \<open>DataComp k c\<close> is \<open>_data_mag[c]\<close> or
    \<open>_data_arg[c]\<close>, \<open>ChunkN1 c n0 n1\<close> a row of \<open>_dft_chunk_array_ptr\<close>, ...) to
    their lengths, with a count of leaked blocks (record \<open>mem\<close>); \<open>new_blk\<close>,
    \<open>del_blk\<close>, \<open>chk\<close> are \<open>new T[k]\<close>, \<open>delete\<close> and a read of one entry, and a bad
    delete, a read of a dead block or past its end, and a read of an uninitialised
    pointer are values of \<open>mem_fault\<close>; \<open>efold\<close> is a loop stopped by the first fault.
    The snapshot's constructor with \<open>allocate_memory\<close> (\<open>snap_construct_mem\<close>),
    \<open>pass_data\<close> (\<open>snap_pass_mem\<close>), \<open>output\<close>/\<open>output_snapshot\<close>
    (\<open>snap_output_mem\<close>) and destructor (\<open>snap_destroy_mem\<close>); the nf2ff
    constructor with \<open>create_snaps\<close>, \<open>allocate\<close>, \<open>pass_data\<close>, \<open>process\<close>,
    \<open>output_snaps\<close>, \<open>calculate\<close>, \<open>output\<close> and destructor (\<open>nf_*_mem\<close>), each
    the sequence of allocations, reads and deletions of the code in its loop order,
    with the pointer fields as \<open>pstate\<close> (uninitialised, \<open>NULL\<close>, live).  C15: every
    constructed 3D nf2ff runs \<open>process()\<close> without a fault, and its destructor then
    leaves the heap empty with nothing leaked (the proof follows the heap through
    the stages: the snapshot pointers; those and the near-field array; the near-field
    array alone; the far-field arrays; nothing); C35: destroying an nf2ff before \<open>process()\<close> reads the
    uninitialised \<open>_h5file\<close>, and even with it \<open>NULL\<close> deletes \<open>_snaps[dir]\<close> of the
    directions not recorded unless \<open>dir\<close> is \<open>NO_DIRECTION\<close>; C37: after
    \<open>output()\<close> the snapshot's destructor leaves the \<open>2 n_c\<close> data arrays allocated
    and unreachable, while without \<open>output()\<close> it frees exactly what the constructor
    allocated.

  \<^bold>\<open>Modelling choices.\<close>  Doubles are \<open>real\<close>: the development states what the
  floating-point code computes up to rounding; where the code converts to \<open>int\<close>
  (\<open>(int)(x + 0.5)\<close>), the model rounds the exact value.  The single-precision
  comparison \<open>round_float()\<close> of \<open>reduce\<close> is a parameter, so its lemmas hold for any
  rounding.  C \<open>int\<close> is \<open>int\<close>: the extents of a real simulation are far below
  \<open>2^31\<close> and no claim depends on overflow.  Loops over arrays are structural
  recursions on lists; loops and recursions that may not end (\<open>wrap_nonneg\<close> in
  \<open>iloc\<close>, \<open>split\<close>, \<open>split_by_effort\<close>, \<open>transform(d, n)\<close>) are
  \<open>partial_function (option)\<close>, so that not returning is \<open>None\<close>, and the claims about
  them (C1, C4, C6, C32) prove that they return; no fuel is used.  An array filled by
  a loop of writes is a function from cells to \<open>option\<close> values, and a read outside the
  allocated shape, undefined in C, is \<open>None\<close>.  \<open>pi\<close>, \<open>sin\<close>, \<open>cos\<close>, \<open>sqrt\<close> and
  \<open>ceil\<close> are those of the reals; a \<open>0.0/0.0\<close> is a \<open>None\<close> point.  An \<open>abort()\<close>, a
  division by zero or a dereference of a null pointer is \<open>None\<close> or \<open>Inl\<close> of an
  error datatype.  A linked list (\<open>symmetry::next\<close>, \<open>volume_list\<close>) is a list,
  \<open>NULL\<close> the empty list; out-parameter arrays are returned lists.

  \<^bold>\<open>Not modelled.\<close>  Of \<open>snapshot\<close>, \<open>mode_volume\<close> and \<open>nf2ff\<close>, the parts
  that only move data: the DFT accumulation and the MPI transfers of \<open>pass_data\<close>
  (the averaged value of a chunk is a parameter, and one process holds all chunks),
  and the values the HDF5 calls of \<open>output\<close> and \<open>output_snaps\<close> write (\<open>Lifetimes\<close>
  models their allocations, reads and deletions, a file as the block \<open>H5File\<close>).
  The name strings and temporary \<open>vec\<close> objects of the constructors are freed in the
  function or destructor that allocates them and are left out of the heap, as is
  \<open>mode_volume\<close>'s destructor, which deletes its name, its two \<open>vec\<close> objects
  and its snapshot.  A snapshot owned by an nf2ff is one block \<open>SnapObj\<close>: its own
  arrays are those of the snapshot lemmas.  The specification puts these
  diagnostics out of scope; the model covers their sampling geometry and arithmetic,
  which consume the geometry layer.  \<open>grid_volume::print\<close> and the \<open>printf\<close>
  diagnostics only print, like the \<open>printf\<close> lines before the aborts of
  \<open>interpolate\<close>.  The destructor of \<open>symmetry\<close> frees the owned tail and has no
  counterpart in the value model.
\<close>

end
